(* ===== verification/Prelude.thy ===== *)
theory Prelude
  imports Main "HOL-Library.AList" "HOL-Library.Multiset" "HOL-Library.Monad_Syntax"
begin

text \<open>
  What every component shares: Go's error values and result pairs, run-time panics, and the
  collections of facts (\<open>named_theorems\<close>) the component proofs draw on.

  A Go function that returns \<open>(T, error)\<close> has result type \<open>'a result\<close>: \<open>Inl err\<close> for a
  non-nil error, \<open>Inr v\<close> for the value with a nil error. A function that returns only
  \<open>error\<close> has type \<open>goerror option\<close>. A function that may panic at run time has type
  \<open>'a outcome\<close>: \<open>None\<close> is the panic, so a theorem that a call is \<open>Some\<close> is a theorem that
  it does not panic.
\<close>

section \<open>Errors, results, panics\<close>

text \<open>
  \<open>Errorf s\<close> is \<open>fmt.Errorf\<close> (or a library error) whose text is \<open>s\<close>; \<open>Wrap s e\<close> is
  \<open>fmt.Errorf("s%w", e)\<close>. \<open>Error\<close> is the \<open>error\<close> interface's method.
\<close>

datatype goerror = Errorf string | Wrap string goerror

primrec Error :: "goerror \<Rightarrow> string" where
  "Error (Errorf s) = s"
| "Error (Wrap s e) = s @ Error e"

type_synonym 'a result = "goerror + 'a"

type_synonym 'a outcome = "'a option"

text \<open>
  A pointer whose target is not shared with anyone who writes to it: \<open>None\<close> is nil.
  Dereferencing nil panics, so a dereference is \<open>Option.bind\<close> on the pointer.
\<close>

type_synonym 'a ptr = "'a option"

definition is_ok :: "'a result \<Rightarrow> bool" where
  "is_ok r = (case r of Inl _ \<Rightarrow> False | Inr _ \<Rightarrow> True)"

lemma is_ok_simps [simp]:
  "is_ok (Inl e) = False"
  "is_ok (Inr v) = True"
  by (simp_all add: is_ok_def)

lemma is_ok_iff: "is_ok r \<longleftrightarrow> (\<exists>v. r = Inr v)"
  by (cases r) auto

text \<open>
  What a sequence of calls returns, if it does not panic: \<open>pred_option P m\<close> says that \<open>P\<close> holds
  of the value.
\<close>

lemma pred_bindI: "(\<And>x. m = Some x \<Longrightarrow> pred_option P (f x)) \<Longrightarrow> pred_option P (Option.bind m f)"
  by (cases m) simp_all

lemma pred_optionD: "pred_option P m \<Longrightarrow> m = Some x \<Longrightarrow> P x"
  by simp

section \<open>Collections of facts\<close>

named_theorems wf_rules \<open>well-formedness facts: introduction and preservation\<close>
named_theorems response_simps \<open>what the ext-auth responses consist of\<close>
named_theorems rego_simps \<open>evaluation of the Rego policy\<close>

section \<open>Lists and association lists\<close>

lemma case_option_ex: "(case x of None \<Rightarrow> False | Some v \<Rightarrow> P v) \<longleftrightarrow> (\<exists>v. x = Some v \<and> P v)"
  by (cases x) simp_all

lemma map_of_SomeD_fst: "map_of al k = Some v \<Longrightarrow> k \<in> fst ` set al"
  by (metis map_of_SomeD fst_conv image_eqI)

lemma map_of_mset_eq:
  assumes "mset al = mset bl" and "distinct (map fst al)"
  shows "map_of al = map_of bl"
proof -
  from assms(1) have set: "set al = set bl" by (rule mset_eq_setD)
  from assms(1) have "mset (map fst al) = mset (map fst bl)" by simp
  from mset_eq_imp_distinct_iff [OF this] assms(2) have "distinct (map fst bl)" by simp
  from map_of_inject_set [OF assms(2) this] set show ?thesis by simp
qed

lemma list_all_map_of:
  "distinct (map fst al) \<Longrightarrow>
     (\<forall>(k, v) \<in> set al. P k v) \<longleftrightarrow> (\<forall>k v. map_of al k = Some v \<longrightarrow> P k v)"
  by auto

text \<open>Inserting the entries one after the other into an empty map.\<close>

definition insert_all :: "('k \<times> 'v) list \<Rightarrow> ('k \<times> 'v) list \<Rightarrow> ('k \<times> 'v) list" where
  "insert_all kvs al = fold (\<lambda>(k, v). AList.update k v) kvs al"

lemma insert_all_simps [simp]:
  "insert_all [] al = al"
  "insert_all ((k, v) # kvs) al = insert_all kvs (AList.update k v al)"
  by (simp_all add: insert_all_def)

lemma update_fresh: "k \<notin> fst ` set al \<Longrightarrow> AList.update k v al = al @ [(k, v)]"
  by (induction al) auto

lemma insert_all_distinct:
  "distinct (map fst (al @ kvs)) \<Longrightarrow> insert_all kvs al = al @ kvs"
proof (induction kvs arbitrary: al)
  case Nil
  then show ?case by simp
next
  case (Cons p kvs)
  obtain k v where p: "p = (k, v)" by (cases p)
  from Cons.prems p have "k \<notin> fst ` set al" by auto
  then have up: "AList.update k v al = al @ [(k, v)]" by (rule update_fresh)
  from Cons.prems p have "distinct (map fst ((al @ [(k, v)]) @ kvs))" by simp
  then have "insert_all kvs (al @ [(k, v)]) = (al @ [(k, v)]) @ kvs" by (rule Cons.IH)
  then show ?case by (simp add: p up)
qed

lemma map_of_insert_all: "map_of (insert_all kvs al) = map_of (rev kvs @ al)"
proof (induction kvs arbitrary: al)
  case Nil
  then show ?case by simp
next
  case (Cons p kvs)
  then show ?case
    by (cases p) (simp add: update_conv' map_of_append fun_eq_iff map_add_def split: option.split)
qed

lemma distinct_insert_all: "distinct (map fst al) \<Longrightarrow> distinct (map fst (insert_all kvs al))"
  by (induction kvs arbitrary: al) (auto simp: distinct_update)

end
