(* ===== verification/GoData.thy ===== *)
theory GoData
  imports Prelude
begin

text \<open>
  Go's maps and slices. A map is nil or made, and then a list of entries with distinct keys
  (\<open>gwf\<close>); a slice is nil or a list. Writing to a nil map panics (\<open>None\<close>); reading one, ranging
  over it and deleting from it do not. Ranging over a map visits each entry once, in an order
  Go leaves unspecified: a function that ranges takes the order as a parameter \<open>ord\<close>, and
  \<open>range_order ord\<close> says that it only permutes.
\<close>

section \<open>Maps\<close>

datatype ('k, 'v) gomap = NilMap | GoMap "('k \<times> 'v) list"

primrec entries :: "('k, 'v) gomap \<Rightarrow> ('k \<times> 'v) list" where
  "entries NilMap = []"
| "entries (GoMap al) = al"

definition gmake :: "('k, 'v) gomap" where
  "gmake = GoMap []"

text \<open>\<open>v, ok := m[k]\<close>, and \<open>m[k]\<close> with the zero value \<open>z\<close> for a missing key.\<close>

definition glookup :: "('k, 'v) gomap \<Rightarrow> 'k \<Rightarrow> 'v option" where
  "glookup m k = map_of (entries m) k"

definition gget :: "'v \<Rightarrow> ('k, 'v) gomap \<Rightarrow> 'k \<Rightarrow> 'v" where
  "gget z m k = (case glookup m k of None \<Rightarrow> z | Some v \<Rightarrow> v)"

primrec gset :: "'k \<Rightarrow> 'v \<Rightarrow> ('k, 'v) gomap \<Rightarrow> ('k, 'v) gomap outcome" where
  "gset k v NilMap = None"
| "gset k v (GoMap al) = Some (GoMap (AList.update k v al))"

primrec gdelete :: "'k \<Rightarrow> ('k, 'v) gomap \<Rightarrow> ('k, 'v) gomap" where
  "gdelete k NilMap = NilMap"
| "gdelete k (GoMap al) = GoMap (AList.delete k al)"

definition gwf :: "('k, 'v) gomap \<Rightarrow> bool" where
  "gwf m = distinct (map fst (entries m))"

definition range_order :: "('a list \<Rightarrow> 'a list) \<Rightarrow> bool" where
  "range_order ord \<longleftrightarrow> (\<forall>xs. mset (ord xs) = mset xs)"

lemma glookup_gmake [simp]: "glookup gmake k = None"
  by (simp add: glookup_def gmake_def)

lemma glookup_NilMap [simp]: "glookup NilMap k = None"
  by (simp add: glookup_def)

lemma glookup_GoMap: "glookup (GoMap al) k = map_of al k"
  by (simp add: glookup_def)

lemma gset_made: "m \<noteq> NilMap \<Longrightarrow> \<exists>m'. gset k v m = Some m'"
  by (cases m) auto

lemma gset_not_nil: "gset k v m = Some m' \<Longrightarrow> m' \<noteq> NilMap"
  by (cases m) auto

lemma glookup_gset: "gset k v m = Some m' \<Longrightarrow> glookup m' = (glookup m)(k \<mapsto> v)"
  by (cases m) (auto simp: glookup_def update_conv')

lemma gwf_gmake [wf_rules, simp]: "gwf gmake"
  by (simp add: gwf_def gmake_def)

lemma gwf_gset [wf_rules]: "gset k v m = Some m' \<Longrightarrow> gwf m \<Longrightarrow> gwf m'"
  by (cases m) (auto simp: gwf_def distinct_update)

lemma glookup_gdelete: "glookup (gdelete k m) = (glookup m)(k := None)"
  by (cases m) (auto simp: glookup_def delete_conv')

lemma gdelete_not_nil [simp]: "gdelete k m = NilMap \<longleftrightarrow> m = NilMap"
  by (cases m) auto

lemma gwf_gdelete [wf_rules]: "gwf m \<Longrightarrow> gwf (gdelete k m)"
  by (cases m) (auto simp: gwf_def distinct_delete)

lemma entries_glookup: "gwf m \<Longrightarrow> (k, v) \<in> set (entries m) \<longleftrightarrow> glookup m k = Some v"
  by (simp add: gwf_def glookup_def)

lemma entries_all:
  assumes "gwf m"
  shows "(\<forall>(k, v) \<in> set (entries m). Q k v) \<longleftrightarrow> (\<forall>k v. glookup m k = Some v \<longrightarrow> Q k v)"
  by (simp only: Ball_def split_paired_All entries_glookup [OF assms] prod.case)

lemma glookup_in_entries: "glookup m k = Some v \<Longrightarrow> (k, v) \<in> set (entries m)"
  by (auto simp: glookup_def dest: map_of_SomeD)

lemma range_order_set: "range_order ord \<Longrightarrow> set (ord xs) = set xs"
  unfolding range_order_def by (metis mset_eq_setD)

lemma range_order_mset: "range_order ord \<Longrightarrow> mset (ord xs) = mset xs"
  by (simp add: range_order_def)

lemma range_order_distinct:
  "range_order ord \<Longrightarrow> distinct (map f (ord xs)) \<longleftrightarrow> distinct (map f xs)"
  unfolding range_order_def by (metis mset_eq_imp_distinct_iff mset_map)

lemma range_order_id [simp]: "range_order id" "range_order (\<lambda>xs. xs)"
  by (simp_all add: range_order_def)

lemma range_order_rev: "range_order rev"
  by (simp add: range_order_def)

text \<open>
  The loop \<open>for k, v := range in { out[k] = f(v) }\<close> over the entries \<open>kvs\<close>.
\<close>

primrec range_set :: "('v \<Rightarrow> 'w outcome) \<Rightarrow> ('k \<times> 'v) list \<Rightarrow> ('k, 'w) gomap \<Rightarrow> ('k, 'w) gomap outcome"
where
  "range_set f [] out = Some out"
| "range_set f (kv # kvs) out =
     Option.bind (f (snd kv)) (\<lambda>w. Option.bind (gset (fst kv) w out) (range_set f kvs))"

lemma range_set_total:
  assumes "\<And>v. v \<in> snd ` set kvs \<Longrightarrow> f v = Some (g v)"
  shows "range_set f kvs (GoMap al) = Some (GoMap (insert_all (map (\<lambda>(k, v). (k, g v)) kvs) al))"
  using assms by (induction kvs arbitrary: al) (auto split: prod.splits)

lemma range_set_fresh:
  assumes "\<And>v. v \<in> snd ` set kvs \<Longrightarrow> f v = Some v" and "distinct (map fst kvs)"
  shows "range_set f kvs gmake = Some (GoMap kvs)"
  using assms(2) by (simp add: gmake_def range_set_total [OF assms(1)] insert_all_distinct)

text \<open>The map built does not depend on the order in which the source map was ranged over.\<close>

lemma range_set_order:
  assumes "\<And>v. v \<in> snd ` set kvs \<Longrightarrow> f v = Some (g v)"
    and "distinct (map fst kvs)" and "range_order ord"
  shows "map_option glookup (range_set f (ord kvs) gmake)
         = map_option glookup (range_set f kvs gmake)"
proof -
  let ?h = "\<lambda>(k, v). (k, g v)"
  have set: "set (ord kvs) = set kvs" by (rule range_order_set [OF assms(3)])
  have keys: "map fst (map ?h xs) = map fst xs" for xs by (simp add: case_prod_beta comp_def)
  have m: "mset (map ?h (ord kvs)) = mset (map ?h kvs)"
    using range_order_mset [OF assms(3), of kvs] by simp
  have d: "distinct (map fst (map ?h (ord kvs)))"
    unfolding keys using assms(2,3) by (simp add: range_order_distinct)
  have d': "distinct (map fst (map ?h kvs))" unfolding keys by (rule assms(2))
  have eq: "map_of (map ?h (ord kvs)) = map_of (map ?h kvs)" by (rule map_of_mset_eq [OF m d])
  have "range_set f xs gmake = Some (GoMap (map ?h xs))"
    if "set xs = set kvs" and "distinct (map fst (map ?h xs))" for xs
    using range_set_total [of xs f g "[]"] insert_all_distinct [of "[]" "map ?h xs"] that assms(1)
    by (simp add: gmake_def)
  from this [OF set d] this [OF refl d'] eq show ?thesis
    by (simp add: glookup_GoMap fun_eq_iff)
qed

section \<open>Slices\<close>

datatype 'a slice = NilSlice | Slice "'a list"

primrec elems :: "'a slice \<Rightarrow> 'a list" where
  "elems NilSlice = []"
| "elems (Slice xs) = xs"

text \<open>
  \<open>make([]T, n)\<close> with the zero value of the element type, and \<open>copy(dst, src)\<close>, which copies as
  many elements as the shorter of the two has.
\<close>

definition make_slice :: "'a \<Rightarrow> nat \<Rightarrow> 'a slice" where
  "make_slice z n = Slice (replicate n z)"

definition copy_slice :: "'a slice \<Rightarrow> 'a slice \<Rightarrow> 'a slice" where
  "copy_slice dst src =
     (case dst of NilSlice \<Rightarrow> NilSlice
      | Slice d \<Rightarrow> Slice (take (length d) (elems src) @ drop (length (elems src)) d))"

definition dup_slice :: "'a \<Rightarrow> 'a slice \<Rightarrow> 'a slice" where
  "dup_slice z s = copy_slice (make_slice z (length (elems s))) s"

lemma dup_slice_Slice [simp]: "dup_slice z (Slice xs) = Slice xs"
  by (simp add: dup_slice_def copy_slice_def make_slice_def)

primrec append_slice :: "'a slice \<Rightarrow> 'a \<Rightarrow> 'a slice" where
  "append_slice NilSlice x = Slice [x]"
| "append_slice (Slice xs) x = Slice (xs @ [x])"

lemma elems_append_slice [simp]: "elems (append_slice s x) = elems s @ [x]"
  by (cases s) simp_all

end
