(* ===== verification/GoStrings.thy ===== *)
theory GoStrings
  imports GoData
begin

text \<open>
  Go strings are byte sequences, and so is Isabelle's \<open>string\<close> (a list of 8-bit characters).
  This theory holds what the program uses of Go's \<open>unicode/utf8\<close>, \<open>unicode\<close> and \<open>strings\<close>:
  decoding a rune (\<open>DecodeRune\<close>, \<open>runes\<close> for a \<open>range\<close> loop over a string), UTF-8 validity, the
  replacement of invalid bytes that \<open>encoding/json\<close> performs (\<open>coerce_utf8\<close>), and
  \<open>strings.Fields\<close>.
\<close>

section \<open>Runes\<close>

definition byte :: "char \<Rightarrow> nat" where
  "byte c = of_char c"

lemma byte_less_256: "byte c < 256"
  unfolding byte_def by (cases c) (simp add: of_char_def horner_sum_bound)

lemma byte_inject [simp]: "byte c = byte d \<longleftrightarrow> c = d"
  by (simp add: byte_def)

definition runeError :: nat where
  "runeError = 65533"

text \<open>The second byte's range for a given lead byte, and the range of the later ones.\<close>

definition second_range :: "nat \<Rightarrow> nat \<times> nat" where
  "second_range b =
     (if b = 224 then (160, 191) else if b = 237 then (128, 159)
      else if b = 240 then (144, 191) else if b = 244 then (128, 143) else (128, 191))"

definition in_range :: "nat \<times> nat \<Rightarrow> char \<Rightarrow> bool" where
  "in_range r c \<longleftrightarrow> fst r \<le> byte c \<and> byte c \<le> snd r"

text \<open>
  \<open>utf8.DecodeRuneInString\<close>: the rune and its width in bytes; an ill-formed sequence is
  \<open>runeError\<close> with width 1, the empty string \<open>runeError\<close> with width 0.
\<close>

definition DecodeRune :: "string \<Rightarrow> nat \<times> nat" where
  "DecodeRune s =
     (case s of [] \<Rightarrow> (runeError, 0)
      | c0 # t0 \<Rightarrow>
        if byte c0 < 128 then (byte c0, 1)
        else if byte c0 < 194 \<or> 244 < byte c0 then (runeError, 1)
        else (case t0 of [] \<Rightarrow> (runeError, 1)
          | c1 # t1 \<Rightarrow>
            if \<not> in_range (second_range (byte c0)) c1 then (runeError, 1)
            else if byte c0 \<le> 223 then (byte c0 mod 32 * 64 + byte c1 mod 64, 2)
            else (case t1 of [] \<Rightarrow> (runeError, 1)
              | c2 # t2 \<Rightarrow>
                if \<not> in_range (128, 191) c2 then (runeError, 1)
                else if byte c0 \<le> 239
                then (byte c0 mod 16 * 4096 + byte c1 mod 64 * 64 + byte c2 mod 64, 3)
                else (case t2 of [] \<Rightarrow> (runeError, 1)
                  | c3 # _ \<Rightarrow>
                    if \<not> in_range (128, 191) c3 then (runeError, 1)
                    else (byte c0 mod 8 * 262144 + byte c1 mod 64 * 4096
                          + byte c2 mod 64 * 64 + byte c3 mod 64, 4)))))"

lemma DecodeRune_width:
  "s \<noteq> [] \<Longrightarrow> 1 \<le> snd (DecodeRune s) \<and> snd (DecodeRune s) \<le> length s"
  by (auto simp: DecodeRune_def split: list.splits)

lemma DecodeRune_ascii: "byte c < 128 \<Longrightarrow> DecodeRune (c # s) = (byte c, 1)"
  by (simp add: DecodeRune_def)

text \<open>The loop \<open>for _, r := range s\<close>: each rune with the bytes it was decoded from.\<close>

function runes :: "string \<Rightarrow> (nat \<times> string) list" where
  "runes [] = []"
| "runes (c # s) =
     (fst (DecodeRune (c # s)), take (snd (DecodeRune (c # s))) (c # s))
       # runes (drop (snd (DecodeRune (c # s))) (c # s))"
  by pat_completeness auto
termination
proof (relation "measure length", goal_cases)
  case (2 c s)
  then show ?case using DecodeRune_width [of "c # s"] by simp
qed simp

declare runes.simps(2) [simp del]

lemma concat_runes: "concat (map snd (runes s)) = s"
  by (induction s rule: runes.induct) (simp_all add: runes.simps(2))

lemma runes_nonempty: "(r, p) \<in> set (runes s) \<Longrightarrow> p \<noteq> []"
proof (induction s rule: runes.induct)
  case 1
  then show ?case by simp
next
  case (2 c s)
  then show ?case using DecodeRune_width [of "c # s"] by (auto simp: runes.simps(2))
qed

definition ascii :: "string \<Rightarrow> bool" where
  "ascii s \<longleftrightarrow> (\<forall>c \<in> set s. byte c < 128)"

lemma ascii_simps [simp]:
  "ascii []"
  "ascii (c # s) \<longleftrightarrow> byte c < 128 \<and> ascii s"
  "ascii (s @ t) \<longleftrightarrow> ascii s \<and> ascii t"
  by (auto simp: ascii_def)

lemma runes_ascii_Cons: "byte c < 128 \<Longrightarrow> runes (c # s) = (byte c, [c]) # runes s"
  by (simp add: runes.simps(2) DecodeRune_ascii)

lemma runes_ascii_append:
  "ascii s \<Longrightarrow> runes (s @ t) = map (\<lambda>c. (byte c, [c])) s @ runes t"
  by (induction s) (simp_all add: runes_ascii_Cons)

lemma runes_ascii: "ascii s \<Longrightarrow> runes s = map (\<lambda>c. (byte c, [c])) s"
  using runes_ascii_append [of s "[]"] by simp

section \<open>UTF-8 validity\<close>

text \<open>A piece of the loop is an ill-formed byte when its rune is \<open>runeError\<close> with width 1.\<close>

definition ill_formed :: "nat \<times> string \<Rightarrow> bool" where
  "ill_formed rp \<longleftrightarrow> fst rp = runeError \<and> length (snd rp) = 1"

definition valid_utf8 :: "string \<Rightarrow> bool" where
  "valid_utf8 s \<longleftrightarrow> (\<forall>rp \<in> set (runes s). \<not> ill_formed rp)"

definition replacement :: string where
  "replacement = [CHR 0xEF, CHR 0xBF, CHR 0xBD]"

definition coerce_utf8 :: "string \<Rightarrow> string" where
  "coerce_utf8 s =
     concat (map (\<lambda>rp. if ill_formed rp then replacement else snd rp) (runes s))"

lemma coerce_utf8_valid [simp]: "valid_utf8 s \<Longrightarrow> coerce_utf8 s = s"
proof -
  assume "valid_utf8 s"
  then have "map (\<lambda>rp. if ill_formed rp then replacement else snd rp) (runes s) = map snd (runes s)"
    by (auto simp: valid_utf8_def)
  then have "coerce_utf8 s = concat (map snd (runes s))" by (simp only: coerce_utf8_def)
  then show ?thesis by (simp only: concat_runes)
qed

lemma ascii_valid_utf8: "ascii s \<Longrightarrow> valid_utf8 s"
  by (auto simp: valid_utf8_def ill_formed_def runes_ascii runeError_def ascii_def)

lemma ascii_coerce: "ascii s \<Longrightarrow> coerce_utf8 s = s"
  by (simp add: ascii_valid_utf8)

section \<open>White space and strings.Fields\<close>

text \<open>\<open>unicode.IsSpace\<close>.\<close>

definition IsSpace :: "nat \<Rightarrow> bool" where
  "IsSpace r \<longleftrightarrow> r \<in> {9, 10, 11, 12, 13, 32, 133, 160, 5760, 8232, 8233, 8239, 8287, 12288}
     \<or> 8192 \<le> r \<and> r \<le> 8202"

text \<open>
  \<open>strings.Fields\<close>: the maximal runs of non-space runes. \<open>acc\<close> holds the bytes of the field
  that is being read; it is empty between fields, since every rune has at least one byte.
\<close>

fun fields_from :: "string \<Rightarrow> (nat \<times> string) list \<Rightarrow> string list" where
  "fields_from acc [] = (if acc = [] then [] else [acc])"
| "fields_from acc (rp # rs) =
     (if IsSpace (fst rp)
      then (if acc = [] then fields_from [] rs else acc # fields_from [] rs)
      else fields_from (acc @ snd rp) rs)"

definition Fields :: "string \<Rightarrow> string list" where
  "Fields s = fields_from [] (runes s)"

text \<open>An ASCII word without white space.\<close>

definition word_ascii :: "string \<Rightarrow> bool" where
  "word_ascii s \<longleftrightarrow> s \<noteq> [] \<and> (\<forall>c \<in> set s. byte c < 128 \<and> \<not> IsSpace (byte c))"

definition blank_ascii :: "string \<Rightarrow> bool" where
  "blank_ascii s \<longleftrightarrow> (\<forall>c \<in> set s. byte c < 128 \<and> IsSpace (byte c))"

lemma word_ascii_ascii: "word_ascii s \<Longrightarrow> ascii s"
  by (auto simp: word_ascii_def ascii_def)

lemma blank_ascii_ascii: "blank_ascii s \<Longrightarrow> ascii s"
  by (auto simp: blank_ascii_def ascii_def)

lemma fields_from_word:
  "\<forall>c \<in> set w. \<not> IsSpace (byte c) \<Longrightarrow>
     fields_from acc (map (\<lambda>c. (byte c, [c])) w @ rs) = fields_from (acc @ w) rs"
  by (induction w arbitrary: acc) simp_all

lemma fields_from_blank:
  "\<forall>c \<in> set w. IsSpace (byte c) \<Longrightarrow>
     fields_from [] (map (\<lambda>c. (byte c, [c])) w @ rs) = fields_from [] rs"
  by (induction w) simp_all

lemma Fields_blank: "blank_ascii b \<Longrightarrow> Fields (b @ s) = Fields s"
  by (simp add: Fields_def runes_ascii_append blank_ascii_ascii fields_from_blank blank_ascii_def)

lemma Fields_word_end: "word_ascii w \<Longrightarrow> Fields w = [w]"
  using fields_from_word [of w "[]" "[]"]
  by (simp add: Fields_def runes_ascii word_ascii_ascii word_ascii_def)

lemma Fields_word_blank:
  assumes "word_ascii w" and "blank_ascii b" and "b \<noteq> []"
  shows "Fields (w @ b @ s) = w # Fields s"
proof -
  obtain c b' where b: "b = c # b'" using assms(3) by (cases b) auto
  from assms(2) b have b': "blank_ascii b'" and c: "byte c < 128" "IsSpace (byte c)"
    by (auto simp: blank_ascii_def)
  have "Fields (w @ b @ s) = fields_from w (runes (c # b' @ s))"
    using assms(1) b
    by (simp add: Fields_def runes_ascii_append word_ascii_ascii fields_from_word word_ascii_def)
  also have "\<dots> = w # Fields (b' @ s)"
    using c assms(1) by (simp add: runes_ascii_Cons Fields_def word_ascii_def)
  also have "\<dots> = w # Fields s" using b' by (simp add: Fields_blank)
  finally show ?thesis .
qed

lemma Fields_nonempty: "f \<in> set (Fields s) \<Longrightarrow> f \<noteq> []"
proof -
  have "f \<in> set (fields_from acc rs) \<Longrightarrow> f \<noteq> []" for acc rs
    by (induction acc rs rule: fields_from.induct) (auto split: if_splits)
  then show "f \<in> set (Fields s) \<Longrightarrow> f \<noteq> []" by (simp add: Fields_def)
qed

section \<open>strings.TrimSpace and strings.Split\<close>

text \<open>
  \<open>strings.TrimSpace\<close> drops the leading and the trailing white space. The code scans the end
  backwards; since the first byte of a rune is never one of its later bytes, both directions see
  the same runes there.
\<close>

definition TrimSpace :: "string \<Rightarrow> string" where
  "TrimSpace s =
     (let space = (\<lambda>rp. IsSpace (fst rp))
      in concat (map snd (rev (dropWhile space (rev (dropWhile space (runes s)))))))"

text \<open>\<open>strings.Split\<close> at a separator of one byte.\<close>

primrec Split :: "string \<Rightarrow> char \<Rightarrow> string list" where
  "Split [] sep = [[]]"
| "Split (c # s) sep =
     (if c = sep then [] # Split s sep
      else (case Split s sep of [] \<Rightarrow> [[c]] | f # fs \<Rightarrow> (c # f) # fs))"

lemma Split_nonempty: "Split s sep \<noteq> []"
  by (induction s) (auto split: list.splits)

lemma Split_no_sep: "f \<in> set (Split s sep) \<Longrightarrow> sep \<notin> set f"
proof (induction s arbitrary: f)
  case (Cons c s)
  then show ?case by (cases "Split s sep") (auto split: if_splits)
qed simp

lemma Split_word: "sep \<notin> set w \<Longrightarrow> Split w sep = [w]"
  by (induction w) auto

lemma Split_append: "sep \<notin> set w \<Longrightarrow> Split (w @ sep # s) sep = w # Split s sep"
  by (induction w) auto

text \<open>On ASCII text, trimming works on characters.\<close>

lemma TrimSpace_ascii:
  assumes "ascii s"
  shows "TrimSpace s = rev (dropWhile (\<lambda>c. IsSpace (byte c)) (rev (dropWhile (\<lambda>c. IsSpace (byte c)) s)))"
proof -
  let ?f = "\<lambda>c. (byte c, [c])"
  have comp: "(\<lambda>rp. IsSpace (fst rp)) \<circ> ?f = (\<lambda>c. IsSpace (byte c))" by (simp add: fun_eq_iff)
  have d: "dropWhile (\<lambda>rp. IsSpace (fst rp)) (map ?f t) = map ?f (dropWhile (\<lambda>c. IsSpace (byte c)) t)" for t
    by (simp add: dropWhile_map comp)
  have c: "concat (map snd (map ?f t)) = t" for t by (induction t) simp_all
  show ?thesis
    by (simp only: TrimSpace_def Let_def runes_ascii [OF assms] d rev_map c)
qed

lemma dropWhile_blank: "blank_ascii b \<Longrightarrow> dropWhile (\<lambda>c. IsSpace (byte c)) (b @ s) = dropWhile (\<lambda>c. IsSpace (byte c)) s"
  by (induction b) (simp_all add: blank_ascii_def)

lemma TrimSpace_word:
  assumes "word_ascii w" and "blank_ascii a" and "blank_ascii b"
  shows "TrimSpace (a @ w @ b) = w"
proof -
  let ?sp = "\<lambda>c. IsSpace (byte c)"
  from assms(1) obtain c w' where w: "w = c # w'" by (cases w) (auto simp: word_ascii_def)
  have "\<forall>c \<in> set w. \<not> ?sp c" using assms(1) by (simp add: word_ascii_def)
  moreover from this have "\<forall>c \<in> set (rev w). \<not> ?sp c" by simp
  moreover have self: "dropWhile ?sp (v @ u) = v @ u" if "v \<noteq> []" "\<forall>c \<in> set v. \<not> ?sp c" for u v
    using that by (cases v) simp_all
  ultimately have "dropWhile ?sp (w @ b) = w @ b" "dropWhile ?sp (rev w) = rev w"
    using w self [of w b] self [of "rev w" "[]"] by simp_all
  moreover have "blank_ascii (rev b)" using assms(3) by (simp add: blank_ascii_def)
  ultimately show ?thesis
    using assms by (simp add: TrimSpace_ascii word_ascii_ascii blank_ascii_ascii dropWhile_blank)
qed

end
