(* ===== verification/JsonEncode.thy ===== *)
theory JsonEncode
  imports Json
begin

text \<open>
  The encoder of \<open>encoding/json\<close> (\<open>json.Marshal\<close>, with its HTML escaping), and the round trip
  through the scanner of \<^theory_text>\<open>Json\<close>: a string comes back as itself if it is valid UTF-8,
  and with its ill-formed bytes replaced otherwise; a value comes back as itself.
\<close>

section \<open>Encoding\<close>

definition hexdigit :: "nat \<Rightarrow> char" where
  "hexdigit n = (if n < 10 then chr (48 + n) else chr (87 + n))"

definition quote_ascii :: "char \<Rightarrow> string" where
  "quote_ascii c =
     (if c = dquote \<or> c = backslash then [backslash, c]
      else if byte c = 8 then [backslash, CHR ''b'']
      else if byte c = 12 then [backslash, CHR ''f'']
      else if byte c = 10 then [backslash, CHR ''n'']
      else if byte c = 13 then [backslash, CHR ''r'']
      else if byte c = 9 then [backslash, CHR ''t'']
      else if byte c < 32 \<or> c = CHR ''<'' \<or> c = CHR ''>'' \<or> c = CHR 0x26
      then [backslash, CHR ''u'', CHR ''0'', CHR ''0'', hexdigit (byte c div 16), hexdigit (byte c mod 16)]
      else [c])"

definition quote_piece :: "nat \<times> string \<Rightarrow> string" where
  "quote_piece rp =
     (if ill_formed rp then backslash # ''ufffd''
      else if fst rp < 128 then concat (map quote_ascii (snd rp))
      else if fst rp = 8232 then backslash # ''u2028''
      else if fst rp = 8233 then backslash # ''u2029''
      else snd rp)"

text \<open>\<open>appendString\<close> without the surrounding quotes.\<close>

definition quote :: "string \<Rightarrow> string" where
  "quote s = concat (map quote_piece (runes s))"

fun commas :: "string list \<Rightarrow> string" where
  "commas [] = []"
| "commas [s] = s"
| "commas (s # t # ss) = s @ '','' @ commas (t # ss)"

fun print_json :: "json \<Rightarrow> string" where
  "print_json JNull = ''null''"
| "print_json (JBool b) = (if b then ''true'' else ''false'')"
| "print_json (JNum s) = s"
| "print_json (JStr s) = dquote # quote s @ [dquote]"
| "print_json (JArr vs) = ''['' @ commas (map print_json vs) @ '']''"
| "print_json (JObj kvs) =
     ''{'' @ commas (map (\<lambda>(k, v). dquote # quote k @ [dquote] @ '':'' @ print_json v) kvs) @ ''}''"

section \<open>Runes: encoding what was decoded\<close>

lemma chr_byte [simp]: "chr (byte c) = c"
  by (simp add: chr_def byte_def)

lemma chr_byteI: "n = byte c \<Longrightarrow> chr n = c"
  by simp

lemma byte_chr: "n < 256 \<Longrightarrow> byte (chr n) = n"
  by (simp add: chr_def byte_def)

text \<open>The four shapes of a decoded rune.\<close>

lemma DecodeRune_cases:
  assumes "s \<noteq> []"
  obtains (one) c t where "s = c # t" "byte c < 128" "DecodeRune s = (byte c, 1)"
  | (bad) "DecodeRune s = (runeError, 1)"
  | (two) c0 c1 t where "s = c0 # c1 # t" "194 \<le> byte c0" "byte c0 \<le> 223"
      "in_range (second_range (byte c0)) c1"
      "DecodeRune s = (byte c0 mod 32 * 64 + byte c1 mod 64, 2)"
  | (three) c0 c1 c2 t where "s = c0 # c1 # c2 # t" "224 \<le> byte c0" "byte c0 \<le> 239"
      "in_range (second_range (byte c0)) c1" "in_range (128, 191) c2"
      "DecodeRune s = (byte c0 mod 16 * 4096 + byte c1 mod 64 * 64 + byte c2 mod 64, 3)"
  | (four) c0 c1 c2 c3 t where "s = c0 # c1 # c2 # c3 # t" "240 \<le> byte c0" "byte c0 \<le> 244"
      "in_range (second_range (byte c0)) c1" "in_range (128, 191) c2" "in_range (128, 191) c3"
      "DecodeRune s = (byte c0 mod 8 * 262144 + byte c1 mod 64 * 4096
                       + byte c2 mod 64 * 64 + byte c3 mod 64, 4)"
proof -
  obtain c0 t0 where s: "s = c0 # t0" using assms by (cases s) auto
  show thesis
  proof (cases "DecodeRune s = (runeError, 1)")
    case False
    then consider "byte c0 < 128"
      | c1 t1 where "194 \<le> byte c0" "byte c0 \<le> 223" "t0 = c1 # t1" "in_range (second_range (byte c0)) c1"
      | c1 c2 t2 where "224 \<le> byte c0" "byte c0 \<le> 239" "t0 = c1 # c2 # t2"
          "in_range (second_range (byte c0)) c1" "in_range (128, 191) c2"
      | c1 c2 c3 t3 where "240 \<le> byte c0" "byte c0 \<le> 244" "t0 = c1 # c2 # c3 # t3"
          "in_range (second_range (byte c0)) c1" "in_range (128, 191) c2" "in_range (128, 191) c3"
      unfolding s DecodeRune_def by (simp split: list.splits if_splits)
    then show thesis
    proof cases
      case 1
      then show thesis using s by (intro one [OF s]) (simp_all add: DecodeRune_def)
    next
      case 2
      then show thesis using s by (intro two) (simp_all add: DecodeRune_def)
    next
      case 3
      then show thesis using s by (intro three) (simp_all add: DecodeRune_def)
    next
      case 4
      then show thesis using s by (intro four) (simp_all add: DecodeRune_def)
    qed
  qed (rule bad)
qed

lemma second_range_cont: "in_range (second_range b) c \<Longrightarrow> in_range (128, 191) c"
  by (auto simp: in_range_def second_range_def split: if_splits)

lemma mod_shift:
  assumes "q * m \<le> b" and "b < (q + 1) * m"
  shows "b mod m = b - q * (m::nat)"
proof -
  from assms have "b = (b - q * m) + q * m" "b - q * m < m" by (simp_all add: algebra_simps)
  then show ?thesis by (metis mod_less mod_mult_self1)
qed

lemma cont_byte:
  assumes "in_range (128, 191) c"
  obtains m where "m < 64" "byte c = 128 + m" "byte c mod 64 = m"
proof (rule that [of "byte c - 128"])
  from assms have "128 \<le> byte c" "byte c \<le> 191" by (simp_all add: in_range_def)
  then show "byte c - 128 < 64" "byte c = 128 + (byte c - 128)" by linarith+
  show "byte c mod 64 = byte c - 128"
    using assms mod_shift [of 2 64 "byte c"] by (simp add: in_range_def)
qed

lemma base64: "b < 64 \<Longrightarrow> (a * 64 + b) div 64 = (a::nat)" "b < 64 \<Longrightarrow> (a * 64 + b) mod 64 = b"
  by simp_all

lemma digits64:
  assumes "m1 < 64" "m2 < (64::nat)"
  shows "(m0 * 4096 + m1 * 64 + m2) div 4096 = m0"
    "(m0 * 4096 + m1 * 64 + m2) div 64 mod 64 = m1"
    "(m0 * 4096 + m1 * 64 + m2) mod 64 = m2"
proof -
  have r: "m0 * 4096 + m1 * 64 + m2 = (m0 * 64 + m1) * 64 + m2" by simp
  have e: "n div 4096 = n div 64 div 64" for n :: nat by (simp add: div_mult2_eq [symmetric])
  show "(m0 * 4096 + m1 * 64 + m2) div 4096 = m0"
    "(m0 * 4096 + m1 * 64 + m2) div 64 mod 64 = m1"
    "(m0 * 4096 + m1 * 64 + m2) mod 64 = m2"
    unfolding r e by (simp_all only: base64 assms)
qed

lemma digits64_four:
  assumes "m1 < 64" "m2 < 64" "m3 < (64::nat)"
  shows "(m0 * 262144 + m1 * 4096 + m2 * 64 + m3) div 262144 = m0"
    "(m0 * 262144 + m1 * 4096 + m2 * 64 + m3) div 4096 mod 64 = m1"
    "(m0 * 262144 + m1 * 4096 + m2 * 64 + m3) div 64 mod 64 = m2"
    "(m0 * 262144 + m1 * 4096 + m2 * 64 + m3) mod 64 = m3"
proof -
  have r: "m0 * 262144 + m1 * 4096 + m2 * 64 + m3 = ((m0 * 64 + m1) * 64 + m2) * 64 + m3" by simp
  have e: "n div 4096 = n div 64 div 64" "n div 262144 = n div 64 div 64 div 64" for n :: nat
    by (simp_all add: div_mult2_eq [symmetric])
  show "(m0 * 262144 + m1 * 4096 + m2 * 64 + m3) div 262144 = m0"
    "(m0 * 262144 + m1 * 4096 + m2 * 64 + m3) div 4096 mod 64 = m1"
    "(m0 * 262144 + m1 * 4096 + m2 * 64 + m3) div 64 mod 64 = m2"
    "(m0 * 262144 + m1 * 4096 + m2 * 64 + m3) mod 64 = m3"
    unfolding r e by (simp_all only: base64 assms)
qed

text \<open>Encoding a well-formed piece's rune gives its bytes back.\<close>

lemma EncodeRune_two:
  assumes "194 \<le> byte c0" "byte c0 \<le> 223" "in_range (128, 191) c1"
  shows "EncodeRune (byte c0 mod 32 * 64 + byte c1 mod 64) = [c0, c1]"
proof -
  obtain m1 where m1: "m1 < 64" "byte c1 = 128 + m1" "byte c1 mod 64 = m1"
    using cont_byte [OF assms(3)] .
  have m0: "byte c0 mod 32 = byte c0 - 192" using assms mod_shift [of 6 32 "byte c0"] by simp
  have ge: "128 \<le> (byte c0 - 192) * 64 + m1" and lt: "(byte c0 - 192) * 64 + m1 < 2048"
    using assms m1(1) by simp_all
  show ?thesis unfolding m0 m1(3) EncodeRune_def
    using ge lt assms m1(1) m1(2) by (simp add: base64 [OF m1(1)] chr_byteI)
qed

lemma EncodeRune_three:
  assumes "224 \<le> byte c0" "byte c0 \<le> 239"
    "in_range (second_range (byte c0)) c1" "in_range (128, 191) c2"
  shows "EncodeRune (byte c0 mod 16 * 4096 + byte c1 mod 64 * 64 + byte c2 mod 64) = [c0, c1, c2]"
proof -
  obtain m1 where m1: "m1 < 64" "byte c1 = 128 + m1" "byte c1 mod 64 = m1"
    using cont_byte [OF second_range_cont [OF assms(3)]] .
  obtain m2 where m2: "m2 < 64" "byte c2 = 128 + m2" "byte c2 mod 64 = m2"
    using cont_byte [OF assms(4)] .
  obtain m0 where m0: "m0 < 16" "byte c0 = 224 + m0" "byte c0 mod 16 = m0"
    using assms(1,2) mod_shift [of 14 16 "byte c0"] by (intro that [of "byte c0 - 224"]) simp_all
  let ?r = "m0 * 4096 + m1 * 64 + m2"
  have lead: "m0 = 0 \<longrightarrow> 32 \<le> m1" "m0 = 13 \<longrightarrow> m1 < 32"
    using assms(3) m0(2) m1(2) by (auto simp: in_range_def second_range_def)
  have ge: "2048 \<le> ?r" using lead(1) by (cases "m0 = 0") auto
  have lt: "?r < 65536" using m0(1) m1(1) m2(1) by linarith
  have sur: "\<not> (55296 \<le> ?r \<and> ?r < 57344)"
  proof -
    consider "m0 \<le> 12" | "m0 = 13" | "14 \<le> m0" by linarith
    then show ?thesis
    proof cases
      case 1
      then show ?thesis using m1(1) m2(1) by linarith
    next
      case 2
      then show ?thesis using lead(2) m2(1) by linarith
    next
      case 3
      then show ?thesis by linarith
    qed
  qed
  show ?thesis unfolding m0(3) m1(3) m2(3) EncodeRune_def
    using ge lt sur m0(2) m1(2) m2(2)
    by (auto simp: digits64 [OF m1(1) m2(1)] chr_byteI)
qed

lemma EncodeRune_four:
  assumes "240 \<le> byte c0" "byte c0 \<le> 244"
    "in_range (second_range (byte c0)) c1" "in_range (128, 191) c2" "in_range (128, 191) c3"
  shows "EncodeRune (byte c0 mod 8 * 262144 + byte c1 mod 64 * 4096
           + byte c2 mod 64 * 64 + byte c3 mod 64) = [c0, c1, c2, c3]"
proof -
  obtain m1 where m1: "m1 < 64" "byte c1 = 128 + m1" "byte c1 mod 64 = m1"
    using cont_byte [OF second_range_cont [OF assms(3)]] .
  obtain m2 where m2: "m2 < 64" "byte c2 = 128 + m2" "byte c2 mod 64 = m2"
    using cont_byte [OF assms(4)] .
  obtain m3 where m3: "m3 < 64" "byte c3 = 128 + m3" "byte c3 mod 64 = m3"
    using cont_byte [OF assms(5)] .
  obtain m0 where m0: "m0 < 5" "byte c0 = 240 + m0" "byte c0 mod 8 = m0"
    using assms(1,2) mod_shift [of 30 8 "byte c0"] by (intro that [of "byte c0 - 240"]) simp_all
  let ?r = "m0 * 262144 + m1 * 4096 + m2 * 64 + m3"
  have lead: "m0 = 0 \<longrightarrow> 16 \<le> m1" "m0 = 4 \<longrightarrow> m1 < 16"
    using assms(3) m0(2) m1(2) by (auto simp: in_range_def second_range_def)
  have ge: "65536 \<le> ?r" using lead(1) by (cases "m0 = 0") auto
  have le: "?r \<le> 1114111"
  proof (cases "m0 = 4")
    case True
    then show ?thesis using lead(2) m2(1) m3(1) by linarith
  next
    case False
    then have "m0 \<le> 3" using m0(1) by linarith
    then show ?thesis using m1(1) m2(1) m3(1) by linarith
  qed
  show ?thesis unfolding m0(3) m1(3) m2(3) m3(3) EncodeRune_def
    using ge le m0(2) m1(2) m2(2) m3(2)
    by (simp add: digits64_four [OF m1(1) m2(1) m3(1)] chr_byteI)
qed

text \<open>The first piece of a string: its rune and bytes.\<close>

abbreviation piece :: "string \<Rightarrow> nat \<times> string" where
  "piece s \<equiv> (fst (DecodeRune s), take (snd (DecodeRune s)) s)"

lemma ill_formed_width1: "ill_formed (r, p) \<longleftrightarrow> r = runeError \<and> length p = 1"
  by (simp add: ill_formed_def)

lemma EncodeRune_ascii: "n < 128 \<Longrightarrow> EncodeRune n = [chr n]"
  by (simp add: EncodeRune_def)

lemma encode_decode:
  assumes "s \<noteq> []" and "\<not> ill_formed (piece s)"
  shows "EncodeRune (fst (DecodeRune s)) = take (snd (DecodeRune s)) s"
  using assms(1)
proof (cases s rule: DecodeRune_cases)
  case (one c t)
  then show ?thesis by (simp add: EncodeRune_ascii)
next
  case bad
  then show ?thesis using assms by (cases s) (simp_all add: ill_formed_def)
next
  case (two c0 c1 t)
  then show ?thesis using EncodeRune_two [OF two(2,3) second_range_cont [OF two(4)]] by simp
next
  case (three c0 c1 c2 t)
  then show ?thesis using EncodeRune_three [OF three(2-5)] by simp
next
  case (four c0 c1 c2 c3 t)
  then show ?thesis using EncodeRune_four [OF four(2-6)] by simp
qed

lemma decode_prefix:
  assumes "s \<noteq> []" and "\<not> ill_formed (piece s)"
  shows "DecodeRune (take (snd (DecodeRune s)) s @ t) = DecodeRune s"
  using assms(1)
proof (cases s rule: DecodeRune_cases)
  case bad
  then show ?thesis using assms by (cases s) (simp_all add: ill_formed_def)
qed (simp_all add: DecodeRune_def)

lemma decode_high:
  assumes "s \<noteq> []" and "128 \<le> byte (hd s)" and "\<not> ill_formed (piece s)"
  shows "128 \<le> fst (DecodeRune s)" and "\<forall>c \<in> set (take (snd (DecodeRune s)) s). 128 \<le> byte c"
proof -
  have cont: "in_range (128, 191) c \<Longrightarrow> 128 \<le> byte c" for c by (simp add: in_range_def)
  show all: "\<forall>c \<in> set (take (snd (DecodeRune s)) s). 128 \<le> byte c"
    using assms(1)
  proof (cases s rule: DecodeRune_cases)
    case bad
    then show ?thesis using assms by (cases s) (simp_all add: ill_formed_def)
  qed (use assms(2) cont second_range_cont in auto)
  show "128 \<le> fst (DecodeRune s)"
  proof (rule ccontr)
    assume "\<not> ?thesis"
    then have lt: "fst (DecodeRune s) < 128" by simp
    with encode_decode [OF assms(1,3)]
    have eq: "take (snd (DecodeRune s)) s = [chr (fst (DecodeRune s))]" by (simp add: EncodeRune_ascii)
    from all have "128 \<le> byte (chr (fst (DecodeRune s)))" unfolding eq by simp
    with lt show False by (simp add: byte_chr)
  qed
qed

section \<open>Quoting and unquoting a string\<close>

lemma byte_consts [simp]:
  "byte dquote = 34" "byte backslash = 92" "byte CHR 0x08 = 8" "byte CHR 0x0C = 12"
  "byte CHR 0x0A = 10" "byte CHR 0x0D = 13" "byte CHR 0x09 = 9"
  by (simp_all add: byte_def dquote_def backslash_def)

lemma isHex_hexdigit: "n < 16 \<Longrightarrow> isHex (hexdigit n)"
  by (simp add: isHex_def isDigit_def hexdigit_def byte_chr)

lemma hexval_hexdigit: "n < 16 \<Longrightarrow> hexval (hexdigit n) = n"
  by (simp add: hexval_def hexdigit_def byte_chr)

lemma isHex_consts [simp]:
  "isHex CHR ''0''" "isHex CHR ''2''" "isHex CHR ''8''" "isHex CHR ''9''" "isHex CHR ''d''" "isHex CHR ''f''"
  by (simp_all add: isHex_def isDigit_def byte_def)

lemma step_str_plain:
  "32 \<le> byte c \<Longrightarrow> c \<noteq> dquote \<Longrightarrow> c \<noteq> backslash \<Longrightarrow>
     step c (MStr raw, st) = Some (MStr (raw @ [c]), st)"
  by (simp add: step_def)

lemma run_str_plain:
  "\<forall>c \<in> set p. 32 \<le> byte c \<and> c \<noteq> dquote \<and> c \<noteq> backslash \<Longrightarrow>
     run (p @ t) (MStr raw, st) = run t (MStr (raw @ p), st)"
  by (induction p arbitrary: raw) (simp_all add: step_str_plain)

lemma run_str_escape:
  "e \<in> {CHR ''b'', CHR ''f'', CHR ''n'', CHR ''r'', CHR ''t'', backslash, CHR ''/'', dquote} \<Longrightarrow>
     run (backslash # e # t) (MStr raw, st) = run t (MStr (raw @ [backslash, e]), st)"
  by (simp add: step_def dquote_def backslash_def)

lemma run_str_hex:
  "\<lbrakk>isHex a; isHex b; isHex c; isHex d\<rbrakk> \<Longrightarrow>
     run (backslash # CHR ''u'' # a # b # c # d # t) (MStr raw, st)
       = run t (MStr (raw @ [backslash, CHR ''u'', a, b, c, d]), st)"
  by (simp add: step_def dquote_def backslash_def)

lemma run_quote_ascii:
  assumes "byte c < 128"
  shows "run (quote_ascii c @ t) (MStr raw, st) = run t (MStr (raw @ quote_ascii c), st)"
proof -
  have h: "isHex (hexdigit (byte c div 16))" "isHex (hexdigit (byte c mod 16))"
    using assms by (simp_all add: isHex_hexdigit less_mult_imp_div_less)
  have "run (backslash # CHR ''u'' # CHR ''0'' # CHR ''0'' # hexdigit (byte c div 16)
               # hexdigit (byte c mod 16) # t) (MStr raw, st)
          = run t (MStr (raw @ [backslash, CHR ''u'', CHR ''0'', CHR ''0'',
                     hexdigit (byte c div 16), hexdigit (byte c mod 16)]), st)"
    by (rule run_str_hex) (simp_all add: h)
  moreover have "run (c # t) (MStr raw, st) = run t (MStr (raw @ [c]), st)"
    if "32 \<le> byte c" "c \<noteq> dquote" "c \<noteq> backslash"
    using run_str_plain [of "[c]"] that by simp
  ultimately show ?thesis
    by (auto simp: quote_ascii_def run_str_escape simp del: run.simps)
qed

lemma unquote_plain:
  "byte c < 128 \<Longrightarrow> c \<noteq> backslash \<Longrightarrow> unquote (c # t) = c # unquote t"
  by (simp add: unquote.simps(2) DecodeRune_ascii ill_formed_def runeError_def)

lemma unquote_escape: "unquote (backslash # s) = fst (unescape s) @ unquote (snd (unescape s))"
  by (simp add: unquote.simps(2))

lemma unquote_hex:
  "\<not> (55296 \<le> hexnum [a, b, c, d] \<and> hexnum [a, b, c, d] < 57344) \<Longrightarrow>
     unquote (backslash # CHR ''u'' # a # b # c # d # t) = EncodeRune (hexnum [a, b, c, d]) @ unquote t"
  by (auto simp: unquote_escape unescape_def Let_def)

lemma hexnum_00:
  "n < 256 \<Longrightarrow> hexnum [CHR ''0'', CHR ''0'', hexdigit (n div 16), hexdigit (n mod 16)] = n"
proof -
  assume "n < 256"
  then have "hexval (hexdigit (n div 16)) = n div 16" "hexval (hexdigit (n mod 16)) = n mod 16"
    by (simp_all add: hexval_hexdigit less_mult_imp_div_less)
  moreover have "hexval CHR ''0'' = 0" by (simp add: hexval_def byte_def)
  ultimately show ?thesis by (simp add: hexnum_def)
qed

lemma byte_ctrl:
  "byte c = 8 \<longleftrightarrow> c = CHR 0x08" "byte c = 12 \<longleftrightarrow> c = CHR 0x0C" "byte c = 10 \<longleftrightarrow> c = CHR 0x0A"
  "byte c = 13 \<longleftrightarrow> c = CHR 0x0D" "byte c = 9 \<longleftrightarrow> c = CHR 0x09"
  by (metis byte_inject byte_consts(3), metis byte_inject byte_consts(4),
      metis byte_inject byte_consts(5), metis byte_inject byte_consts(6),
      metis byte_inject byte_consts(7))

lemma unquote_wide:
  assumes "p \<noteq> []" "hd p \<noteq> backslash" "DecodeRune (p @ t) = (r, length p)" "\<not> ill_formed (r, p)"
  shows "unquote (p @ t) = p @ unquote t"
  using assms by (cases p) (simp_all add: unquote.simps(2))

lemma quote_ascii_escapes:
  "quote_ascii dquote = [backslash, dquote]" "quote_ascii backslash = [backslash, backslash]"
  "quote_ascii CHR 0x08 = [backslash, CHR ''b'']" "quote_ascii CHR 0x0C = [backslash, CHR ''f'']"
  "quote_ascii CHR 0x0A = [backslash, CHR ''n'']" "quote_ascii CHR 0x0D = [backslash, CHR ''r'']"
  "quote_ascii CHR 0x09 = [backslash, CHR ''t'']"
  by (simp add: quote_ascii_def, simp add: quote_ascii_def)
    (simp_all add: quote_ascii_def dquote_def backslash_def)

lemma unescape_escapes:
  "unescape (dquote # t) = ([dquote], t)" "unescape (backslash # t) = ([backslash], t)"
  "unescape (CHR ''b'' # t) = ([CHR 0x08], t)" "unescape (CHR ''f'' # t) = ([CHR 0x0C], t)"
  "unescape (CHR ''n'' # t) = ([CHR 0x0A], t)" "unescape (CHR ''r'' # t) = ([CHR 0x0D], t)"
  "unescape (CHR ''t'' # t) = ([CHR 0x09], t)"
  by (simp_all add: unescape_def dquote_def backslash_def)

lemma unquote_quote_ascii:
  assumes "byte c < 128"
  shows "unquote (quote_ascii c @ t) = c # unquote t"
proof -
  have u: "unquote (backslash # CHR ''u'' # CHR ''0'' # CHR ''0'' # hexdigit (byte c div 16)
             # hexdigit (byte c mod 16) # t) = c # unquote t"
    using assms by (subst unquote_hex) (simp_all add: hexnum_00 EncodeRune_ascii)
  show ?thesis
  proof (cases "c \<in> {dquote, backslash, CHR 0x08, CHR 0x0C, CHR 0x0A, CHR 0x0D, CHR 0x09}")
    case True
    then show ?thesis
      by (auto simp: quote_ascii_escapes unquote_escape unescape_escapes)
  next
    case plain: False
    show ?thesis
    proof (cases "byte c < 32 \<or> c = CHR ''<'' \<or> c = CHR ''>'' \<or> c = CHR 0x26")
      case True
      with plain have "quote_ascii c = [backslash, CHR ''u'', CHR ''0'', CHR ''0'',
          hexdigit (byte c div 16), hexdigit (byte c mod 16)]"
        by (simp only: quote_ascii_def byte_ctrl) auto
      with u show ?thesis by simp
    next
      case False
      with plain have "quote_ascii c = [c]" by (simp only: quote_ascii_def byte_ctrl) auto
      with plain assms show ?thesis by (simp add: unquote_plain)
    qed
  qed
qed

text \<open>One piece: the scanner stays inside the literal, and unquoting gives the bytes back.\<close>

lemma quote_piece_cases:
  assumes "s \<noteq> []"
  obtains (ascii) c where "byte c < 128" "piece s = (byte c, [c])" "quote_piece (piece s) = quote_ascii c"
  | (bad) "ill_formed (piece s)" "quote_piece (piece s) = backslash # ''ufffd''"
  | (separator) d where "d \<in> {CHR ''8'', CHR ''9''}" "\<not> ill_formed (piece s)"
      "fst (piece s) = 8192 + hexnum [CHR ''2'', d]" "quote_piece (piece s) = backslash # ''u202'' @ [d]"
  | (plain) "\<not> ill_formed (piece s)" "128 \<le> byte (hd s)" "quote_piece (piece s) = snd (piece s)"
proof (cases "ill_formed (piece s)")
  case True
  then show thesis by (intro bad) (simp_all add: quote_piece_def)
next
  case False
  show thesis
  proof (cases "byte (hd s) < 128")
    case True
    with assms have p: "piece s = (byte (hd s), [hd s])" by (cases s) (simp_all add: DecodeRune_ascii)
    with True show thesis using False by (intro ascii) (simp_all add: quote_piece_def)
  next
    case high: False
    then have ge: "128 \<le> fst (DecodeRune s)" using decode_high(1) [OF assms _ False] by simp
    have "hexnum [CHR ''2'', CHR ''8''] = 40" "hexnum [CHR ''2'', CHR ''9''] = 41"
      by (simp_all add: hexnum_def hexval_def byte_def)
    then show thesis
      using high ge False separator [of "CHR ''8''"] separator [of "CHR ''9''"] plain
      by (cases "fst (DecodeRune s) = 8232"; cases "fst (DecodeRune s) = 8233")
        (auto simp: quote_piece_def)
  qed
qed

lemma run_quote_piece:
  assumes "s \<noteq> []"
  shows "run (quote_piece (piece s) @ t) (MStr raw, st) = run t (MStr (raw @ quote_piece (piece s)), st)"
  using assms
proof (cases s rule: quote_piece_cases)
  case (ascii c)
  then show ?thesis by (simp add: run_quote_ascii)
next
  case bad
  then show ?thesis by (simp add: run_str_hex del: run.simps)
next
  case (separator d)
  then show ?thesis by (auto simp: run_str_hex simp del: run.simps)
next
  case plain
  have "\<forall>c \<in> set (snd (piece s)). 32 \<le> byte c \<and> c \<noteq> dquote \<and> c \<noteq> backslash"
  proof
    fix c assume "c \<in> set (snd (piece s))"
    with decode_high(2) [OF assms plain(2,1)] have "128 \<le> byte c" by simp
    then show "32 \<le> byte c \<and> c \<noteq> dquote \<and> c \<noteq> backslash" by auto
  qed
  with plain(3) show ?thesis by (simp only: run_str_plain)
qed

lemma unquote_quote_piece:
  assumes "s \<noteq> []"
  shows "unquote (quote_piece (piece s) @ t)
           = (if ill_formed (piece s) then replacement else snd (piece s)) @ unquote t"
  using assms
proof (cases s rule: quote_piece_cases)
  case (ascii c)
  then show ?thesis by (simp add: unquote_quote_ascii ill_formed_def runeError_def)
next
  case bad
  have h: "hexnum ''fffd'' = 65533" by (simp add: hexnum_def hexval_def byte_def)
  have "EncodeRune 65533 = replacement"
    by (simp add: EncodeRune_def replacement_def chr_byteI byte_def)
  with bad h show ?thesis by (simp add: unquote_hex)
next
  case (separator d)
  have "hexnum [CHR ''2'', CHR ''0'', CHR ''2'', d] = fst (piece s)"
    using separator(1,3) by (auto simp: hexnum_def hexval_def byte_def)
  then have "unquote (quote_piece (piece s) @ t) = EncodeRune (fst (piece s)) @ unquote t"
    using separator(1,3,4) by (auto simp: unquote_hex hexnum_def hexval_def byte_def)
  with separator(2) encode_decode [OF assms] show ?thesis by simp
next
  case plain
  let ?p = "take (snd (DecodeRune s)) s"
  have w: "1 \<le> snd (DecodeRune s)" "snd (DecodeRune s) \<le> length s" using DecodeRune_width [OF assms] by auto
  have "hd ?p = hd s" using w(1) by (cases s; cases "snd (DecodeRune s)") auto
  then have nb: "hd ?p \<noteq> backslash" using plain(2) by auto
  have "DecodeRune (?p @ t) = (fst (DecodeRune s), length ?p)"
    using decode_prefix [OF assms plain(1)] w by simp
  from unquote_wide [OF _ nb this plain(1)] plain(1,3) w assms show ?thesis by simp
qed

lemma quote_Nil [simp]: "quote [] = []"
  by (simp add: quote_def)

lemma quote_piece_Cons:
  "quote (c # s) = quote_piece (piece (c # s)) @ quote (drop (snd (DecodeRune (c # s))) (c # s))"
  by (simp add: quote_def runes.simps(2))

lemma coerce_Nil [simp]: "coerce_utf8 [] = []"
  by (simp add: coerce_utf8_def)

lemma coerce_piece_Cons:
  "coerce_utf8 (c # s) =
     (if ill_formed (piece (c # s)) then replacement else snd (piece (c # s)))
       @ coerce_utf8 (drop (snd (DecodeRune (c # s))) (c # s))"
  by (simp add: coerce_utf8_def runes.simps(2))

lemma run_quote: "run (quote s @ t) (MStr raw, st) = run t (MStr (raw @ quote s), st)"
proof (induction s arbitrary: raw rule: runes.induct)
  case 1
  show ?case by simp
next
  case (2 c s)
  then show ?case by (simp add: quote_piece_Cons run_quote_piece del: run.simps)
qed

lemma unquote_quote_append: "unquote (quote s @ t) = coerce_utf8 s @ unquote t"
proof (induction s rule: runes.induct)
  case 1
  show ?case by simp
next
  case (2 c s)
  then show ?case unfolding quote_piece_Cons coerce_piece_Cons append_assoc
    by (subst unquote_quote_piece) simp_all
qed

lemma unquote_quote: "unquote (quote s) = coerce_utf8 s"
  using unquote_quote_append [of s "[]"] by simp

section \<open>Encoding and decoding a value\<close>

definition nstart :: "char \<Rightarrow> nmode option" where
  "nstart c = (if c = CHR ''-'' then Some NNeg else if c = CHR ''0'' then Some N0
               else if isDigit c then Some N1 else None)"

fun nrun :: "string \<Rightarrow> nmode \<Rightarrow> nmode option" where
  "nrun [] n = Some n"
| "nrun (c # s) n = (case nstep c n of None \<Rightarrow> None | Some n' \<Rightarrow> nrun s n')"

text \<open>JSON number literals.\<close>

definition num_lit :: "string \<Rightarrow> bool" where
  "num_lit s =
     (case s of [] \<Rightarrow> False
      | c # t \<Rightarrow> (case nstart c of None \<Rightarrow> False
          | Some n \<Rightarrow> (case nrun t n of None \<Rightarrow> False | Some n' \<Rightarrow> nfinal n')))"

text \<open>Values within \<open>d\<close> levels of nesting, with valid strings and number literals.\<close>

fun json_ok :: "nat \<Rightarrow> json \<Rightarrow> bool" where
  "json_ok d JNull = True"
| "json_ok d (JBool b) = True"
| "json_ok d (JNum s) = num_lit s"
| "json_ok d (JStr s) = valid_utf8 s"
| "json_ok 0 (JArr vs) = False"
| "json_ok (Suc d) (JArr vs) = (\<forall>v \<in> set vs. json_ok d v)"
| "json_ok 0 (JObj kvs) = False"
| "json_ok (Suc d) (JObj kvs) = (\<forall>kv \<in> set kvs. valid_utf8 (fst kv) \<and> json_ok d (snd kv))"

definition delim :: "char \<Rightarrow> bool" where
  "delim c \<longleftrightarrow> c \<in> {CHR '','', CHR '']'', CHR ''}'', CHR '' ''}"

definition value_frame :: "frame list \<Rightarrow> bool" where
  "value_frame st = (case st of FKey _ # _ \<Rightarrow> False | _ \<Rightarrow> True)"

lemma value_frame_simps [simp]:
  "value_frame []" "value_frame (FArr vs # st)" "value_frame (FVal kvs k # st)"
  by (simp_all add: value_frame_def)

lemma complete_cases: "fst (complete v st) = MAfter \<or> (\<exists>w. fst (complete v st) = MTop w)"
  by (cases "(v, st)" rule: complete.cases) auto

lemma step_complete: "step c (complete v st) = after c (complete v st)"
  using complete_cases [of v st] by (auto simp: step_def)

lemma isDigit_consts [simp]:
  "isDigit CHR ''0''" "\<not> isDigit CHR '',''" "\<not> isDigit CHR '']''" "\<not> isDigit CHR ''}''"
  "\<not> isDigit CHR '' ''" "\<not> isDigit CHR ''-''" "\<not> isDigit CHR ''[''" "\<not> isDigit CHR ''{''"
  "\<not> isDigit CHR ''t''" "\<not> isDigit CHR ''f''" "\<not> isDigit CHR ''n''" "\<not> isDigit dquote"
  by (simp_all add: isDigit_def byte_def dquote_def)

lemma delim_not_number: "delim c \<Longrightarrow> \<not> isDigit c \<and> \<not> nexp c \<and> c \<noteq> CHR ''.''"
  by (auto simp: delim_def nexp_def)

lemma nstep_delim: "delim c \<Longrightarrow> nfinal n \<Longrightarrow> nstep c n = None"
  using delim_not_number [of c] by (cases n) (simp_all add: nfinal_def nstep_def)

lemma run_num:
  "nrun s n = Some n' \<Longrightarrow> nfinal n' \<Longrightarrow> delim c \<Longrightarrow>
     run (s @ c # t) (MNum n raw, st) = run (c # t) (complete (JNum (raw @ s)) st)"
proof (induction s arbitrary: n raw)
  case Nil
  then have "step c (MNum n raw, st) = after c (complete (JNum raw) st)"
    by (simp add: step_def nstep_delim)
  then show ?case by (simp add: step_complete)
next
  case (Cons d s)
  then obtain m where m: "nstep d n = Some m" "nrun s m = Some n'" by (auto split: option.splits)
  then have "step d (MNum n raw, st) = Some (MNum m (raw @ [d]), st)" by (simp add: step_def)
  with Cons.IH [OF m(2) Cons.prems(2,3), of "raw @ [d]"] show ?case by simp
qed

lemma close_string_value: "value_frame st \<Longrightarrow> close_string raw st = complete (JStr (unquote raw)) st"
  by (auto simp: close_string_def value_frame_def split: list.splits frame.splits)

lemma run_string_value:
  assumes "value_frame st" and "valid_utf8 s"
  shows "run (dquote # quote s @ dquote # t) (MBegin, st) = run t (complete (JStr s) st)"
proof -
  have "step dquote (MBegin, st) = Some (MStr [], st)"
    by (simp add: step_def begin_value_def isSpace_def dquote_def)
  then have "run (dquote # quote s @ dquote # t) (MBegin, st) = run (dquote # t) (MStr (quote s), st)"
    using run_quote [of s "dquote # t" "[]" st] by simp
  also have "\<dots> = run t (complete (JStr s) st)"
    using assms by (simp add: step_def close_string_value unquote_quote)
  finally show ?thesis .
qed

lemma run_key:
  assumes "valid_utf8 k" and "m \<in> {MKey, MKeyOrEmpty}"
  shows "run (dquote # quote k @ dquote # CHR '':'' # t) (m, FKey kvs # st)
           = run t (MBegin, FVal kvs k # st)"
proof -
  have "step dquote (m, FKey kvs # st) = Some (MStr [], FKey kvs # st)"
    using assms(2) by (auto simp: step_def isSpace_def dquote_def)
  moreover have "step CHR '':'' (MColon, FVal kvs k # st) = Some (MBegin, FVal kvs k # st)"
    by (simp add: step_def isSpace_def)
  moreover have "step dquote (MStr (quote k), FKey kvs # st) = Some (MColon, FVal kvs k # st)"
    using assms(1) by (simp add: step_def close_string_def unquote_quote)
  ultimately show ?thesis by (simp add: run_quote)
qed

lemma step_after: "step c (MAfter, st) = after c (MAfter, st)"
  by (simp add: step_def)

lemma after_simps [simp]:
  "after CHR '','' (MAfter, FArr vs # st) = Some (MBegin, FArr vs # st)"
  "after CHR '']'' (MAfter, FArr vs # st) = Some (complete (JArr vs) st)"
  "after CHR '','' (MAfter, FKey kvs # st) = Some (MKey, FKey kvs # st)"
  "after CHR ''}'' (MAfter, FKey kvs # st) = Some (complete (JObj kvs) st)"
  by (simp_all add: after_def isSpace_def)

lemma run_elems:
  assumes "\<And>v st c t. \<lbrakk>v \<in> set vs; value_frame st; length st + d \<le> maxNestingDepth; delim c\<rbrakk> \<Longrightarrow>
             run (print_json v @ c # t) (MBegin, st) = run (c # t) (complete v st)"
    and "vs \<noteq> []" and "length st + Suc d \<le> maxNestingDepth"
  shows "run (commas (map print_json vs) @ CHR '']'' # t) (MBegin, FArr acc # st)
           = run t (complete (JArr (acc @ vs)) st)"
  using assms(1,2)
proof (induction vs arbitrary: acc rule: induct_list012)
  case 1
  then show ?case by simp
next
  case (2 v)
  then show ?case using assms(3) by (simp add: delim_def step_after)
next
  case (3 v w ws)
  have "run (print_json v @ CHR '','' # commas (map print_json (w # ws)) @ CHR '']'' # t)
          (MBegin, FArr acc # st)
        = run (commas (map print_json (w # ws)) @ CHR '']'' # t) (MBegin, FArr (acc @ [v]) # st)"
    using 3(3) assms(3) by (simp add: delim_def step_after)
  also have "\<dots> = run t (complete (JArr ((acc @ [v]) @ w # ws)) st)"
    by (rule 3(2)) (use 3(3) in auto)
  finally show ?case by simp
qed

lemma run_members:
  assumes "\<And>kv st c t. \<lbrakk>kv \<in> set kvs; value_frame st; length st + d \<le> maxNestingDepth; delim c\<rbrakk> \<Longrightarrow>
             run (print_json (snd kv) @ c # t) (MBegin, st) = run (c # t) (complete (snd kv) st)"
    and "kvs \<noteq> []" and "length st + Suc d \<le> maxNestingDepth" and "\<forall>kv \<in> set kvs. valid_utf8 (fst kv)"
    and "m \<in> {MKey, MKeyOrEmpty}"
  shows "run (commas (map (\<lambda>(k, v). dquote # quote k @ [dquote] @ '':'' @ print_json v) kvs) @ CHR ''}'' # t)
           (m, FKey acc # st) = run t (complete (JObj (acc @ kvs)) st)"
  using assms(1,2,4,5)
proof (induction kvs arbitrary: acc m rule: induct_list012)
  case 1
  then show ?case by simp
next
  case (2 kv)
  then show ?case using assms(3) 2(1) [of kv "FVal acc (fst kv) # st" "CHR ''}''" t]
    by (simp add: split_beta run_key delim_def step_after del: run.simps(2)) (simp add: step_after)
next
  case (3 kv kw kws)
  let ?p = "\<lambda>(k, v). dquote # quote k @ [dquote] @ '':'' @ print_json v"
  let ?rest = "commas (map ?p (kw # kws)) @ CHR ''}'' # t"
  have "run (?p kv @ CHR '','' # ?rest) (m, FKey acc # st)
        = run (CHR '','' # ?rest) (MAfter, FKey (acc @ [kv]) # st)"
    using 3(3) [of kv "FVal acc (fst kv) # st" "CHR '',''"] 3(5,6) assms(3)
    by (simp add: split_beta run_key delim_def del: run.simps(2))
  also have "\<dots> = run ?rest (MKey, FKey (acc @ [kv]) # st)" by (simp add: step_after)
  also have "\<dots> = run t (complete (JObj ((acc @ [kv]) @ kw # kws)) st)"
    by (rule 3(2)) (use 3(3,5) in auto)
  finally show ?case by simp
qed

lemma num_head: "num_lit s \<Longrightarrow> \<exists>c t. s = c # t \<and> (c = CHR ''-'' \<or> isDigit c)"
  by (auto simp: num_lit_def nstart_def split: list.splits option.splits if_splits)

lemma digit_not_space: "isDigit c \<Longrightarrow> \<not> isSpace c \<and> c \<noteq> CHR '']''"
  by (auto simp: isSpace_def isDigit_def byte_def)

lemma print_head:
  assumes "json_ok d v"
  shows "\<exists>c t. print_json v = c # t \<and> \<not> isSpace c \<and> c \<noteq> CHR '']''"
  using assms
proof (cases v)
  case (JNum s)
  then show ?thesis using assms num_head [of s] digit_not_space by (auto simp: isSpace_def)
qed (auto simp: isSpace_def dquote_def)

lemma step_open:
  "length st < maxNestingDepth \<Longrightarrow> step CHR ''['' (MBegin, st) = Some (MBeginOrEmpty, FArr [] # st)"
  "length st < maxNestingDepth \<Longrightarrow> step CHR ''{'' (MBegin, st) = Some (MKeyOrEmpty, FKey [] # st)"
  by (simp_all add: step_def begin_value_def isSpace_def push_def)

lemma step_empty:
  "step CHR '']'' (MBeginOrEmpty, FArr [] # st) = Some (complete (JArr []) st)"
  "step CHR ''}'' (MKeyOrEmpty, FKey [] # st) = Some (complete (JObj []) st)"
  by (simp_all add: step_def isSpace_def)

lemma step_first: "\<not> isSpace c \<Longrightarrow> c \<noteq> CHR '']'' \<Longrightarrow> step c (MBeginOrEmpty, st) = step c (MBegin, st)"
  by (simp add: step_def)

lemma step_num:
  assumes "nstart e = Some n"
  shows "step e (MBegin, st) = Some (MNum n [e], st)"
proof -
  consider "e = CHR ''-''" "n = NNeg" | "e = CHR ''0''" "n = N0"
    | "isDigit e" "e \<noteq> CHR ''0''" "e \<noteq> CHR ''-''" "n = N1"
    using assms by (auto simp: nstart_def split: if_splits)
  then show ?thesis
  proof cases
    case 3
    have "e \<noteq> x" if "\<not> isDigit x" for x using 3(1) that by auto
    then have "e \<noteq> CHR ''{''" "e \<noteq> CHR ''[''" "e \<noteq> dquote" "e \<noteq> CHR ''t''" "e \<noteq> CHR ''f''" "e \<noteq> CHR ''n''"
      by simp_all
    then show ?thesis using 3 digit_not_space [of e] by (simp add: step_def begin_value_def)
  qed (simp_all add: step_def begin_value_def isSpace_def dquote_def)
qed

lemma commas_head: "commas (s # ss) = s @ (if ss = [] then [] else '','' @ commas ss)"
  by (cases ss) simp_all

lemma run_literal:
  "run (''null'' @ u) (MBegin, st) = run u (complete JNull st)"
  "run (''true'' @ u) (MBegin, st) = run u (complete (JBool True) st)"
  "run (''false'' @ u) (MBegin, st) = run u (complete (JBool False) st)"
  by (simp_all add: step_def begin_value_def isSpace_def dquote_def)

lemma run_array:
  assumes "\<And>v st c t. \<lbrakk>v \<in> set vs; value_frame st; length st + d \<le> maxNestingDepth; delim c\<rbrakk> \<Longrightarrow>
             run (print_json v @ c # t) (MBegin, st) = run (c # t) (complete v st)"
    and "\<forall>v \<in> set vs. json_ok d v" and "vs \<noteq> []" and "length st + Suc d \<le> maxNestingDepth"
  shows "run (commas (map print_json vs) @ CHR '']'' # t) (MBeginOrEmpty, FArr [] # st)
           = run t (complete (JArr vs) st)"
proof -
  obtain w ws where vs: "vs = w # ws" using assms(3) by (cases vs) auto
  obtain e u where e: "print_json w = e # u" "\<not> isSpace e" "e \<noteq> CHR '']''"
    using print_head [of d w] assms(2) vs by auto
  let ?X = "commas (map print_json vs) @ CHR '']'' # t"
  obtain Y where X: "?X = e # Y" using vs e(1) by (simp add: commas_head)
  have "run ?X (MBeginOrEmpty, FArr [] # st) = run ?X (MBegin, FArr [] # st)"
    unfolding X using e by (simp add: step_first)
  also have "\<dots> = run t (complete (JArr ([] @ vs)) st)"
    by (rule run_elems [OF assms(1,3,4)])
  finally show ?thesis by simp
qed

lemma run_print:
  "\<lbrakk>json_ok d v; value_frame st; length st + d \<le> maxNestingDepth; delim c\<rbrakk> \<Longrightarrow>
     run (print_json v @ c # t) (MBegin, st) = run (c # t) (complete v st)"
proof (induction d v arbitrary: st c t rule: json_ok.induct)
  case (3 d s)
  then obtain e u n n' where s: "s = e # u" "nstart e = Some n" "nrun u n = Some n'" "nfinal n'"
    by (auto simp: num_lit_def split: list.splits option.splits)
  have "step e (MBegin, st) = Some (MNum n [e], st)"
    using s(2) by (rule step_num)
  then show ?case using run_num [OF s(3,4) 3(4), of t "[e]" st] s(1) by simp
next
  case (4 d s)
  then show ?case by (simp add: run_string_value del: run.simps(2))
next
  case (6 d vs)
  then have o: "step CHR ''['' (MBegin, st) = Some (MBeginOrEmpty, FArr [] # st)"
    by (simp add: step_open)
  show ?case
  proof (cases "vs = []")
    case True
    with o show ?thesis by (simp add: step_empty)
  next
    case False
    have "run (commas (map print_json vs) @ CHR '']'' # c # t) (MBeginOrEmpty, FArr [] # st)
        = run (c # t) (complete (JArr vs) st)"
      by (rule run_array [where d = d]) (use 6 False in auto)
    with o show ?thesis by simp
  qed
next
  case (8 d kvs)
  then have o: "step CHR ''{'' (MBegin, st) = Some (MKeyOrEmpty, FKey [] # st)"
    by (simp add: step_open)
  show ?case
  proof (cases "kvs = []")
    case True
    with o show ?thesis by (simp add: step_empty)
  next
    case False
    have "run (commas (map (\<lambda>(k, v). dquote # quote k @ [dquote] @ '':'' @ print_json v) kvs)
             @ CHR ''}'' # c # t) (MKeyOrEmpty, FKey [] # st)
          = run (c # t) (complete (JObj ([] @ kvs)) st)"
      by (rule run_members [where d = d]) (use 8 False in auto)
    then show ?thesis using o by simp
  qed
next
  case (1 d)
  then show ?case using run_literal(1) [of "c # t" st] by simp
next
  case (2 d b)
  then show ?case using run_literal(2,3) [of "c # t" st] by (cases b) simp_all
qed simp_all

theorem parse_print:
  assumes "json_ok d v" and "d \<le> maxNestingDepth"
  shows "parse_json (print_json v) = Some v"
proof -
  have "run (print_json v @ '' '') (MBegin, []) = run '' '' (complete v [])"
    using run_print [OF assms(1), of "[]" "CHR '' ''" "[]"] assms(2) by (simp add: delim_def)
  then show ?thesis by (simp add: parse_json_def step_def after_def isSpace_def)
qed

end
