(* ===== verification/ApiTypes.thy ===== *)
theory ApiTypes
  imports GoData JsonEncode "HOL-Library.List_Lexorder" "HOL-Library.Char_ord"
begin

text \<open>
  The custom resources of \<open>api/v1alpha1\<close>: users and models, the generated deep-copy functions,
  and the JSON documents their specs are marshalled to (the struct tags), which is what the
  policy engine evaluates. The metadata types of Kubernetes (\<open>TypeMeta\<close>, \<open>ObjectMeta\<close>,
  \<open>ListMeta\<close>) are type parameters, with their deep-copy function as an argument.
\<close>

section \<open>The types\<close>

definition ModelTypeBase :: string where
  "ModelTypeBase = ''BaseModel''"

definition ModelTypeLora :: string where
  "ModelTypeLora = ''LoRA''"

record UserSpec =
  u_Id :: string
  u_Attributes :: "(string, string) gomap"

record ModelAccessPolicy =
  ap_UserAttributes :: "(string, string slice) gomap"

record ModelSelectionPolicy =
  sp_KeyWords :: "string slice"
  sp_Descriptions :: "string slice"

record ModelSpec =
  m_Id :: string
  m_Type :: string
  m_BaseModelId :: string
  m_AccessPolicy :: ModelAccessPolicy
  m_SelectionPolicy :: ModelSelectionPolicy

type_synonym UserStatus = unit
type_synonym ModelStatus = unit

record ('t, 'o) User =
  usr_TypeMeta :: 't
  usr_ObjectMeta :: 'o
  usr_Spec :: UserSpec
  usr_Status :: UserStatus

record ('t, 'o) Model =
  mod_TypeMeta :: 't
  mod_ObjectMeta :: 'o
  mod_Spec :: ModelSpec
  mod_Status :: ModelStatus

record ('t, 'o, 'l) UserList =
  ul_TypeMeta :: 't
  ul_ListMeta :: 'l
  ul_Items :: "('t, 'o) User slice"

record ('t, 'o, 'l) ModelList =
  ml_TypeMeta :: 't
  ml_ListMeta :: 'l
  ml_Items :: "('t, 'o) Model slice"

text \<open>The maps inside a spec are Go maps: no key twice.\<close>

definition wf_user :: "UserSpec \<Rightarrow> bool" where
  "wf_user u = gwf (u_Attributes u)"

definition wf_access :: "ModelAccessPolicy \<Rightarrow> bool" where
  "wf_access p = gwf (ap_UserAttributes p)"

definition wf_model :: "ModelSpec \<Rightarrow> bool" where
  "wf_model m = wf_access (m_AccessPolicy m)"

section \<open>Deep copies\<close>

text \<open>
  \<open>DeepCopyInto\<close> first assigns the struct (\<open>*out = *in\<close>), then rebuilds the maps and slices it
  reaches: the functions return what \<open>out\<close> points to afterwards. Writing into the map under
  construction could panic, had it not just been made. The range loops run over the entries in
  the order of the representation: \<open>range_set_order\<close> in \<open>GoData\<close> shows that the map
  built does not depend on it.
\<close>

definition UserSpec_DeepCopyInto :: "UserSpec \<Rightarrow> UserSpec outcome" where
  "UserSpec_DeepCopyInto u =
     (let out = u in
      if u_Attributes u \<noteq> NilMap
      then do { m \<leftarrow> range_set Some (entries (u_Attributes u)) gmake;
                Some (out\<lparr>u_Attributes := m\<rparr>) }
      else Some out)"

definition copy_values :: "string slice \<Rightarrow> string slice outcome" where
  "copy_values val = (case val of NilSlice \<Rightarrow> Some NilSlice | Slice xs \<Rightarrow> Some (dup_slice [] val))"

definition ModelAccessPolicy_DeepCopyInto :: "ModelAccessPolicy \<Rightarrow> ModelAccessPolicy outcome" where
  "ModelAccessPolicy_DeepCopyInto p =
     (let out = p in
      if ap_UserAttributes p \<noteq> NilMap
      then do { m \<leftarrow> range_set copy_values (entries (ap_UserAttributes p)) gmake;
                Some (out\<lparr>ap_UserAttributes := m\<rparr>) }
      else Some out)"

definition ModelSelectionPolicy_DeepCopyInto :: "ModelSelectionPolicy \<Rightarrow> ModelSelectionPolicy" where
  "ModelSelectionPolicy_DeepCopyInto p =
     (let out = p;
          out = (if sp_KeyWords p \<noteq> NilSlice
                 then out\<lparr>sp_KeyWords := dup_slice [] (sp_KeyWords p)\<rparr> else out)
      in if sp_Descriptions p \<noteq> NilSlice
         then out\<lparr>sp_Descriptions := dup_slice [] (sp_Descriptions p)\<rparr> else out)"

definition ModelSpec_DeepCopyInto :: "ModelSpec \<Rightarrow> ModelSpec outcome" where
  "ModelSpec_DeepCopyInto m =
     (let out = m in
      do { a \<leftarrow> ModelAccessPolicy_DeepCopyInto (m_AccessPolicy m);
           Some (out\<lparr>m_AccessPolicy := a,
                     m_SelectionPolicy := ModelSelectionPolicy_DeepCopyInto (m_SelectionPolicy m)\<rparr>) })"

text \<open>\<open>DeepCopy\<close> of a pointer: nil stays nil.\<close>

definition deep_copy :: "('a \<Rightarrow> 'a outcome) \<Rightarrow> 'a ptr \<Rightarrow> 'a ptr outcome" where
  "deep_copy into p = (case p of None \<Rightarrow> Some None | Some x \<Rightarrow> map_option Some (into x))"

definition UserSpec_DeepCopy :: "UserSpec ptr \<Rightarrow> UserSpec ptr outcome" where
  "UserSpec_DeepCopy p = deep_copy UserSpec_DeepCopyInto p"

definition ModelSpec_DeepCopy :: "ModelSpec ptr \<Rightarrow> ModelSpec ptr outcome" where
  "ModelSpec_DeepCopy p = deep_copy ModelSpec_DeepCopyInto p"

definition User_DeepCopyInto :: "('o \<Rightarrow> 'o) \<Rightarrow> ('t, 'o) User \<Rightarrow> ('t, 'o) User outcome" where
  "User_DeepCopyInto copy_meta u =
     (let out = u\<lparr>usr_TypeMeta := usr_TypeMeta u, usr_ObjectMeta := copy_meta (usr_ObjectMeta u)\<rparr> in
      do { s \<leftarrow> UserSpec_DeepCopyInto (usr_Spec u);
           Some (out\<lparr>usr_Spec := s, usr_Status := usr_Status u\<rparr>) })"

definition Model_DeepCopyInto :: "('o \<Rightarrow> 'o) \<Rightarrow> ('t, 'o) Model \<Rightarrow> ('t, 'o) Model outcome" where
  "Model_DeepCopyInto copy_meta m =
     (let out = m\<lparr>mod_TypeMeta := mod_TypeMeta m, mod_ObjectMeta := copy_meta (mod_ObjectMeta m)\<rparr> in
      do { s \<leftarrow> ModelSpec_DeepCopyInto (mod_Spec m);
           Some (out\<lparr>mod_Spec := s, mod_Status := mod_Status m\<rparr>) })"

definition User_DeepCopy :: "('o \<Rightarrow> 'o) \<Rightarrow> ('t, 'o) User ptr \<Rightarrow> ('t, 'o) User ptr outcome" where
  "User_DeepCopy copy_meta p = deep_copy (User_DeepCopyInto copy_meta) p"

definition Model_DeepCopy :: "('o \<Rightarrow> 'o) \<Rightarrow> ('t, 'o) Model ptr \<Rightarrow> ('t, 'o) Model ptr outcome" where
  "Model_DeepCopy copy_meta p = deep_copy (Model_DeepCopyInto copy_meta) p"

text \<open>The loop over the items of a list, writing each copy at its index.\<close>

primrec copy_items :: "('a \<Rightarrow> 'a outcome) \<Rightarrow> 'a list \<Rightarrow> 'a list outcome" where
  "copy_items into [] = Some []"
| "copy_items into (x # xs) = do { y \<leftarrow> into x; ys \<leftarrow> copy_items into xs; Some (y # ys) }"

definition UserList_DeepCopyInto ::
    "('o \<Rightarrow> 'o) \<Rightarrow> ('l \<Rightarrow> 'l) \<Rightarrow> ('t, 'o, 'l) UserList \<Rightarrow> ('t, 'o, 'l) UserList outcome" where
  "UserList_DeepCopyInto copy_meta copy_lmeta l =
     (let out = l\<lparr>ul_TypeMeta := ul_TypeMeta l, ul_ListMeta := copy_lmeta (ul_ListMeta l)\<rparr> in
      case ul_Items l of NilSlice \<Rightarrow> Some out
      | Slice xs \<Rightarrow> do { ys \<leftarrow> copy_items (User_DeepCopyInto copy_meta) xs;
                        Some (out\<lparr>ul_Items := Slice ys\<rparr>) })"

definition ModelList_DeepCopyInto ::
    "('o \<Rightarrow> 'o) \<Rightarrow> ('l \<Rightarrow> 'l) \<Rightarrow> ('t, 'o, 'l) ModelList \<Rightarrow> ('t, 'o, 'l) ModelList outcome" where
  "ModelList_DeepCopyInto copy_meta copy_lmeta l =
     (let out = l\<lparr>ml_TypeMeta := ml_TypeMeta l, ml_ListMeta := copy_lmeta (ml_ListMeta l)\<rparr> in
      case ml_Items l of NilSlice \<Rightarrow> Some out
      | Slice xs \<Rightarrow> do { ys \<leftarrow> copy_items (Model_DeepCopyInto copy_meta) xs;
                        Some (out\<lparr>ml_Items := Slice ys\<rparr>) })"

definition UserList_DeepCopy ::
    "('o \<Rightarrow> 'o) \<Rightarrow> ('l \<Rightarrow> 'l) \<Rightarrow> ('t, 'o, 'l) UserList ptr \<Rightarrow> ('t, 'o, 'l) UserList ptr outcome" where
  "UserList_DeepCopy copy_meta copy_lmeta p = deep_copy (UserList_DeepCopyInto copy_meta copy_lmeta) p"

definition ModelList_DeepCopy ::
    "('o \<Rightarrow> 'o) \<Rightarrow> ('l \<Rightarrow> 'l) \<Rightarrow> ('t, 'o, 'l) ModelList ptr \<Rightarrow> ('t, 'o, 'l) ModelList ptr outcome" where
  "ModelList_DeepCopy copy_meta copy_lmeta p = deep_copy (ModelList_DeepCopyInto copy_meta copy_lmeta) p"

definition ModelAccessPolicy_DeepCopy :: "ModelAccessPolicy ptr \<Rightarrow> ModelAccessPolicy ptr outcome" where
  "ModelAccessPolicy_DeepCopy p = deep_copy ModelAccessPolicy_DeepCopyInto p"

definition ModelSelectionPolicy_DeepCopy ::
    "ModelSelectionPolicy ptr \<Rightarrow> ModelSelectionPolicy ptr outcome" where
  "ModelSelectionPolicy_DeepCopy p = deep_copy (\<lambda>x. Some (ModelSelectionPolicy_DeepCopyInto x)) p"

definition UserStatus_DeepCopyInto :: "UserStatus \<Rightarrow> UserStatus" where
  "UserStatus_DeepCopyInto st = st"

definition ModelStatus_DeepCopyInto :: "ModelStatus \<Rightarrow> ModelStatus" where
  "ModelStatus_DeepCopyInto st = st"

definition UserStatus_DeepCopy :: "UserStatus ptr \<Rightarrow> UserStatus ptr outcome" where
  "UserStatus_DeepCopy p = deep_copy (\<lambda>x. Some (UserStatus_DeepCopyInto x)) p"

definition ModelStatus_DeepCopy :: "ModelStatus ptr \<Rightarrow> ModelStatus ptr outcome" where
  "ModelStatus_DeepCopy p = deep_copy (\<lambda>x. Some (ModelStatus_DeepCopyInto x)) p"

text \<open>
  \<open>DeepCopyObject\<close> returns an interface: it is nil, and not an interface that holds a nil
  pointer, when the copy is nil.
\<close>

definition deep_copy_object :: "('a ptr \<Rightarrow> 'a ptr outcome) \<Rightarrow> 'a ptr \<Rightarrow> 'a ptr option outcome" where
  "deep_copy_object DeepCopy p =
     do { c \<leftarrow> DeepCopy p; if c \<noteq> None then Some (Some c) else Some None }"

definition User_DeepCopyObject ::
    "('o \<Rightarrow> 'o) \<Rightarrow> ('t, 'o) User ptr \<Rightarrow> ('t, 'o) User ptr option outcome" where
  "User_DeepCopyObject copy_meta = deep_copy_object (User_DeepCopy copy_meta)"

definition Model_DeepCopyObject ::
    "('o \<Rightarrow> 'o) \<Rightarrow> ('t, 'o) Model ptr \<Rightarrow> ('t, 'o) Model ptr option outcome" where
  "Model_DeepCopyObject copy_meta = deep_copy_object (Model_DeepCopy copy_meta)"

definition UserList_DeepCopyObject ::
    "('o \<Rightarrow> 'o) \<Rightarrow> ('l \<Rightarrow> 'l) \<Rightarrow> ('t, 'o, 'l) UserList ptr
      \<Rightarrow> ('t, 'o, 'l) UserList ptr option outcome" where
  "UserList_DeepCopyObject copy_meta copy_lmeta = deep_copy_object (UserList_DeepCopy copy_meta copy_lmeta)"

definition ModelList_DeepCopyObject ::
    "('o \<Rightarrow> 'o) \<Rightarrow> ('l \<Rightarrow> 'l) \<Rightarrow> ('t, 'o, 'l) ModelList ptr
      \<Rightarrow> ('t, 'o, 'l) ModelList ptr option outcome" where
  "ModelList_DeepCopyObject copy_meta copy_lmeta = deep_copy_object (ModelList_DeepCopy copy_meta copy_lmeta)"

subsection \<open>A deep copy equals the original\<close>

lemma range_set_id:
  assumes "gwf m" and "m \<noteq> NilMap" and "\<And>v. f v = Some v"
  shows "range_set f (entries m) gmake = Some m"
  using assms by (cases m) (auto simp: gwf_def intro: range_set_fresh)

lemma copy_values_id: "copy_values v = Some v"
  by (cases v) (simp_all add: copy_values_def)

lemma UserSpec_DeepCopyInto_id [simp]: "wf_user u \<Longrightarrow> UserSpec_DeepCopyInto u = Some u"
  by (simp add: UserSpec_DeepCopyInto_def wf_user_def range_set_id)

lemma ModelAccessPolicy_DeepCopyInto_id: "wf_access p \<Longrightarrow> ModelAccessPolicy_DeepCopyInto p = Some p"
  by (simp add: ModelAccessPolicy_DeepCopyInto_def wf_access_def range_set_id copy_values_id)

lemma dup_slice_id: "s \<noteq> NilSlice \<Longrightarrow> dup_slice z s = s"
  by (cases s) simp_all

lemma ModelSelectionPolicy_DeepCopyInto_id: "ModelSelectionPolicy_DeepCopyInto p = p"
  by (simp add: ModelSelectionPolicy_DeepCopyInto_def Let_def dup_slice_id)

lemma ModelSpec_DeepCopyInto_id [simp]: "wf_model m \<Longrightarrow> ModelSpec_DeepCopyInto m = Some m"
  by (simp add: ModelSpec_DeepCopyInto_def wf_model_def Let_def
      ModelAccessPolicy_DeepCopyInto_id ModelSelectionPolicy_DeepCopyInto_id)

lemma deep_copy_id: "(\<And>x. p = Some x \<Longrightarrow> into x = Some x) \<Longrightarrow> deep_copy into p = Some p"
  by (cases p) (simp_all add: deep_copy_def)

lemma UserSpec_DeepCopy_id [simp]: "pred_option wf_user p \<Longrightarrow> UserSpec_DeepCopy p = Some p"
  by (auto simp: UserSpec_DeepCopy_def pred_option_def intro: deep_copy_id)

lemma ModelSpec_DeepCopy_id [simp]: "pred_option wf_model p \<Longrightarrow> ModelSpec_DeepCopy p = Some p"
  by (auto simp: ModelSpec_DeepCopy_def pred_option_def intro: deep_copy_id)

lemma User_DeepCopyInto_id: "wf_user (usr_Spec u) \<Longrightarrow> User_DeepCopyInto id u = Some u"
  by (simp add: User_DeepCopyInto_def Let_def)

lemma Model_DeepCopyInto_id: "wf_model (mod_Spec m) \<Longrightarrow> Model_DeepCopyInto id m = Some m"
  by (simp add: Model_DeepCopyInto_def Let_def)

lemma copy_items_id: "(\<And>x. x \<in> set xs \<Longrightarrow> into x = Some x) \<Longrightarrow> copy_items into xs = Some xs"
  by (induction xs) simp_all

lemma UserList_DeepCopyInto_id:
  "(\<And>u. u \<in> set (elems (ul_Items l)) \<Longrightarrow> wf_user (usr_Spec u)) \<Longrightarrow>
     UserList_DeepCopyInto id id l = Some l"
  by (cases "ul_Items l")
     (simp_all add: UserList_DeepCopyInto_def Let_def copy_items_id User_DeepCopyInto_id)

lemma ModelList_DeepCopyInto_id:
  "(\<And>m. m \<in> set (elems (ml_Items l)) \<Longrightarrow> wf_model (mod_Spec m)) \<Longrightarrow>
     ModelList_DeepCopyInto id id l = Some l"
  by (cases "ml_Items l")
     (simp_all add: ModelList_DeepCopyInto_def Let_def copy_items_id Model_DeepCopyInto_id)

lemma deep_copy_object_id:
  "DeepCopy p = Some p \<Longrightarrow> deep_copy_object DeepCopy p = Some (map_option Some p)"
  by (cases p) (simp_all add: deep_copy_object_def)

section \<open>The JSON documents of specs\<close>

text \<open>
  What \<open>json.Marshal\<close> writes for the specs, as decoded again: the struct tags name the members,
  \<open>omitempty\<close> drops an empty string or slice (and never a struct), a nil map or slice is null,
  the keys of a map are written in byte order.
\<close>

definition string_json :: "string \<Rightarrow> json" where
  "string_json s = JStr (coerce_utf8 s)"

definition map_json :: "('v \<Rightarrow> json) \<Rightarrow> (string, 'v) gomap \<Rightarrow> json" where
  "map_json f m =
     (case m of NilMap \<Rightarrow> JNull
      | GoMap al \<Rightarrow> JObj (map (\<lambda>(k, v). (coerce_utf8 k, f v)) (sort_key fst al)))"

definition slice_json :: "('v \<Rightarrow> json) \<Rightarrow> 'v slice \<Rightarrow> json" where
  "slice_json f s = (case s of NilSlice \<Rightarrow> JNull | Slice xs \<Rightarrow> JArr (map f xs))"

definition UserSpec_json :: "UserSpec \<Rightarrow> json" where
  "UserSpec_json u =
     JObj [(''id'', string_json (u_Id u)),
           (''attributes'', map_json string_json (u_Attributes u))]"

definition ModelAccessPolicy_json :: "ModelAccessPolicy \<Rightarrow> json" where
  "ModelAccessPolicy_json p =
     JObj [(''userAttributes'', map_json (slice_json string_json) (ap_UserAttributes p))]"

definition ModelSelectionPolicy_json :: "ModelSelectionPolicy \<Rightarrow> json" where
  "ModelSelectionPolicy_json p =
     JObj ((if elems (sp_KeyWords p) = [] then []
            else [(''keyWords'', slice_json string_json (sp_KeyWords p))]) @
           (if elems (sp_Descriptions p) = [] then []
            else [(''descriptions'', slice_json string_json (sp_Descriptions p))]))"

definition ModelSpec_json :: "ModelSpec \<Rightarrow> json" where
  "ModelSpec_json m =
     JObj ([(''id'', string_json (m_Id m)), (''type'', string_json (m_Type m))] @
           (if m_BaseModelId m = [] then []
            else [(''baseModelId'', string_json (m_BaseModelId m))]) @
           [(''accessPolicy'', ModelAccessPolicy_json (m_AccessPolicy m)),
            (''selectionPolicy'', ModelSelectionPolicy_json (m_SelectionPolicy m))])"

definition ptr_json :: "('a \<Rightarrow> json) \<Rightarrow> 'a ptr \<Rightarrow> json" where
  "ptr_json f p = (case p of None \<Rightarrow> JNull | Some x \<Rightarrow> f x)"

text \<open>
  Specs whose strings are valid UTF-8, as the API server's JSON guarantees, and whose access
  policy has its map, as the custom resource definition requires.
\<close>

definition user_utf8 :: "UserSpec \<Rightarrow> bool" where
  "user_utf8 u \<longleftrightarrow> valid_utf8 (u_Id u)
     \<and> (\<forall>(k, v) \<in> set (entries (u_Attributes u)). valid_utf8 k \<and> valid_utf8 v)"

definition policy_utf8 :: "ModelAccessPolicy \<Rightarrow> bool" where
  "policy_utf8 p \<longleftrightarrow>
     (\<forall>(k, vs) \<in> set (entries (ap_UserAttributes p)).
        valid_utf8 k \<and> (\<forall>v \<in> set (elems vs). valid_utf8 v))"

definition good_user :: "UserSpec \<Rightarrow> bool" where
  "good_user u \<longleftrightarrow> wf_user u \<and> user_utf8 u"

definition good_model :: "ModelSpec \<Rightarrow> bool" where
  "good_model m \<longleftrightarrow> wf_model m \<and> valid_utf8 (m_Id m) \<and> policy_utf8 (m_AccessPolicy m)
     \<and> ap_UserAttributes (m_AccessPolicy m) \<noteq> NilMap"

lemma good_user_wf [wf_rules]: "good_user u \<Longrightarrow> wf_user u"
  by (simp add: good_user_def)

lemma good_model_wf [wf_rules]: "good_model m \<Longrightarrow> wf_model m"
  by (simp add: good_model_def)

text \<open>With valid strings, a member of a map's document is the value in the map.\<close>

lemma map_json_lookup:
  assumes "gwf (GoMap al)" and "\<forall>(k, v) \<in> set al. valid_utf8 k"
  shows "map_json f (GoMap al) = JObj kvs \<Longrightarrow>
           distinct (map fst kvs) \<and> map_of kvs k = map_option f (map_of al k)"
    and "\<exists>kvs. map_json f (GoMap al) = JObj kvs"
proof -
  let ?s = "sort_key fst al"
  from assms(1) have d: "distinct (map fst al)" by (simp add: gwf_def)
  then have ds: "distinct (map fst ?s)"
    using mset_eq_imp_distinct_iff [of "map fst ?s" "map fst al"] by simp
  have fsts: "map (\<lambda>(k, v). (coerce_utf8 k, f v)) ?s = map (\<lambda>(k, v). (k, f v)) ?s"
    using assms(2) by (intro map_cong) auto
  have "map_of (map (\<lambda>(k, v). (k, f v)) ?s) k = map_option f (map_of ?s k)" by (simp add: map_of_map)
  moreover have "map_of ?s = map_of al" by (rule map_of_mset_eq) (use ds in simp_all)
  ultimately show "map_json f (GoMap al) = JObj kvs \<Longrightarrow>
           distinct (map fst kvs) \<and> map_of kvs k = map_option f (map_of al k)"
    using ds by (auto simp: map_json_def fsts comp_def case_prod_beta)
  show "\<exists>kvs. map_json f (GoMap al) = JObj kvs" by (simp add: map_json_def)
qed

end
