(* ===== verification/Store.thy ===== *)
theory Store
  imports ApiTypes
begin

text \<open>
  The interfaces of \<open>pkg/store/interface.go\<close>: the methods as records of functions over the
  state \<open>'s\<close> of the implementation, and the laws their clients rely on as locales. A store
  stands for two finite maps, from ids to users and from ids to models; reading returns what
  the maps hold, syncing and deleting update one entry. The consequences for a client are
  proved once here; \<open>MemoryStore\<close> interprets the locales.
\<close>

section \<open>The methods\<close>

record 's ReadStore =
  GetUser :: "'s \<Rightarrow> string \<Rightarrow> UserSpec ptr result outcome"
  ListUsers :: "'s \<Rightarrow> UserSpec list result outcome"
  UserExists :: "'s \<Rightarrow> string \<Rightarrow> bool result outcome"
  GetModel :: "'s \<Rightarrow> string \<Rightarrow> ModelSpec ptr result outcome"
  ListModels :: "'s \<Rightarrow> ModelSpec list result outcome"
  ListModelsByType :: "'s \<Rightarrow> string \<Rightarrow> ModelSpec list result outcome"
  ModelExists :: "'s \<Rightarrow> string \<Rightarrow> bool result outcome"

record 's Store = "'s ReadStore" +
  SyncUser :: "'s \<Rightarrow> UserSpec ptr \<Rightarrow> (goerror option \<times> 's) outcome"
  DeleteUser :: "'s \<Rightarrow> string \<Rightarrow> (goerror option \<times> 's) outcome"
  SyncModel :: "'s \<Rightarrow> ModelSpec ptr \<Rightarrow> (goerror option \<times> 's) outcome"
  DeleteModel :: "'s \<Rightarrow> string \<Rightarrow> (goerror option \<times> 's) outcome"
  Close :: "'s \<Rightarrow> goerror option \<times> 's"

text \<open>The state-changing calls as data, and what each of them does to the two maps.\<close>

datatype store_op =
    OpSyncUser "UserSpec ptr"
  | OpDeleteUser string
  | OpSyncModel "ModelSpec ptr"
  | OpDeleteModel string

type_synonym catalog = "(string \<rightharpoonup> UserSpec) \<times> (string \<rightharpoonup> ModelSpec)"

definition put_spec :: "('a \<Rightarrow> string) \<Rightarrow> 'a ptr \<Rightarrow> (string \<rightharpoonup> 'a) \<Rightarrow> string \<rightharpoonup> 'a" where
  "put_spec idf p m =
     (case p of None \<Rightarrow> m | Some x \<Rightarrow> if idf x = [] then m else m(idf x \<mapsto> x))"

fun catalog_step :: "store_op \<Rightarrow> catalog \<Rightarrow> catalog" where
  "catalog_step (OpSyncUser p) (us, ms) = (put_spec u_Id p us, ms)"
| "catalog_step (OpDeleteUser i) (us, ms) = (us(i := None), ms)"
| "catalog_step (OpSyncModel p) (us, ms) = (us, put_spec m_Id p ms)"
| "catalog_step (OpDeleteModel i) (us, ms) = (us, ms(i := None))"

fun op_wf :: "store_op \<Rightarrow> bool" where
  "op_wf (OpSyncUser p) = pred_option wf_user p"
| "op_wf (OpSyncModel p) = pred_option wf_model p"
| "op_wf _ = True"

fun op_good :: "store_op \<Rightarrow> bool" where
  "op_good (OpSyncUser p) = pred_option good_user p"
| "op_good (OpSyncModel p) = pred_option good_model p"
| "op_good _ = True"

definition catalog_good :: "catalog \<Rightarrow> bool" where
  "catalog_good c \<longleftrightarrow> (\<forall>u \<in> ran (fst c). good_user u) \<and> (\<forall>m \<in> ran (snd c). good_model m)"

lemma op_good_wf [wf_rules]: "op_good x \<Longrightarrow> op_wf x"
  by (cases x) (auto simp: pred_option_def good_user_wf good_model_wf)

lemma catalog_good_step: "catalog_good c \<Longrightarrow> op_good x \<Longrightarrow> catalog_good (catalog_step x c)"
  by (cases c; cases x)
     (auto simp: catalog_good_def put_spec_def ran_def pred_option_def split: option.splits if_splits)

text \<open>The error a call returns: only syncing nil or a spec without an id fails.\<close>

fun op_fails :: "store_op \<Rightarrow> bool" where
  "op_fails (OpSyncUser p) = (case p of None \<Rightarrow> True | Some u \<Rightarrow> u_Id u = [])"
| "op_fails (OpSyncModel p) = (case p of None \<Rightarrow> True | Some m \<Rightarrow> m_Id m = [])"
| "op_fails _ = False"

fun store_step :: "'s Store \<Rightarrow> store_op \<Rightarrow> 's \<Rightarrow> (goerror option \<times> 's) outcome" where
  "store_step S (OpSyncUser p) s = SyncUser S s p"
| "store_step S (OpDeleteUser i) s = DeleteUser S s i"
| "store_step S (OpSyncModel p) s = SyncModel S s p"
| "store_step S (OpDeleteModel i) s = DeleteModel S s i"

text \<open>A run of calls, returning the errors in order and the final state.\<close>

primrec store_run :: "'s Store \<Rightarrow> store_op list \<Rightarrow> 's \<Rightarrow> (goerror option list \<times> 's) outcome" where
  "store_run S [] s = Some ([], s)"
| "store_run S (x # xs) s =
     do { (e, s') \<leftarrow> store_step S x s; (es, s'') \<leftarrow> store_run S xs s'; Some (e # es, s'') }"

section \<open>Reading\<close>

locale read_store =
  fixes R :: "('s, 'z) ReadStore_scheme"
    and inv :: "'s \<Rightarrow> bool"
    and users :: "'s \<Rightarrow> string \<rightharpoonup> UserSpec"
    and models :: "'s \<Rightarrow> string \<rightharpoonup> ModelSpec"
  assumes GetUser_found: "inv s \<Longrightarrow> users s i = Some u \<Longrightarrow> GetUser R s i = Some (Inr (Some u))"
    and GetUser_missing: "inv s \<Longrightarrow> users s i = None \<Longrightarrow> \<exists>e. GetUser R s i = Some (Inl e)"
    and UserExists_eq: "inv s \<Longrightarrow> UserExists R s i = Some (Inr (users s i \<noteq> None))"
    and ListUsers_eq: "inv s \<Longrightarrow> \<exists>us. ListUsers R s = Some (Inr us) \<and> distinct (map u_Id us)
          \<and> set us = ran (users s)"
    and GetModel_found: "inv s \<Longrightarrow> models s i = Some m \<Longrightarrow> GetModel R s i = Some (Inr (Some m))"
    and GetModel_missing: "inv s \<Longrightarrow> models s i = None \<Longrightarrow> \<exists>e. GetModel R s i = Some (Inl e)"
    and ModelExists_eq: "inv s \<Longrightarrow> ModelExists R s i = Some (Inr (models s i \<noteq> None))"
    and ListModels_eq: "inv s \<Longrightarrow> \<exists>ms. ListModels R s = Some (Inr ms) \<and> distinct (map m_Id ms)
          \<and> set ms = ran (models s)"
    and ListModelsByType_eq: "inv s \<Longrightarrow> \<exists>ms. ListModelsByType R s t = Some (Inr ms)
          \<and> distinct (map m_Id ms) \<and> set ms = {m \<in> ran (models s). m_Type m = t}"
    and user_key: "inv s \<Longrightarrow> users s i = Some u \<Longrightarrow> u_Id u = i \<and> i \<noteq> [] \<and> wf_user u"
    and model_key: "inv s \<Longrightarrow> models s i = Some m \<Longrightarrow> m_Id m = i \<and> i \<noteq> [] \<and> wf_model m"
begin

lemma GetUser_total: "inv s \<Longrightarrow> \<exists>r. GetUser R s i = Some r"
  using GetUser_found GetUser_missing by (cases "users s i") blast+

lemma GetModel_total: "inv s \<Longrightarrow> \<exists>r. GetModel R s i = Some r"
  using GetModel_found GetModel_missing by (cases "models s i") blast+

lemma GetUser_ok_iff: "inv s \<Longrightarrow> GetUser R s i = Some (Inr p) \<longleftrightarrow> (\<exists>u. p = Some u \<and> users s i = Some u)"
  by (cases "users s i") (auto dest: GetUser_found GetUser_missing)

lemma GetModel_ok_iff: "inv s \<Longrightarrow> GetModel R s i = Some (Inr p) \<longleftrightarrow> (\<exists>m. p = Some m \<and> models s i = Some m)"
  by (cases "models s i") (auto dest: GetModel_found GetModel_missing)

lemma exists_iff_get: "inv s \<Longrightarrow> UserExists R s i = Some (Inr True) \<longleftrightarrow> (\<exists>p. GetUser R s i = Some (Inr p))"
  by (auto simp: UserExists_eq GetUser_ok_iff)

lemma no_user_without_id: "inv s \<Longrightarrow> users s [] = None"
  using user_key by (cases "users s []") auto

lemma models_of_type:
  assumes "inv s" and "ListModelsByType R s t = Some (Inr ms)"
  shows "m \<in> set ms \<longleftrightarrow> models s (m_Id m) = Some m \<and> m_Type m = t"
    and "distinct (map m_Id ms)"
proof -
  from ListModelsByType_eq [OF assms(1), of t] assms(2)
  have set: "set ms = {m \<in> ran (models s). m_Type m = t}" and "distinct (map m_Id ms)" by auto
  then show "distinct (map m_Id ms)" by simp
  have "m \<in> ran (models s) \<longleftrightarrow> models s (m_Id m) = Some m"
    using model_key [OF assms(1)] unfolding ran_def by blast
  then show "m \<in> set ms \<longleftrightarrow> models s (m_Id m) = Some m \<and> m_Type m = t" using set by simp
qed

end

text \<open>A store that holds only specs the API server admits.\<close>

locale good_store = read_store R inv users models
  for R :: "('s, 'z) ReadStore_scheme"
    and inv :: "'s \<Rightarrow> bool"
    and users :: "'s \<Rightarrow> string \<rightharpoonup> UserSpec"
    and models :: "'s \<Rightarrow> string \<rightharpoonup> ModelSpec" +
  assumes users_good: "inv s \<Longrightarrow> users s i = Some u \<Longrightarrow> good_user u"
    and models_good: "inv s \<Longrightarrow> models s i = Some m \<Longrightarrow> good_model m"
begin

lemma listed_good:
  assumes "inv s" and "ListModelsByType R s t = Some (Inr ms)"
  shows "list_all good_model ms"
  using models_of_type(1) [OF assms] models_good [OF assms(1)] by (auto simp: list_all_iff)

end

section \<open>Writing\<close>

locale rw_store = read_store R inv users models
  for R :: "'s Store"
    and inv :: "'s \<Rightarrow> bool"
    and users :: "'s \<Rightarrow> string \<rightharpoonup> UserSpec"
    and models :: "'s \<Rightarrow> string \<rightharpoonup> ModelSpec" +
  fixes empty :: "'s"
  assumes empty: "inv empty" "users empty = Map.empty" "models empty = Map.empty"
    and step_refines: "inv s \<Longrightarrow> op_wf x \<Longrightarrow> \<exists>e s'. store_step R x s = Some (e, s') \<and> inv s'
          \<and> (users s', models s') = catalog_step x (users s, models s) \<and> (e \<noteq> None \<longleftrightarrow> op_fails x)"
begin

text \<open>
  A run of calls never panics, keeps the invariant, and leaves the maps the run of the abstract
  steps leaves; an error is returned exactly for the calls that fail abstractly.
\<close>

lemma run_refines:
  "inv s \<Longrightarrow> list_all op_wf xs \<Longrightarrow>
     \<exists>es s'. store_run R xs s = Some (es, s') \<and> inv s'
       \<and> (users s', models s') = fold catalog_step xs (users s, models s)
       \<and> map (\<lambda>e. e \<noteq> None) es = map op_fails xs"
proof (induction xs arbitrary: s)
  case Nil
  then show ?case by simp
next
  case (Cons x xs)
  then obtain e s' where s': "store_step R x s = Some (e, s')" "inv s'"
      "(users s', models s') = catalog_step x (users s, models s)" "e \<noteq> None \<longleftrightarrow> op_fails x"
    using step_refines by fastforce
  from Cons.IH [OF s'(2)] Cons.prems obtain es s'' where
      "store_run R xs s' = Some (es, s'')" "inv s''"
      "(users s'', models s'') = fold catalog_step xs (users s', models s')"
      "map (\<lambda>e. e \<noteq> None) es = map op_fails xs"
    by auto
  with s' show ?case by simp
qed

lemma run_from_empty:
  assumes "list_all op_wf xs" and "store_run R xs empty = Some (es, s)"
  shows "inv s" and "(users s, models s) = fold catalog_step xs (Map.empty, Map.empty)"
  using run_refines [OF empty(1) assms(1)] assms(2) empty(2,3) by auto

end

section \<open>The maps after a run: the last call on an id decides\<close>

fun op_user :: "string \<Rightarrow> store_op \<Rightarrow> UserSpec option option" where
  "op_user i (OpSyncUser (Some u)) = (if u_Id u = i \<and> i \<noteq> [] then Some (Some u) else None)"
| "op_user i (OpDeleteUser j) = (if i = j then Some None else None)"
| "op_user i _ = None"

fun op_model :: "string \<Rightarrow> store_op \<Rightarrow> ModelSpec option option" where
  "op_model i (OpSyncModel (Some m)) = (if m_Id m = i \<and> i \<noteq> [] then Some (Some m) else None)"
| "op_model i (OpDeleteModel j) = (if i = j then Some None else None)"
| "op_model i _ = None"

text \<open>The first defined value of a list, with a default.\<close>

fun latest :: "('x \<Rightarrow> 'v option) \<Rightarrow> 'v \<Rightarrow> 'x list \<Rightarrow> 'v" where
  "latest f d [] = d"
| "latest f d (x # xs) = (case f x of None \<Rightarrow> latest f d xs | Some v \<Rightarrow> v)"

lemma catalog_step_lookup:
  "fst (catalog_step x c) i = (case op_user i x of None \<Rightarrow> fst c i | Some v \<Rightarrow> v)"
  "snd (catalog_step x c) i = (case op_model i x of None \<Rightarrow> snd c i | Some v \<Rightarrow> v)"
  by (cases c; cases x; auto simp: put_spec_def split: option.splits)+

lemma fold_catalog_lookup:
  "fst (fold catalog_step xs c) i = latest (op_user i) (fst c i) (rev xs)"
  "snd (fold catalog_step xs c) i = latest (op_model i) (snd c i) (rev xs)"
proof (induction xs rule: rev_induct)
  case (snoc x xs)
  {
    case 1
    show ?case using snoc by (simp add: catalog_step_lookup split: option.split)
  next
    case 2
    show ?case using snoc by (simp add: catalog_step_lookup split: option.split)
  }
qed simp_all

end
