(* ===== verification/Rego.thy ===== *)
theory Rego
  imports ApiTypes
begin

text \<open>
  The policy \<open>access.rego\<close>, evaluated on JSON documents, and the access rule it implements. An
  undefined reference is \<open>None\<close> and makes the rule body that contains it fail. The policy's
  documents hold strings only, so equality of documents is equality of terms. What \<open>every\<close>
  yields over a scalar is left open (\<open>scalar\<close>): the documents of well-formed models have an
  object there.
\<close>

section \<open>References\<close>

fun nat_lit :: "nat \<Rightarrow> string" where
  "nat_lit n = (if n < 10 then [chr (48 + n)] else nat_lit (n div 10) @ [chr (48 + n mod 10)])"

declare nat_lit.simps [simp del]

text \<open>The keys and values of a collection: the last of several members with one key counts.\<close>

fun members :: "json \<Rightarrow> (json \<times> json) list option" where
  "members (JObj kvs) = Some (map (\<lambda>(k, v). (JStr k, v)) (insert_all kvs []))"
| "members (JArr vs) = Some (zip (map (\<lambda>i. JNum (nat_lit i)) [0..<length vs]) vs)"
| "members _ = None"

definition rego_get :: "json \<Rightarrow> json \<Rightarrow> json option" where
  "rego_get d k = do { ms \<leftarrow> members d; map_of ms k }"

definition dot :: "json \<Rightarrow> string \<Rightarrow> json option" where
  "dot d field = rego_get d (JStr field)"

text \<open>\<open>some x in d\<close>.\<close>

definition elements :: "json \<Rightarrow> json list" where
  "elements d = (case members d of None \<Rightarrow> [] | Some ms \<Rightarrow> map snd ms)"

section \<open>The rules\<close>

definition attribute_allowed :: "json \<Rightarrow> json \<Rightarrow> json \<Rightarrow> bool" where
  "attribute_allowed user attribute_name allowed_values =
     (case do { attrs \<leftarrow> dot user ''attributes''; rego_get attrs attribute_name } of
        None \<Rightarrow> False
      | Some val \<Rightarrow> list_ex (\<lambda>allowed_value. allowed_value = val) (elements allowed_values))"

definition is_user_allowed_check :: "(json \<Rightarrow> bool) \<Rightarrow> json \<Rightarrow> json \<Rightarrow> bool" where
  "is_user_allowed_check scalar user model =
     (case do { p \<leftarrow> dot model ''accessPolicy''; dot p ''userAttributes'' } of
        None \<Rightarrow> False
      | Some attrs \<Rightarrow>
          (case members attrs of
             None \<Rightarrow> scalar attrs
           | Some ms \<Rightarrow> list_all (\<lambda>(attribute_name, allowed_values).
               attribute_allowed user attribute_name allowed_values) ms))"

definition is_user_allowed :: "(json \<Rightarrow> bool) \<Rightarrow> json \<Rightarrow> bool" where
  "is_user_allowed scalar input =
     (case (dot input ''user_obj'', dot input ''model_obj'') of
        (Some user, Some model) \<Rightarrow> is_user_allowed_check scalar user model = True
      | _ \<Rightarrow> False)"

definition allowed_model_id :: "(json \<Rightarrow> bool) \<Rightarrow> json \<Rightarrow> json \<Rightarrow> json option" where
  "allowed_model_id scalar input model =
     do { model_id \<leftarrow> dot model ''id'';
          user \<leftarrow> dot input ''user_obj'';
          if is_user_allowed_check scalar user model then Some model_id else None }"

definition allowed_models :: "(json \<Rightarrow> bool) \<Rightarrow> json \<Rightarrow> json list" where
  "allowed_models scalar input =
     (case dot input ''model_objs'' of
        None \<Rightarrow> []
      | Some objs \<Rightarrow> List.map_filter (allowed_model_id scalar input) (elements objs))"

section \<open>The access rule\<close>

text \<open>
  Attribute-based access: every attribute the model's policy names must be an attribute of the
  user, with one of the values the policy lists for it.
\<close>

definition abac :: "UserSpec \<Rightarrow> ModelSpec \<Rightarrow> bool" where
  "abac u m =
     list_all (\<lambda>(k, allowed).
         case glookup (u_Attributes u) k of None \<Rightarrow> False | Some v \<Rightarrow> v \<in> set (elems allowed))
       (entries (ap_UserAttributes (m_AccessPolicy m)))"

lemma abac_iff:
  assumes "wf_model m"
  shows "abac u m \<longleftrightarrow>
     (\<forall>k allowed. glookup (ap_UserAttributes (m_AccessPolicy m)) k = Some allowed \<longrightarrow>
        (\<exists>v. glookup (u_Attributes u) k = Some v \<and> v \<in> set (elems allowed)))"
proof -
  have "gwf (ap_UserAttributes (m_AccessPolicy m))"
    using assms by (simp add: wf_model_def wf_access_def)
  then show ?thesis
    by (simp add: abac_def list_all_iff entries_all case_option_ex)
qed

section \<open>The rules on the documents of specs\<close>

lemma insert_all_fresh: "distinct (map fst kvs) \<Longrightarrow> insert_all kvs [] = kvs"
  using insert_all_distinct [of "[]" kvs] by simp

lemma map_of_JStr: "map_of (map (\<lambda>(k, v). (JStr k, v)) al) (JStr k) = map_of al k"
  by (induction al) auto

lemma dot_JObj [rego_simps]: "distinct (map fst kvs) \<Longrightarrow> dot (JObj kvs) k = map_of kvs k"
  by (simp add: dot_def rego_get_def insert_all_fresh map_of_JStr)

lemma elements_JArr [rego_simps]: "elements (JArr vs) = vs"
  by (simp add: elements_def)

lemma elements_slice: "elements (slice_json f s) = map f (elems s)"
  by (cases s) (simp_all add: slice_json_def elements_def)

lemma user_fields [rego_simps]:
  "dot (UserSpec_json u) ''attributes'' = Some (map_json string_json (u_Attributes u))"
  by (simp add: UserSpec_json_def dot_JObj)

lemma model_fields [rego_simps]:
  "dot (ModelSpec_json m) ''id'' = Some (string_json (m_Id m))"
  "dot (ModelSpec_json m) ''accessPolicy'' = Some (ModelAccessPolicy_json (m_AccessPolicy m))"
  by (simp_all add: ModelSpec_json_def dot_JObj)

lemma policy_fields [rego_simps]:
  "dot (ModelAccessPolicy_json p) ''userAttributes''
     = Some (map_json (slice_json string_json) (ap_UserAttributes p))"
  by (simp add: ModelAccessPolicy_json_def dot_JObj)

lemma map_json_get:
  assumes "gwf m" and "\<forall>(k, v) \<in> set (entries m). valid_utf8 k"
  shows "rego_get (map_json f m) (JStr k) = map_option f (glookup m k)"
proof (cases m)
  case NilMap
  then show ?thesis by (simp add: map_json_def rego_get_def)
next
  case (GoMap al)
  with assms obtain kvs where kvs: "map_json f m = JObj kvs"
    using map_json_lookup(2) [of al f] by auto
  with GoMap assms have "distinct (map fst kvs)" "map_of kvs k = map_option f (map_of al k)"
    using map_json_lookup(1) [of al f kvs k] by auto
  with GoMap kvs show ?thesis
    using dot_JObj [of kvs k] by (simp add: dot_def glookup_def)
qed

lemma string_json_eq:
  "valid_utf8 s \<Longrightarrow> valid_utf8 t \<Longrightarrow> string_json s = string_json t \<longleftrightarrow> s = t"
  by (simp add: string_json_def)

lemma attribute_allowed_spec:
  assumes "good_user u" and "\<forall>v \<in> set (elems vs). valid_utf8 v"
  shows "attribute_allowed (UserSpec_json u) (JStr k) (slice_json string_json vs)
         = (case glookup (u_Attributes u) k of None \<Rightarrow> False | Some v \<Rightarrow> v \<in> set (elems vs))"
proof -
  from assms(1) have g: "gwf (u_Attributes u)"
    and k: "\<forall>(k, v) \<in> set (entries (u_Attributes u)). valid_utf8 k"
    by (auto simp: good_user_def wf_user_def user_utf8_def)
  show ?thesis
  proof (cases "glookup (u_Attributes u) k")
    case None
    then show ?thesis
      by (simp add: attribute_allowed_def user_fields map_json_get [OF g k])
  next
    case (Some v)
    then have "valid_utf8 v"
      using assms(1) glookup_in_entries by (fastforce simp: good_user_def user_utf8_def)
    with Some assms(2) show ?thesis
      by (auto simp: attribute_allowed_def user_fields map_json_get [OF g k] elements_slice
          list_ex_iff string_json_def)
  qed
qed

text \<open>The check of the policy is the access rule.\<close>

lemma is_user_allowed_check_spec:
  assumes u: "good_user u" and m: "good_model m"
  shows "is_user_allowed_check scalar (UserSpec_json u) (ModelSpec_json m) = abac u m"
proof -
  let ?p = "ap_UserAttributes (m_AccessPolicy m)"
  from m have g: "gwf ?p" and nn: "?p \<noteq> NilMap"
    by (auto simp: good_model_def wf_model_def wf_access_def)
  then obtain al where al: "?p = GoMap al" by (cases ?p) auto
  from m al have utf: "\<forall>(k, vs) \<in> set al. valid_utf8 k \<and> (\<forall>v \<in> set (elems vs). valid_utf8 v)"
    by (auto simp: good_model_def policy_utf8_def)
  let ?kvs = "map (\<lambda>(k, v). (k, slice_json string_json v)) (sort_key fst al)"
  have doc: "map_json (slice_json string_json) ?p = JObj ?kvs"
    using utf by (auto simp: map_json_def al)
  have "distinct (map fst (sort_key fst al))"
    using g mset_eq_imp_distinct_iff [of "map fst (sort_key fst al)" "map fst al"]
    by (simp add: al gwf_def)
  then have "distinct (map fst ?kvs)" by (simp add: comp_def case_prod_beta)
  then have "is_user_allowed_check scalar (UserSpec_json u) (ModelSpec_json m)
      = list_all (\<lambda>(k, vs). attribute_allowed (UserSpec_json u) (JStr k) (slice_json string_json vs))
          (sort_key fst al)"
    by (simp add: is_user_allowed_check_def model_fields policy_fields doc insert_all_fresh
        list_all_iff case_prod_beta)
  also have "\<dots> = abac u m"
    unfolding abac_def al entries.simps list_all_iff set_sort
    using attribute_allowed_spec [OF u] utf by (intro ball_cong) auto
  finally show ?thesis .
qed

end
