(* ===== verification/GoConv.thy ===== *)
theory GoConv
  imports Complex_Main JsonEncode GoData
begin

text \<open>
  What the program uses of \<open>strconv\<close>, \<open>fmt\<close> and \<open>strings\<close> beyond plain concatenation: 64-bit
  floats as values with IEEE comparison, the \<open>%q\<close> verb and \<open>strings.Join\<close>.
\<close>

section \<open>Floats\<close>

text \<open>
  A finite float stands for the rational it denotes (the sign of zero does not matter to any
  comparison); every comparison with a NaN is false. \<open>ParseFloat\<close>, the correctly rounded
  conversion of text, is an argument of the definitions that use it.
\<close>

datatype float64 = F_NaN | F_NegInf | F_Fin rat | F_PosInf

type_synonym parse_float = "string \<Rightarrow> float64 result"

instantiation float64 :: ord
begin

definition less_float64 :: "float64 \<Rightarrow> float64 \<Rightarrow> bool" where
  "less_float64 x y =
     (case (x, y) of
        (F_NaN, _) \<Rightarrow> False | (_, F_NaN) \<Rightarrow> False
      | (F_Fin a, F_Fin b) \<Rightarrow> a < b
      | (F_NegInf, _) \<Rightarrow> y \<noteq> F_NegInf
      | (_, F_PosInf) \<Rightarrow> x \<noteq> F_PosInf
      | _ \<Rightarrow> False)"

definition less_eq_float64 :: "float64 \<Rightarrow> float64 \<Rightarrow> bool" where
  "less_eq_float64 x y \<longleftrightarrow> x < y \<or> (x = y \<and> x \<noteq> F_NaN)"

instance ..

end

lemma float64_less_simps [simp]:
  "\<not> x < F_NaN"
  "\<not> F_NaN < x"
  "F_Fin a < F_Fin b \<longleftrightarrow> a < b"
  "F_NegInf < F_Fin a"
  "F_Fin a < F_PosInf"
  "F_NegInf < F_PosInf"
  "\<not> x < F_NegInf"
  "\<not> F_PosInf < x"
  by (cases x; simp add: less_float64_def)+

text \<open>What the documentation of \<open>strconv.ParseFloat\<close> says of the texts that matter below.\<close>

definition parse_float_documented :: "parse_float \<Rightarrow> bool" where
  "parse_float_documented pf \<longleftrightarrow> \<not> is_ok (pf []) \<and> pf ''NaN'' = Inr F_NaN
     \<and> pf ''0'' = Inr (F_Fin 0) \<and> pf ''1'' = Inr (F_Fin 1)"

section \<open>The quoting verb\<close>

definition hex_digits :: "nat \<Rightarrow> nat \<Rightarrow> string" where
  "hex_digits n r = map (\<lambda>i. hexdigit (r div 16 ^ i mod 16)) (rev [0..<n])"

text \<open>
  \<open>strconv.Quote\<close> of one rune: \<open>isprint\<close> is \<open>unicode.IsPrint\<close> on the runes above ASCII.
\<close>

definition go_quote_piece :: "(nat \<Rightarrow> bool) \<Rightarrow> nat \<times> string \<Rightarrow> string" where
  "go_quote_piece isprint rp =
     (let r = fst rp; p = snd rp
      in if ill_formed rp then backslash # CHR ''x'' # hex_digits 2 (byte (hd p))
         else if p = [dquote] \<or> p = [backslash] then backslash # p
         else if 32 \<le> r \<and> r < 127 \<or> 127 < r \<and> isprint r then p
         else if r = 7 then [backslash, CHR ''a''] else if r = 8 then [backslash, CHR ''b'']
         else if r = 12 then [backslash, CHR ''f''] else if r = 10 then [backslash, CHR ''n'']
         else if r = 13 then [backslash, CHR ''r''] else if r = 9 then [backslash, CHR ''t'']
         else if r = 11 then [backslash, CHR ''v'']
         else if r < 32 \<or> r = 127 then backslash # CHR ''x'' # hex_digits 2 r
         else if r < 65536 then backslash # CHR ''u'' # hex_digits 4 r
         else backslash # CHR ''U'' # hex_digits 8 r)"

definition go_quote :: "(nat \<Rightarrow> bool) \<Rightarrow> string \<Rightarrow> string" where
  "go_quote isprint s = dquote # concat (map (go_quote_piece isprint) (runes s)) @ [dquote]"

section \<open>Joining\<close>

fun Join :: "string list \<Rightarrow> string \<Rightarrow> string" where
  "Join [] sep = []"
| "Join [s] sep = s"
| "Join (s # ss) sep = s @ sep @ Join ss sep"

end
