(* ===== verification/Config.thy ===== *)
theory Config
  imports GoConv
begin

text \<open>
  \<open>pkg/config\<close>: the configuration of the server, its defaults, its validation and its loading.
  Reading the file and decoding YAML are arguments (\<open>os.ReadFile\<close>, \<open>yaml.Unmarshal\<close>), and so
  are \<open>strconv.ParseFloat\<close> and \<open>unicode.IsPrint\<close> (the quoting of values in messages).
\<close>

section \<open>Types and constants\<close>

definition ServerName :: string where
  "ServerName = ''llm-d-admin''"

definition CertsDirectory :: string where
  "CertsDirectory = ''certs''"

definition LlmDCAFile :: string where
  "LlmDCAFile = CertsDirectory @ ''/llm-d-ca.pem''"

definition LlmDKeyFile :: string where
  "LlmDKeyFile = CertsDirectory @ ''/llm-d-key.pem''"

definition BaseDirectory :: string where
  "BaseDirectory = CertsDirectory"

record ComponentConfig =
  cc_Type :: string
  cc_Parameters :: "(string, string) gomap"

record AdapterSelectionConfig =
  as_ComponentConfig :: ComponentConfig
  as_AlwaysActive :: bool

record SecureInferenceConfig =
  cfg_APIVersion :: string
  cfg_Kind :: string
  cfg_DataStore :: ComponentConfig
  cfg_PolicyEngine :: ComponentConfig
  cfg_AdapterSelection :: AdapterSelectionConfig
  cfg_Auth :: ComponentConfig

text \<open>\<open>c.Parameters[k]\<close>: the empty string for a missing key or a nil map.\<close>

definition param :: "ComponentConfig \<Rightarrow> string \<Rightarrow> string" where
  "param c k = gget [] (cc_Parameters c) k"

section \<open>Defaults, validation, loading\<close>

definition DefaultConfig :: SecureInferenceConfig where
  "DefaultConfig =
     \<lparr>cfg_APIVersion = ''secure-inference.llm-d.io/v1alpha1'',
      cfg_Kind = ''SecureInferenceConfig'',
      cfg_DataStore = \<lparr>cc_Type = ''memory'', cc_Parameters = NilMap\<rparr>,
      cfg_PolicyEngine = \<lparr>cc_Type = ''opa'', cc_Parameters = NilMap\<rparr>,
      cfg_AdapterSelection =
        \<lparr>as_ComponentConfig = \<lparr>cc_Type = [], cc_Parameters = NilMap\<rparr>, as_AlwaysActive = False\<rparr>,
      cfg_Auth = \<lparr>cc_Type = ''jwt'',
                  cc_Parameters = GoMap [(''publicKeyPath'', ''/etc/ssl/certs/llm-d-ca.pem'')]\<rparr>\<rparr>"

definition store_errs :: "(nat \<Rightarrow> bool) \<Rightarrow> SecureInferenceConfig \<Rightarrow> string list" where
  "store_errs isprint c =
     (let t = cc_Type (cfg_DataStore c)
      in if t = ''memory'' \<or> t = [] then []
         else [''unknown dataStore type: '' @ go_quote isprint t])"

definition engine_errs :: "(nat \<Rightarrow> bool) \<Rightarrow> SecureInferenceConfig \<Rightarrow> string list" where
  "engine_errs isprint c =
     (let t = cc_Type (cfg_PolicyEngine c)
      in if t = ''opa'' \<or> t = [] then []
         else [''unknown policyEngine type: '' @ go_quote isprint t])"

definition auth_errs :: "(nat \<Rightarrow> bool) \<Rightarrow> SecureInferenceConfig \<Rightarrow> string list" where
  "auth_errs isprint c =
     (let t = cc_Type (cfg_Auth c)
      in if t = ''jwt'' \<or> t = [] then
           (if t = ''jwt'' \<and> param (cfg_Auth c) ''publicKeyPath'' = []
            then [''auth type \"jwt\" requires parameter \"publicKeyPath\"''] else [])
         else [''unknown auth type: '' @ go_quote isprint t])"

definition selection_errs ::
    "parse_float \<Rightarrow> (nat \<Rightarrow> bool) \<Rightarrow> SecureInferenceConfig \<Rightarrow> string list" where
  "selection_errs pf isprint c =
     (let sel = as_ComponentConfig (cfg_AdapterSelection c); t = cc_Type sel
      in if t = ''semantic'' then
           (if param sel ''url'' = []
            then [''adapterSelection type \"semantic\" requires parameter \"url\"''] else []) @
           (let v = param sel ''similarityThreshold''
            in if v \<noteq> [] then
                 (case pf v of
                    Inl _ \<Rightarrow> [''adapterSelection parameter \"similarityThreshold\" must be a number: ''
                              @ go_quote isprint v]
                  | Inr _ \<Rightarrow> [])
               else [])
         else if t = [] then []
         else [''unknown adapterSelection type: '' @ go_quote isprint t])"

definition Validate ::
    "parse_float \<Rightarrow> (nat \<Rightarrow> bool) \<Rightarrow> SecureInferenceConfig \<Rightarrow> goerror option" where
  "Validate pf isprint c =
     (let errs = store_errs isprint c @ engine_errs isprint c @ auth_errs isprint c
                 @ selection_errs pf isprint c;
          nl = CHR 0x0A # ''  ''
      in if errs \<noteq> [] then Some (Errorf (''config validation failed:'' @ nl @ Join errs nl))
         else None)"

text \<open>\<open>yaml.Unmarshal\<close> decodes into the defaults: it is given them and returns what they became.\<close>

definition LoadConfig ::
    "(string \<Rightarrow> string result) \<Rightarrow>
     (string \<Rightarrow> SecureInferenceConfig \<Rightarrow> SecureInferenceConfig result) \<Rightarrow>
     string \<Rightarrow> SecureInferenceConfig result" where
  "LoadConfig ReadFile yaml path =
     (case ReadFile path of
        Inl err \<Rightarrow> Inl (Wrap ''reading config file: '' err)
      | Inr data \<Rightarrow>
          (case yaml data DefaultConfig of
             Inl err \<Rightarrow> Inl (Wrap ''parsing config file: '' err)
           | Inr cfg \<Rightarrow> Inr cfg))"

section \<open>What a validated configuration guarantees\<close>

lemma Validate_None_iff:
  "Validate pf isprint c = None \<longleftrightarrow>
     cc_Type (cfg_DataStore c) \<in> {''memory'', []}
     \<and> cc_Type (cfg_PolicyEngine c) \<in> {''opa'', []}
     \<and> (cc_Type (cfg_Auth c) = [] \<or>
        cc_Type (cfg_Auth c) = ''jwt'' \<and> param (cfg_Auth c) ''publicKeyPath'' \<noteq> [])
     \<and> (let sel = as_ComponentConfig (cfg_AdapterSelection c); v = param sel ''similarityThreshold''
        in cc_Type sel = [] \<or>
           cc_Type sel = ''semantic'' \<and> param sel ''url'' \<noteq> [] \<and> (v = [] \<or> is_ok (pf v)))"
  by (simp add: Validate_def store_errs_def engine_errs_def auth_errs_def selection_errs_def
      Let_def is_ok_def split: if_splits sum.splits)

lemma Validate_DefaultConfig: "Validate pf isprint DefaultConfig = None"
  by (simp add: Validate_None_iff DefaultConfig_def param_def gget_def glookup_def Let_def)

end
