(* ===== verification/PolicyEngine.thy ===== *)
theory PolicyEngine
  imports Rego Config
begin

text \<open>
  \<open>pkg/policyengine\<close>: the interface, with its contract as a locale, and the implementation over
  Open Policy Agent. Preparing a query of the embedded policy is an argument; a prepared query
  maps the input document to a list of results, each with the values of its expressions. That
  the library evaluates the policy as Rego prescribes is the hypothesis \<open>opa_conforms\<close>.
\<close>

section \<open>The interface\<close>

record PolicyEngine =
  CheckAccess :: "UserSpec ptr \<Rightarrow> ModelSpec ptr \<Rightarrow> bool result outcome"
  GetAllowedModels :: "UserSpec ptr \<Rightarrow> ModelSpec ptr list \<Rightarrow> ModelSpec ptr list result outcome"

text \<open>
  What a client relies on: the engine decides some relation between users and models, on the
  specs the API server admits, and filters lists of models with distinct ids by it.
\<close>

locale policy_engine =
  fixes E :: PolicyEngine and permits :: "UserSpec \<Rightarrow> ModelSpec \<Rightarrow> bool"
  assumes CheckAccess_eq: "good_user u \<Longrightarrow> good_model m \<Longrightarrow>
        CheckAccess E (Some u) (Some m) = Some (Inr (permits u m))"
    and GetAllowedModels_eq: "good_user u \<Longrightarrow> list_all good_model ms \<Longrightarrow> distinct (map m_Id ms) \<Longrightarrow>
        GetAllowedModels E (Some u) (map Some ms) = Some (Inr (map Some (filter (permits u) ms)))"
begin

lemma allowed_models_sound:
  assumes "good_user u" and "list_all good_model ms" and "distinct (map m_Id ms)"
    and "GetAllowedModels E (Some u) (map Some ms) = Some (Inr ps)"
  shows "p \<in> set ps \<Longrightarrow> \<exists>m \<in> set ms. p = Some m \<and> permits u m"
    and "distinct (map (m_Id \<circ> the) ps)"
proof -
  have ps: "ps = map Some (filter (permits u) ms)"
    using GetAllowedModels_eq [OF assms(1-3)] assms(4) by simp
  then show "p \<in> set ps \<Longrightarrow> \<exists>m \<in> set ms. p = Some m \<and> permits u m" by auto
  show "distinct (map (m_Id \<circ> the) ps)"
    using assms(3) by (simp add: ps comp_def distinct_map_filter)
qed

text \<open>The two operations agree.\<close>

lemma allowed_iff_check:
  assumes "good_user u" and "list_all good_model ms" and "distinct (map m_Id ms)" and "m \<in> set ms"
    and "GetAllowedModels E (Some u) (map Some ms) = Some (Inr ps)"
  shows "Some m \<in> set ps \<longleftrightarrow> CheckAccess E (Some u) (Some m) = Some (Inr True)"
proof -
  have "ps = map Some (filter (permits u) ms)"
    using GetAllowedModels_eq [OF assms(1-3)] assms(5) by simp
  moreover have "good_model m" using assms(2,4) by (auto simp: list_all_iff)
  ultimately show ?thesis using CheckAccess_eq [OF assms(1)] assms(4) by auto
qed

end

section \<open>The OPA engine\<close>

type_synonym opa_eval = "json \<Rightarrow> json list list result"
type_synonym opa_prepare = "string \<Rightarrow> opa_eval result"

record OPAEngine =
  checkAccessQuery :: opa_eval
  allowedModelsQuery :: opa_eval

definition NewOPAEngine :: "opa_prepare \<Rightarrow> OPAEngine result" where
  "NewOPAEngine prepare =
     (case prepare ''data.auth.is_user_allowed'' of
        Inl err \<Rightarrow> Inl (Wrap ''failed to prepare check access query: '' err)
      | Inr cq \<Rightarrow>
          (case prepare ''data.auth.allowed_models'' of
             Inl err \<Rightarrow> Inl (Wrap ''failed to prepare allowed models query: '' err)
           | Inr aq \<Rightarrow> Inr \<lparr>checkAccessQuery = cq, allowedModelsQuery = aq\<rparr>))"

text \<open>The \<open>%T\<close> verb on a decoded document.\<close>

fun go_type :: "json \<Rightarrow> string" where
  "go_type JNull = ''<nil>''"
| "go_type (JBool _) = ''bool''"
| "go_type (JNum _) = ''json.Number''"
| "go_type (JStr _) = ''string''"
| "go_type (JArr _) = ''[]interface {}''"
| "go_type (JObj _) = ''map[string]interface {}''"

text \<open>\<open>results[0].Expressions[0].Value\<close>: an index out of range panics.\<close>

definition first_value :: "json list list \<Rightarrow> json outcome" where
  "first_value results =
     (case results of (v # _) # _ \<Rightarrow> Some v | _ \<Rightarrow> None)"

definition OPA_CheckAccess ::
    "OPAEngine \<Rightarrow> UserSpec ptr \<Rightarrow> ModelSpec ptr \<Rightarrow> bool result outcome" where
  "OPA_CheckAccess e user model =
     (let input = JObj [(''user_obj'', ptr_json UserSpec_json user),
                        (''model_obj'', ptr_json ModelSpec_json model)]
      in case checkAccessQuery e input of
           Inl err \<Rightarrow> Some (Inl (Wrap ''failed to evaluate policy: '' err))
         | Inr results \<Rightarrow>
             if results = [] then Some (Inl (Errorf ''no results from policy evaluation''))
             else do { v \<leftarrow> first_value results;
                       case v of JBool allowed \<Rightarrow> Some (Inr allowed)
                       | _ \<Rightarrow> Some (Inl (Errorf (''unexpected result type: '' @ go_type v))) })"

text \<open>The ids in a result set, which the library returns as an object or as an array.\<close>

definition result_ids :: "json \<Rightarrow> string list result" where
  "result_ids v =
     (case v of
        JObj kvs \<Rightarrow> Inr (map fst kvs)
      | JArr vs \<Rightarrow> Inr (List.map_filter (\<lambda>item. case item of JStr s \<Rightarrow> Some s | _ \<Rightarrow> None) vs)
      | _ \<Rightarrow> Inl (Errorf (''unexpected result type: '' @ go_type v)))"

definition OPA_GetAllowedModels ::
    "OPAEngine \<Rightarrow> UserSpec ptr \<Rightarrow> ModelSpec list \<Rightarrow> string list result outcome" where
  "OPA_GetAllowedModels e user models =
     (let input = JObj [(''user_obj'', ptr_json UserSpec_json user),
                        (''model_objs'', JArr (map ModelSpec_json models))]
      in case allowedModelsQuery e input of
           Inl err \<Rightarrow> Some (Inl (Wrap ''failed to evaluate policy: '' err))
         | Inr results \<Rightarrow>
             if results = [] then Some (Inr [])
             else do { v \<leftarrow> first_value results; Some (result_ids v) })"

text \<open>\<open>opa.Engine\<close>.\<close>

definition Engine_CheckAccess ::
    "OPAEngine \<Rightarrow> UserSpec ptr \<Rightarrow> ModelSpec ptr \<Rightarrow> bool result outcome" where
  "Engine_CheckAccess e user model =
     do { r \<leftarrow> OPA_CheckAccess e user model;
          case r of Inl err \<Rightarrow> Some (Inl (Wrap ''policy evaluation failed: '' err))
          | Inr allowed \<Rightarrow> Some (Inr allowed) }"

text \<open>The loops of \<open>GetAllowedModels\<close>: both dereference every model.\<close>

primrec flatten_models :: "ModelSpec ptr list \<Rightarrow> ModelSpec list outcome" where
  "flatten_models [] = Some []"
| "flatten_models (p # ps) = do { m \<leftarrow> p; ms \<leftarrow> flatten_models ps; Some (m # ms) }"

primrec keep_allowed :: "string set \<Rightarrow> ModelSpec ptr list \<Rightarrow> ModelSpec ptr list outcome" where
  "keep_allowed allowed [] = Some []"
| "keep_allowed allowed (p # ps) =
     do { m \<leftarrow> p; rest \<leftarrow> keep_allowed allowed ps;
          Some (if m_Id m \<in> allowed then p # rest else rest) }"

definition Engine_GetAllowedModels ::
    "OPAEngine \<Rightarrow> UserSpec ptr \<Rightarrow> ModelSpec ptr list \<Rightarrow> ModelSpec ptr list result outcome" where
  "Engine_GetAllowedModels e user models =
     do { flat \<leftarrow> flatten_models models;
          r \<leftarrow> OPA_GetAllowedModels e user flat;
          case r of
            Inl err \<Rightarrow> Some (Inl (Wrap ''policy evaluation failed: '' err))
          | Inr ids \<Rightarrow> do { kept \<leftarrow> keep_allowed (set ids) models; Some (Inr kept) } }"

definition OPA_PolicyEngine :: "OPAEngine \<Rightarrow> PolicyEngine" where
  "OPA_PolicyEngine e =
     \<lparr>CheckAccess = Engine_CheckAccess e, GetAllowedModels = Engine_GetAllowedModels e\<rparr>"

text \<open>\<open>opa.New\<close> and the factory.\<close>

definition opa_New :: "opa_prepare \<Rightarrow> ComponentConfig \<Rightarrow> PolicyEngine result" where
  "opa_New prepare cfg =
     (case NewOPAEngine prepare of
        Inl err \<Rightarrow> Inl (Wrap ''failed to create OPA engine: '' err)
      | Inr e \<Rightarrow> Inr (OPA_PolicyEngine e))"

definition NewPolicyEngineFromConfig :: "opa_prepare \<Rightarrow> ComponentConfig \<Rightarrow> PolicyEngine result" where
  "NewPolicyEngineFromConfig prepare cfg =
     (if cc_Type cfg = ''opa'' \<or> cc_Type cfg = [] then opa_New prepare cfg
      else Inl (Errorf (''unknown policy engine type: '' @ cc_Type cfg)))"

section \<open>The library's conformance, and a library that conforms\<close>

definition opa_conforms :: "(json \<Rightarrow> bool) \<Rightarrow> opa_prepare \<Rightarrow> bool" where
  "opa_conforms scalar prepare \<longleftrightarrow>
     (\<exists>ev. prepare ''data.auth.is_user_allowed'' = Inr ev \<and>
        (\<forall>input. ev input = Inr [[JBool (is_user_allowed scalar input)]]))
     \<and> (\<exists>ev. prepare ''data.auth.allowed_models'' = Inr ev \<and>
        (\<forall>input. \<exists>vs. ev input = Inr [[JArr vs]] \<and> set vs = set (allowed_models scalar input)))"

definition rego_opa :: opa_prepare where
  "rego_opa query =
     (if query = ''data.auth.is_user_allowed''
      then Inr (\<lambda>input. Inr [[JBool (is_user_allowed (\<lambda>_. True) input)]])
      else if query = ''data.auth.allowed_models''
      then Inr (\<lambda>input. Inr [[JArr (remdups (allowed_models (\<lambda>_. True) input))]])
      else Inl (Errorf ''undefined''))"

lemma rego_opa_conforms: "opa_conforms (\<lambda>_. True) rego_opa"
  by (simp add: opa_conforms_def rego_opa_def)

section \<open>The engine implements the access rule\<close>

lemma is_user_allowed_input:
  assumes "good_user u" and "good_model m"
  shows "is_user_allowed scalar (JObj [(''user_obj'', UserSpec_json u), (''model_obj'', ModelSpec_json m)])
         = abac u m"
  using assms by (simp add: is_user_allowed_def dot_JObj is_user_allowed_check_spec)

lemma allowed_models_input:
  assumes "good_user u" and "list_all good_model ms"
  shows "allowed_models scalar
           (JObj [(''user_obj'', UserSpec_json u), (''model_objs'', JArr (map ModelSpec_json ms))])
         = map (\<lambda>m. JStr (m_Id m)) (filter (abac u) ms)"
proof -
  let ?input = "JObj [(''user_obj'', UserSpec_json u), (''model_objs'', JArr (map ModelSpec_json ms))]"
  have id: "allowed_model_id scalar ?input (ModelSpec_json m)
      = (if abac u m then Some (JStr (m_Id m)) else None)" if "m \<in> set ms" for m
  proof -
    from that assms(2) have "good_model m" by (simp add: list_all_iff)
    then show ?thesis
      using is_user_allowed_check_spec [OF assms(1)]
      by (auto simp: allowed_model_id_def dot_JObj model_fields string_json_def good_model_def)
  qed
  have "List.map_filter (allowed_model_id scalar ?input) (map ModelSpec_json ns)
      = map (\<lambda>m. JStr (m_Id m)) (filter (abac u) ns)" if "set ns \<subseteq> set ms" for ns
    using that by (induction ns) (auto simp: id map_filter_simps)
  from this [OF subset_refl] show ?thesis
    by (simp add: allowed_models_def dot_JObj elements_JArr)
qed

lemma flatten_models_map [simp]: "flatten_models (map Some ms) = Some ms"
  by (induction ms) simp_all

lemma keep_allowed_map [simp]:
  "keep_allowed S (map Some ms) = Some (map Some (filter (\<lambda>m. m_Id m \<in> S) ms))"
  by (induction ms) simp_all

lemma map_filter_JStr_set:
  "set (List.map_filter (\<lambda>item. case item of JStr s \<Rightarrow> Some s | _ \<Rightarrow> None) vs) = {s. JStr s \<in> set vs}"
  by (induction vs) (auto simp: map_filter_simps split: json.splits)

locale opa_library =
  fixes scalar :: "json \<Rightarrow> bool" and prepare :: opa_prepare and e :: OPAEngine
  assumes opa_conform: "opa_conforms scalar prepare" and made: "NewOPAEngine prepare = Inr e"
begin

lemma queries:
  "checkAccessQuery e input = Inr [[JBool (is_user_allowed scalar input)]]"
  "\<exists>vs. allowedModelsQuery e input = Inr [[JArr vs]] \<and> set vs = set (allowed_models scalar input)"
  using opa_conform made by (auto simp: opa_conforms_def NewOPAEngine_def)

lemma check_eq:
  "good_user u \<Longrightarrow> good_model m \<Longrightarrow> Engine_CheckAccess e (Some u) (Some m) = Some (Inr (abac u m))"
  by (simp add: Engine_CheckAccess_def OPA_CheckAccess_def Let_def ptr_json_def queries(1)
      first_value_def is_user_allowed_input)

lemma allowed_eq:
  assumes "good_user u" and "list_all good_model ms"
  shows "Engine_GetAllowedModels e (Some u) (map Some ms)
    = Some (Inr (map Some (filter (\<lambda>m. \<exists>m' \<in> set ms. m_Id m' = m_Id m \<and> abac u m') ms)))"
proof -
  let ?input = "JObj [(''user_obj'', UserSpec_json u), (''model_objs'', JArr (map ModelSpec_json ms))]"
  obtain vs where vs: "allowedModelsQuery e ?input = Inr [[JArr vs]]"
      "set vs = set (allowed_models scalar ?input)"
    using queries(2) by blast
  then have "s \<in> {s. JStr s \<in> set vs} \<longleftrightarrow> (\<exists>m \<in> set ms. m_Id m = s \<and> abac u m)" for s
    by (auto simp: allowed_models_input [OF assms])
  then show ?thesis
    by (simp add: Engine_GetAllowedModels_def OPA_GetAllowedModels_def Let_def ptr_json_def vs(1)
        first_value_def result_ids_def map_filter_JStr_set)
qed

end

sublocale opa_library \<subseteq> policy_engine "OPA_PolicyEngine e" abac
proof unfold_locales
  fix u m
  assume "good_user u" and "good_model m"
  then show "CheckAccess (OPA_PolicyEngine e) (Some u) (Some m) = Some (Inr (abac u m))"
    by (simp add: OPA_PolicyEngine_def check_eq)
next
  fix u ms
  assume a: "good_user u" "list_all good_model ms" "distinct (map m_Id ms)"
  then have "(\<exists>m' \<in> set ms. m_Id m' = m_Id m \<and> abac u m') \<longleftrightarrow> abac u m" if "m \<in> set ms" for m
    using that by (auto simp: distinct_map inj_on_def)
  then have "filter (\<lambda>m. \<exists>m' \<in> set ms. m_Id m' = m_Id m \<and> abac u m') ms = filter (abac u) ms"
    by (rule filter_cong [OF refl])
  then show "GetAllowedModels (OPA_PolicyEngine e) (Some u) (map Some ms)
      = Some (Inr (map Some (filter (abac u) ms)))"
    by (simp add: OPA_PolicyEngine_def allowed_eq [OF a(1,2)])
qed

definition rego_engine :: OPAEngine where
  "rego_engine = \<lparr>checkAccessQuery = (\<lambda>input. Inr [[JBool (is_user_allowed (\<lambda>_. True) input)]]),
     allowedModelsQuery = (\<lambda>input. Inr [[JArr (remdups (allowed_models (\<lambda>_. True) input))]])\<rparr>"

lemma rego_engine_made: "NewOPAEngine rego_opa = Inr rego_engine"
  by (simp add: NewOPAEngine_def rego_opa_def rego_engine_def)

interpretation rego: opa_library "\<lambda>_. True" rego_opa rego_engine
  by unfold_locales (rule rego_opa_conforms rego_engine_made)+

end
