(* ===== verification/Request.thy ===== *)
theory Request
  imports GoConv
begin

text \<open>
  \<open>pkg/types\<close>: Envoy's check request as the program reads it, and its parsing into the
  internal representation of an inference request. A getter of the protobuf messages on a nil
  message returns the zero value, so absent parts of the request read as empty.
\<close>

section \<open>Types\<close>

datatype RequestType =
    RequestTypeCompletion | RequestTypeChatCompletion | RequestTypeListModels | RequestTypeUnknown

record CompletionBody =
  cb_Model :: string
  cb_Prompt :: string

record ChatMessage =
  cm_Role :: string
  cm_Content :: string

record ChatCompletionBody =
  cc_Model :: string
  cc_Messages :: "ChatMessage list"

record InferenceRequest =
  ir_Path :: string
  ir_Type :: RequestType
  ir_ModelID :: string
  ir_Headers :: "(string, string) gomap"
  ir_Completion :: "CompletionBody ptr"
  ir_ChatCompletion :: "ChatCompletionBody ptr"

record AuthResult =
  ar_UserID :: string

text \<open>The messages of Envoy's API, with the fields the program reads.\<close>

record HttpRequest =
  hr_Headers :: "(string, string) gomap"
  hr_Body :: string
  hr_Host :: string
  hr_Path :: string

type_synonym AttributeContextRequest = "HttpRequest ptr"
type_synonym AttributeContext = "AttributeContextRequest ptr"
type_synonym CheckRequest = "AttributeContext ptr"

definition GetHttp :: "CheckRequest ptr \<Rightarrow> HttpRequest ptr" where
  "GetHttp request = do { r \<leftarrow> request; attrs \<leftarrow> r; req \<leftarrow> attrs; req }"

definition GetHeaders :: "HttpRequest ptr \<Rightarrow> (string, string) gomap" where
  "GetHeaders h = (case h of None \<Rightarrow> NilMap | Some x \<Rightarrow> hr_Headers x)"

definition GetBody :: "HttpRequest ptr \<Rightarrow> string" where
  "GetBody h = (case h of None \<Rightarrow> [] | Some x \<Rightarrow> hr_Body x)"

section \<open>Decoding a body into a map\<close>

text \<open>
  \<open>json.Unmarshal\<close> into a nil \<open>map[string]any\<close>: \<open>null\<close> leaves it nil, an object's members are
  inserted in document order, anything else is a type error. Every number is converted to a
  float, and one out of range is an error. The values stay documents here: a JSON string is a
  Go \<open>string\<close>, an array an \<open>[]any\<close>, an object a \<open>map[string]any\<close>.
\<close>

fun numbers_ok :: "parse_float \<Rightarrow> json \<Rightarrow> bool" where
  "numbers_ok pf (JNum s) = is_ok (pf s)"
| "numbers_ok pf (JArr vs) = (\<forall>v \<in> set vs. numbers_ok pf v)"
| "numbers_ok pf (JObj kvs) = (\<forall>kv \<in> set kvs. numbers_ok pf (snd kv))"
| "numbers_ok pf v = True"

text \<open>
  The parts of the standard library that are arguments: the conversion of number literals, and
  the text of the error the decoder returns for an input it refuses.
\<close>

record golib =
  ParseFloat :: parse_float
  JsonError :: "string \<Rightarrow> goerror"

definition json_Unmarshal_map :: "golib \<Rightarrow> string \<Rightarrow> (string, json) gomap result" where
  "json_Unmarshal_map L data =
     (case parse_json data of
        None \<Rightarrow> Inl (JsonError L data)
      | Some v \<Rightarrow>
          (case v of
             JNull \<Rightarrow> Inr NilMap
           | JObj kvs \<Rightarrow>
               if numbers_ok (ParseFloat L) v then Inr (GoMap (insert_all kvs []))
               else Inl (JsonError L data)
           | _ \<Rightarrow> Inl (JsonError L data)))"

text \<open>\<open>s, _ := v.(string)\<close> on a member, and the nested map of a message.\<close>

definition as_string :: "json option \<Rightarrow> string option" where
  "as_string v = (case v of Some (JStr s) \<Rightarrow> Some s | _ \<Rightarrow> None)"

definition string_member :: "(string, json) gomap \<Rightarrow> string \<Rightarrow> string" where
  "string_member m k = (case as_string (glookup m k) of None \<Rightarrow> [] | Some s \<Rightarrow> s)"

section \<open>Parsing\<close>

definition pathCompletions :: string where "pathCompletions = ''/v1/completions''"
definition pathChatCompletions :: string where "pathChatCompletions = ''/v1/chat/completions''"
definition pathModels :: string where "pathModels = ''/v1/models''"
definition headerPath :: string where "headerPath = '':path''"

definition request_type :: "string \<Rightarrow> RequestType" where
  "request_type path =
     (if path = pathCompletions then RequestTypeCompletion
      else if path = pathChatCompletions then RequestTypeChatCompletion
      else if path = pathModels then RequestTypeListModels
      else RequestTypeUnknown)"

text \<open>The loop over \<open>bodyMap["messages"]\<close>: elements that are not objects are skipped.\<close>

primrec chat_messages :: "json list \<Rightarrow> ChatMessage list \<Rightarrow> ChatMessage list" where
  "chat_messages [] acc = acc"
| "chat_messages (m # ms) acc =
     (case m of
        JObj kvs \<Rightarrow>
          (let msg = GoMap (insert_all kvs [])
           in chat_messages ms
                (acc @ [\<lparr>cm_Role = string_member msg ''role'', cm_Content = string_member msg ''content''\<rparr>]))
      | _ \<Rightarrow> chat_messages ms acc)"

definition ParseCheckRequest :: "golib \<Rightarrow> CheckRequest ptr \<Rightarrow> InferenceRequest result" where
  "ParseCheckRequest L request =
     (let headers = GetHeaders (GetHttp request)
      in case glookup headers headerPath of
           None \<Rightarrow> Inl (Errorf (''missing '' @ headerPath @ '' header''))
         | Some path \<Rightarrow>
             (let ir = \<lparr>ir_Path = path, ir_Type = request_type path, ir_ModelID = [],
                        ir_Headers = headers, ir_Completion = None, ir_ChatCompletion = None\<rparr>
              in if ir_Type ir = RequestTypeUnknown then Inr ir
                 else if ir_Type ir = RequestTypeCompletion \<or> ir_Type ir = RequestTypeChatCompletion
                 then (case json_Unmarshal_map L (GetBody (GetHttp request)) of
                         Inl err \<Rightarrow> Inl (Wrap ''invalid request body: '' err)
                       | Inr bodyMap \<Rightarrow>
                           (let ir = ir\<lparr>ir_ModelID := string_member bodyMap ''model''\<rparr>
                            in if ir_Type ir = RequestTypeCompletion
                               then Inr (ir\<lparr>ir_Completion :=
                                      Some \<lparr>cb_Model = ir_ModelID ir,
                                            cb_Prompt = string_member bodyMap ''prompt''\<rparr>\<rparr>)
                               else Inr (ir\<lparr>ir_ChatCompletion :=
                                      Some \<lparr>cc_Model = ir_ModelID ir,
                                            cc_Messages =
                                              (case glookup bodyMap ''messages'' of
                                                 Some (JArr msgs) \<Rightarrow> chat_messages msgs []
                                               | _ \<Rightarrow> [])\<rparr>\<rparr>)))
                 else Inr ir))"

text \<open>The loop of \<open>PromptText\<close>, from the last message down.\<close>

fun last_user :: "ChatMessage list \<Rightarrow> nat \<Rightarrow> string" where
  "last_user msgs 0 = []"
| "last_user msgs (Suc i) =
     (if cm_Role (msgs ! i) = ''user'' then cm_Content (msgs ! i) else last_user msgs i)"

definition PromptText :: "InferenceRequest \<Rightarrow> string" where
  "PromptText ir =
     (case ir_Type ir of
        RequestTypeCompletion \<Rightarrow>
          (case ir_Completion ir of Some c \<Rightarrow> cb_Prompt c | None \<Rightarrow> [])
      | RequestTypeChatCompletion \<Rightarrow>
          (case ir_ChatCompletion ir of
             Some c \<Rightarrow> last_user (cc_Messages c) (length (cc_Messages c))
           | None \<Rightarrow> [])
      | _ \<Rightarrow> [])"

section \<open>What parsing yields\<close>

lemma request_type_iff:
  "request_type path = RequestTypeCompletion \<longleftrightarrow> path = pathCompletions"
  "request_type path = RequestTypeChatCompletion \<longleftrightarrow> path = pathChatCompletions"
  "request_type path = RequestTypeListModels \<longleftrightarrow> path = pathModels"
  by (simp_all add: request_type_def pathCompletions_def pathChatCompletions_def pathModels_def)

lemma request_type_unknown:
  "request_type path = RequestTypeUnknown \<longleftrightarrow>
     path \<notin> {pathCompletions, pathChatCompletions, pathModels}"
  by (simp add: request_type_def)

lemma ParseCheckRequest_fields:
  assumes "ParseCheckRequest L request = Inr ir"
  shows "ir_Headers ir = GetHeaders (GetHttp request)"
    and "glookup (ir_Headers ir) headerPath = Some (ir_Path ir)"
    and "ir_Type ir = request_type (ir_Path ir)"
  using assms
  by (auto simp: ParseCheckRequest_def Let_def split: option.splits sum.splits if_splits)

text \<open>The last message of the user, if there is one.\<close>

lemma last_user_spec:
  "n \<le> length msgs \<Longrightarrow>
     last_user msgs n = (case rev (filter (\<lambda>m. cm_Role m = ''user'') (take n msgs)) of
        [] \<Rightarrow> [] | m # _ \<Rightarrow> cm_Content m)"
  by (induction n) (simp_all add: take_Suc_conv_app_nth)

lemma chat_messages_append: "chat_messages ms acc = acc @ chat_messages ms []"
proof (induction ms arbitrary: acc)
  case (Cons m ms)
  show ?case
  proof (cases m)
    case (JObj kvs)
    let ?x = "\<lparr>cm_Role = string_member (GoMap (insert_all kvs [])) ''role'',
               cm_Content = string_member (GoMap (insert_all kvs [])) ''content''\<rparr>"
    show ?thesis
      using Cons [of "acc @ [?x]"] Cons [of "[?x]"] by (simp add: JObj Let_def)
  qed (simp_all, (rule Cons)+)
qed simp

text \<open>Parsing back what a client printed: the body as a document.\<close>

lemma Unmarshal_print:
  assumes "json_ok d (JObj kvs)" and "d \<le> maxNestingDepth" and "numbers_ok (ParseFloat L) (JObj kvs)"
    and "distinct (map fst kvs)"
  shows "json_Unmarshal_map L (print_json (JObj kvs)) = Inr (GoMap kvs)"
  using insert_all_distinct [of "[]" kvs] assms
  by (simp add: json_Unmarshal_map_def parse_print [OF assms(1,2)] del: print_json.simps)

end
