(* ===== verification/Auth.thy ===== *)
theory Auth
  imports Request Config
begin

text \<open>
  \<open>pkg/auth\<close>: the authenticator interface with its contract, the loading of the RSA public key,
  the validation of a JSON web token, and the bearer-token authenticator. Reading files, PEM,
  X.509 and the token library are arguments (\<open>crypto\<close>); \<open>gojwt_conforms\<close> states what the token
  library documents of \<open>ParseWithClaims\<close>.
\<close>

section \<open>The interface\<close>

record Authenticator =
  Authenticate :: "InferenceRequest \<Rightarrow> AuthResult result"

text \<open>
  The headers identify at most one user, and authentication succeeds exactly when they do.
\<close>

locale authenticator =
  fixes A :: Authenticator and identifies :: "(string, string) gomap \<Rightarrow> string \<Rightarrow> bool"
  assumes Authenticate_iff: "Authenticate A ir = Inr r \<longleftrightarrow> identifies (ir_Headers ir) (ar_UserID r)"
begin

lemma identity_unique:
  assumes "identifies h u" and "identifies h v"
  shows "u = v"
proof -
  let ?ir = "\<lparr>ir_Path = [], ir_Type = RequestTypeUnknown, ir_ModelID = [], ir_Headers = h,
              ir_Completion = None, ir_ChatCompletion = None\<rparr>"
  have "Authenticate A ?ir = Inr \<lparr>ar_UserID = u\<rparr>" "Authenticate A ?ir = Inr \<lparr>ar_UserID = v\<rparr>"
    using assms by (simp_all add: Authenticate_iff)
  then show ?thesis by simp
qed

lemma authentication_fails_iff:
  "(\<exists>e. Authenticate A ir = Inl e) \<longleftrightarrow> (\<forall>u. \<not> identifies (ir_Headers ir) u)"
proof (cases "Authenticate A ir")
  case (Inl e)
  have "\<not> identifies (ir_Headers ir) u" for u
    using Authenticate_iff [of ir "\<lparr>ar_UserID = u\<rparr>"] Inl by simp
  with Inl show ?thesis by blast
next
  case (Inr r)
  then show ?thesis using Authenticate_iff [of ir r] by auto
qed

text \<open>Only the headers matter: two requests with the same headers authenticate alike.\<close>

lemma same_headers_same_user:
  assumes "ir_Headers ir = ir_Headers ir'" and "Authenticate A ir = Inr r"
  shows "Authenticate A ir' = Inr r"
  using assms by (simp add: Authenticate_iff)

end

section \<open>Claims, tokens, keys\<close>

record RegisteredClaims =
  rc_Issuer :: string
  rc_Subject :: string
  rc_ExpiresAt :: "int option"
  rc_NotBefore :: "int option"
  rc_IssuedAt :: "int option"

record UserClaims =
  uc_Username :: string
  uc_Role :: string
  uc_Organization :: string
  uc_RegisteredClaims :: RegisteredClaims

text \<open>
  A parsed token: its signing method (the RSA family, or another, each with the \<open>alg\<close> text of
  its header), the claims value it was decoded into, and the flag set once it is verified.
\<close>

datatype signing_method = SigningMethodRSA string | OtherMethod string

datatype token_claims = IsUserClaims UserClaims | OtherClaims

record token =
  tk_Method :: signing_method
  tk_Claims :: token_claims
  tk_Valid :: bool

primrec alg :: "signing_method \<Rightarrow> string" where
  "alg (SigningMethodRSA a) = a"
| "alg (OtherMethod a) = a"

datatype 'k public_key = RSAPublicKey 'k | OtherPublicKey

text \<open>
  The fields of an \<open>x509.Certificate\<close> the program sets or reads; \<open>ct_PublicKey\<close> is
  \<open>OtherPublicKey\<close> also for nil. Times are in nanoseconds.
\<close>

datatype ext_key_usage = ExtKeyUsageServerAuth | ExtKeyUsageClientAuth

record 'k Certificate =
  ct_Raw :: string
  ct_PublicKey :: "'k public_key"
  ct_SerialNumber :: int
  ct_CommonName :: string
  ct_NotBefore :: int
  ct_NotAfter :: int
  ct_IsCA :: bool
  ct_BasicConstraintsValid :: bool
  ct_PermittedDNSDomains :: "string slice"
  ct_DNSNames :: "string slice"
  ct_KeyUsage :: nat
  ct_ExtKeyUsage :: "ext_key_usage list"

type_synonym 'k keyfunc = "token \<Rightarrow> 'k result"

record 'k crypto =
  ReadFile :: "string \<Rightarrow> string result"
  pem_Decode :: "string \<Rightarrow> (string \<times> string) option"
  ParseCertificate :: "string \<Rightarrow> 'k Certificate result"
  ParsePKIXPublicKey :: "string \<Rightarrow> 'k public_key result"
  ParseWithClaims :: "string \<Rightarrow> 'k keyfunc \<Rightarrow> token result"

section \<open>Keys and tokens\<close>

definition LoadPublicKey :: "('k, 'z) crypto_scheme \<Rightarrow> string \<Rightarrow> 'k result" where
  "LoadPublicKey C filePath =
     (case ReadFile C filePath of
        Inl err \<Rightarrow> Inl (Wrap ''failed to read certificate/public key file: '' err)
      | Inr certData \<Rightarrow>
          (case pem_Decode C certData of
             None \<Rightarrow> Inl (Errorf ''invalid PEM block'')
           | Some (ty, bytes) \<Rightarrow>
               if ty = ''CERTIFICATE'' then
                 (case ParseCertificate C bytes of
                    Inl err \<Rightarrow> Inl (Wrap ''failed to parse certificate: '' err)
                  | Inr cert \<Rightarrow>
                      (case ct_PublicKey cert of
                         RSAPublicKey k \<Rightarrow> Inr k
                       | OtherPublicKey \<Rightarrow>
                           Inl (Errorf ''certificate does not contain an RSA public key'')))
               else if ty = ''PUBLIC KEY'' \<or> ty = ''RSA PUBLIC KEY'' then
                 (case ParsePKIXPublicKey C bytes of
                    Inl err \<Rightarrow> Inl (Wrap ''failed to parse public key: '' err)
                  | Inr (RSAPublicKey k) \<Rightarrow> Inr k
                  | Inr OtherPublicKey \<Rightarrow> Inl (Errorf ''not an RSA public key''))
               else Inl (Errorf (''unsupported PEM block type: '' @ ty))))"

definition jwt_keyfunc :: "'k \<Rightarrow> 'k keyfunc" where
  "jwt_keyfunc publicKey tok =
     (case tk_Method tok of
        SigningMethodRSA _ \<Rightarrow> Inr publicKey
      | OtherMethod a \<Rightarrow> Inl (Errorf (''unexpected signing method: '' @ a)))"

definition ValidateJWTWithKey :: "('k, 'z) crypto_scheme \<Rightarrow> string \<Rightarrow> 'k \<Rightarrow> UserClaims result" where
  "ValidateJWTWithKey C tokenString publicKey =
     (case ParseWithClaims C tokenString (jwt_keyfunc publicKey) of
        Inl err \<Rightarrow> Inl (Wrap ''failed to parse token: '' err)
      | Inr tok \<Rightarrow>
          if \<not> tk_Valid tok then Inl (Errorf ''invalid token'')
          else (case tk_Claims tok of
                  OtherClaims \<Rightarrow> Inl (Errorf ''invalid claims format'')
                | IsUserClaims claims \<Rightarrow>
                    if rc_Issuer (uc_RegisteredClaims claims) \<noteq> ServerName
                    then Inl (Errorf (''invalid issuer: '' @ rc_Issuer (uc_RegisteredClaims claims)))
                    else Inr claims))"

definition ValidateJWT :: "('k, 'z) crypto_scheme \<Rightarrow> string \<Rightarrow> string \<Rightarrow> UserClaims result" where
  "ValidateJWT C tokenString publicKeyFile =
     (case LoadPublicKey C publicKeyFile of
        Inl err \<Rightarrow> Inl err
      | Inr publicKey \<Rightarrow> ValidateJWTWithKey C tokenString publicKey)"

section \<open>The authenticator\<close>

definition bearer :: string where
  "bearer = ''Bearer''"

definition JWT_Authenticate ::
    "('k, 'z) crypto_scheme \<Rightarrow> 'k \<Rightarrow> InferenceRequest \<Rightarrow> AuthResult result" where
  "JWT_Authenticate C publicKey req =
     (case glookup (ir_Headers req) ''authorization'' of
        None \<Rightarrow> Inl (Errorf ''missing authorization header'')
      | Some authString \<Rightarrow>
          (let authFields = Fields authString
           in if length authFields \<noteq> 2 \<or> authFields ! 0 \<noteq> bearer
              then Inl (Errorf (''invalid authorization header format, expected 'Bearer <token>'' @ [CHR 0x27]))
              else (case ValidateJWTWithKey C (authFields ! 1) publicKey of
                      Inl err \<Rightarrow> Inl (Wrap ''invalid JWT token: '' err)
                    | Inr claims \<Rightarrow> Inr \<lparr>ar_UserID = uc_Username claims\<rparr>)))"

definition JWT_Authenticator :: "('k, 'z) crypto_scheme \<Rightarrow> 'k \<Rightarrow> Authenticator" where
  "JWT_Authenticator C publicKey = \<lparr>Authenticate = JWT_Authenticate C publicKey\<rparr>"

definition jwt_New :: "('k, 'z) crypto_scheme \<Rightarrow> ComponentConfig \<Rightarrow> Authenticator result" where
  "jwt_New C cfg =
     (let keyPath = param cfg ''publicKeyPath''
      in if keyPath = []
         then Inl (Errorf ''jwt authenticator: 'publicKeyPath' parameter is required'')
         else (case LoadPublicKey C keyPath of
                 Inl err \<Rightarrow> Inl (Wrap ''jwt authenticator: failed to load public key: '' err)
               | Inr pubKey \<Rightarrow> Inr (JWT_Authenticator C pubKey)))"

definition NewAuthenticatorFromConfig ::
    "('k, 'z) crypto_scheme \<Rightarrow> ComponentConfig \<Rightarrow> Authenticator result" where
  "NewAuthenticatorFromConfig C cfg =
     (if cc_Type cfg = ''jwt'' \<or> cc_Type cfg = [] then jwt_New C cfg
      else Inl (Errorf (''unknown authenticator type: '' @ cc_Type cfg)))"

section \<open>What the token library documents\<close>

text \<open>
  \<open>ParseWithClaims\<close> decodes the token into the claims it is given, asks the key function for the
  key, verifies the signature with the token's method and that key, and validates the
  registered time claims; it returns no error exactly when all of this succeeds, and then the
  token is marked valid.
\<close>

record 'k jwt_facts =
  jf_decode :: "string \<Rightarrow> (signing_method \<times> UserClaims) option"
  jf_verify :: "signing_method \<Rightarrow> 'k \<Rightarrow> string \<Rightarrow> bool"
  jf_times_ok :: "RegisteredClaims \<Rightarrow> bool"

definition gojwt_conforms :: "'k jwt_facts \<Rightarrow> ('k, 'z) crypto_scheme \<Rightarrow> bool" where
  "gojwt_conforms F C \<longleftrightarrow>
     (\<forall>s kf tok. ParseWithClaims C s kf = Inr tok \<longleftrightarrow>
        (\<exists>m c k. jf_decode F s = Some (m, c)
           \<and> kf \<lparr>tk_Method = m, tk_Claims = IsUserClaims c, tk_Valid = False\<rparr> = Inr k
           \<and> jf_verify F m k s \<and> jf_times_ok F (uc_RegisteredClaims c)
           \<and> tok = \<lparr>tk_Method = m, tk_Claims = IsUserClaims c, tk_Valid = True\<rparr>))"

text \<open>A bearer token of the admin, signed by the key with an RSA method and within its times.\<close>

definition admin_token :: "'k jwt_facts \<Rightarrow> 'k \<Rightarrow> string \<Rightarrow> UserClaims \<Rightarrow> bool" where
  "admin_token F k s c \<longleftrightarrow>
     (\<exists>a. jf_decode F s = Some (SigningMethodRSA a, c) \<and> jf_verify F (SigningMethodRSA a) k s)
     \<and> jf_times_ok F (uc_RegisteredClaims c) \<and> rc_Issuer (uc_RegisteredClaims c) = ServerName"

definition bearer_identity ::
    "'k jwt_facts \<Rightarrow> 'k \<Rightarrow> (string, string) gomap \<Rightarrow> string \<Rightarrow> bool" where
  "bearer_identity F k headers user \<longleftrightarrow>
     (\<exists>auth tok c. glookup headers ''authorization'' = Some auth \<and> Fields auth = [bearer, tok]
        \<and> admin_token F k tok c \<and> uc_Username c = user)"

lemma ValidateJWTWithKey_iff:
  assumes "gojwt_conforms F C"
  shows "ValidateJWTWithKey C s k = Inr c \<longleftrightarrow> admin_token F k s c"
proof
  assume v: "ValidateJWTWithKey C s k = Inr c"
  then obtain tok where p: "ParseWithClaims C s (jwt_keyfunc k) = Inr tok"
      and t: "tk_Claims tok = IsUserClaims c" "rc_Issuer (uc_RegisteredClaims c) = ServerName"
    by (auto simp: ValidateJWTWithKey_def split: sum.splits token_claims.splits if_splits)
  then obtain m k' where "jf_decode F s = Some (m, c)"
      "jwt_keyfunc k \<lparr>tk_Method = m, tk_Claims = IsUserClaims c, tk_Valid = False\<rparr> = Inr k'"
      "jf_verify F m k' s" "jf_times_ok F (uc_RegisteredClaims c)"
    using assms unfolding gojwt_conforms_def by auto
  then show "admin_token F k s c"
    using t by (auto simp: admin_token_def jwt_keyfunc_def split: signing_method.splits)
next
  assume a: "admin_token F k s c"
  then obtain a where a: "jf_decode F s = Some (SigningMethodRSA a, c)"
      "jf_verify F (SigningMethodRSA a) k s" "jf_times_ok F (uc_RegisteredClaims c)"
      "rc_Issuer (uc_RegisteredClaims c) = ServerName"
    by (auto simp: admin_token_def)
  let ?tok = "\<lparr>tk_Method = SigningMethodRSA a, tk_Claims = IsUserClaims c, tk_Valid = True\<rparr>"
  have "ParseWithClaims C s (jwt_keyfunc k) = Inr ?tok"
    using assms a(1-3) unfolding gojwt_conforms_def by (simp add: jwt_keyfunc_def)
  with a(4) show "ValidateJWTWithKey C s k = Inr c" by (simp add: ValidateJWTWithKey_def)
qed

lemma two_elements: "length xs = 2 \<and> xs ! 0 = a \<longleftrightarrow> (\<exists>b. xs = [a, b])"
  by (cases xs; cases "tl xs"; auto)

lemma JWT_Authenticate_iff:
  assumes "gojwt_conforms F C"
  shows "JWT_Authenticate C k ir = Inr r \<longleftrightarrow> bearer_identity F k (ir_Headers ir) (ar_UserID r)"
proof (cases "glookup (ir_Headers ir) ''authorization''")
  case None
  then show ?thesis by (simp add: JWT_Authenticate_def bearer_identity_def)
next
  case (Some auth)
  show ?thesis
  proof (cases "\<exists>tok. Fields auth = [bearer, tok]")
    case True
    then obtain tok where tok: "Fields auth = [bearer, tok]" ..
    have "JWT_Authenticate C k ir = Inr r \<longleftrightarrow>
        (\<exists>c. ValidateJWTWithKey C tok k = Inr c \<and> \<lparr>ar_UserID = uc_Username c\<rparr> = r)"
      by (simp add: JWT_Authenticate_def Some tok split: sum.split)
    then show ?thesis
      by (cases r) (auto simp: ValidateJWTWithKey_iff [OF assms] bearer_identity_def Some tok)
  next
    case False
    then have "length (Fields auth) \<noteq> 2 \<or> Fields auth ! 0 \<noteq> bearer"
      using two_elements [of "Fields auth" bearer] by blast
    with False show ?thesis
      by (simp add: JWT_Authenticate_def bearer_identity_def Some Let_def)
  qed
qed

text \<open>A header with the admin's token names the user of the token's claims, and nobody else.\<close>

lemma bearer_header:
  assumes "word_ascii tok" and "glookup headers ''authorization'' = Some (''Bearer '' @ tok)"
    and "admin_token F k tok c"
  shows "bearer_identity F k headers i \<longleftrightarrow> i = uc_Username c"
proof -
  have "word_ascii bearer" by (simp add: bearer_def word_ascii_def IsSpace_def byte_def)
  moreover have "blank_ascii '' ''" by (simp add: blank_ascii_def IsSpace_def byte_def)
  ultimately have "Fields (bearer @ '' '' @ tok) = bearer # Fields tok"
    by (intro Fields_word_blank) simp_all
  then have "Fields (''Bearer '' @ tok) = [bearer, tok]"
    using Fields_word_end [OF assms(1)] by (simp add: bearer_def)
  then have "bearer_identity F k headers i \<longleftrightarrow> (\<exists>c. admin_token F k tok c \<and> uc_Username c = i)"
    using assms(2) by (simp add: bearer_identity_def)
  moreover have "c' = c" if "admin_token F k tok c'" for c'
    using that assms(3) unfolding admin_token_def by auto
  ultimately show ?thesis using assms(3) by metis
qed

locale jwt_library =
  fixes F :: "'k jwt_facts" and C :: "('k, 'z) crypto_scheme" and k :: 'k
  assumes jwt_conforms: "gojwt_conforms F C"

sublocale jwt_library \<subseteq> authenticator "JWT_Authenticator C k" "bearer_identity F k"
  by unfold_locales (simp add: JWT_Authenticator_def JWT_Authenticate_iff [OF jwt_conforms])

section \<open>A library that conforms\<close>

text \<open>
  Tokens here are the texts of the user's name under a one-letter method, signed by key 1 when
  they begin with \<open>s\<close>: enough to run the authenticator on.
\<close>

definition demo_claims :: "string \<Rightarrow> UserClaims" where
  "demo_claims name =
     \<lparr>uc_Username = name, uc_Role = ''user'', uc_Organization = [],
      uc_RegisteredClaims = \<lparr>rc_Issuer = ServerName, rc_Subject = name, rc_ExpiresAt = Some 86400000000000,
        rc_NotBefore = None, rc_IssuedAt = Some 0\<rparr>\<rparr>"

definition demo_facts :: "nat jwt_facts" where
  "demo_facts =
     \<lparr>jf_decode = (\<lambda>s. case s of c # name \<Rightarrow>
          Some (if c = CHR ''h'' then OtherMethod ''HS256'' else SigningMethodRSA ''RS256'', demo_claims name)
        | [] \<Rightarrow> None),
      jf_verify = (\<lambda>m k s. k = 1 \<and> (\<exists>t. s = CHR ''s'' # t)),
      jf_times_ok = (\<lambda>r. (case rc_ExpiresAt r of None \<Rightarrow> True | Some t \<Rightarrow> 5 < t)
                        \<and> (case rc_NotBefore r of None \<Rightarrow> True | Some t \<Rightarrow> t \<le> 5))\<rparr>"

definition demo_parse :: "string \<Rightarrow> nat keyfunc \<Rightarrow> token result" where
  "demo_parse s kf =
     (case jf_decode demo_facts s of
        None \<Rightarrow> Inl (Errorf ''token is malformed'')
      | Some (m, c) \<Rightarrow>
          (case kf \<lparr>tk_Method = m, tk_Claims = IsUserClaims c, tk_Valid = False\<rparr> of
             Inl e \<Rightarrow> Inl (Wrap ''token is unverifiable: '' e)
           | Inr k \<Rightarrow>
               if jf_verify demo_facts m k s \<and> jf_times_ok demo_facts (uc_RegisteredClaims c)
               then Inr \<lparr>tk_Method = m, tk_Claims = IsUserClaims c, tk_Valid = True\<rparr>
               else Inl (Errorf ''token signature is invalid'')))"

definition demo_crypto :: "nat crypto" where
  "demo_crypto =
     \<lparr>ReadFile = (\<lambda>f. if f \<in> {''/etc/ssl/certs/llm-d-ca.pem'', ''/etc/secure-inference/config.yaml''} then Inr ''pem'' else Inl (Errorf ''no such file'')),
      pem_Decode = (\<lambda>d. if d = ''pem'' then Some (''PUBLIC KEY'', ''1'') else None),
      ParseCertificate = (\<lambda>_. Inl (Errorf ''malformed certificate'')),
      ParsePKIXPublicKey = (\<lambda>b. if b = ''1'' then Inr (RSAPublicKey 1) else Inr OtherPublicKey),
      ParseWithClaims = demo_parse\<rparr>"

lemma demo_conforms: "gojwt_conforms demo_facts demo_crypto"
  by (auto simp: gojwt_conforms_def demo_crypto_def demo_parse_def split: option.splits sum.splits)

interpretation demo_jwt: jwt_library demo_facts demo_crypto 1
  by unfold_locales (rule demo_conforms)

end
