(* ===== verification/JsonStream.thy ===== *)
theory JsonStream
  imports JsonEncode
begin

text \<open>
  \<open>json.Decoder\<close>: reading the first value of a stream. The decoder stops as soon as a value is
  complete and does not look at what follows; a number is complete at the first byte that does
  not continue it, or at the end of the input. Whatever is a whole document is also the first
  value of the stream that holds it.
\<close>

definition top_value :: "scan option \<Rightarrow> json option" where
  "top_value s = (case s of Some (MTop v, _) \<Rightarrow> Some v | _ \<Rightarrow> None)"

definition number_ends :: "char \<Rightarrow> scan \<Rightarrow> bool" where
  "number_ends c s \<longleftrightarrow> (case s of (MNum n raw, []) \<Rightarrow> nstep c n = None \<and> nfinal n | _ \<Rightarrow> False)"

fun json_first :: "string \<Rightarrow> scan \<Rightarrow> json option" where
  "json_first [] s = top_value (step CHR '' '' s)"
| "json_first (c # cs) s =
     (if number_ends c s then (case fst s of MNum n raw \<Rightarrow> Some (JNum raw) | _ \<Rightarrow> None)
      else (case step c s of
              None \<Rightarrow> None
            | Some s' \<Rightarrow>
                (case top_value (Some s') of Some v \<Rightarrow> Some v | None \<Rightarrow> json_first cs s')))"

definition decode_first :: "string \<Rightarrow> json option" where
  "decode_first s = json_first s (MBegin, [])"

lemma run_top: "run cs (MTop v, []) = Some s \<Longrightarrow> s = (MTop v, [])"
  by (induction cs) (auto simp: step_def after_def split: if_splits)

text \<open>When the top-level value is complete, nothing is left on the stack.\<close>

definition top_ok :: "scan \<Rightarrow> bool" where
  "top_ok s \<longleftrightarrow> top_value (Some s) = None \<or> snd s = []"

lemma top_okI: "(\<And>v. fst s = MTop v \<Longrightarrow> snd s = []) \<Longrightarrow> top_ok s"
  by (cases s) (auto simp: top_ok_def top_value_def split: mode.splits)

lemma complete_top [simp]: "top_ok (complete v st)"
  by (cases "(v, st)" rule: complete.cases) (simp_all add: top_ok_def top_value_def)

lemma close_string_top [simp]: "top_ok (close_string raw st)"
  by (cases st) (auto simp: close_string_def split: frame.split intro: top_okI)

lemma after_top: "after c s = Some s' \<Longrightarrow> top_ok s \<Longrightarrow> top_ok s'"
  by (auto simp: after_def split: if_splits mode.splits list.splits frame.splits prod.splits
      intro: top_okI)

lemma begin_value_top: "begin_value c st = Some s' \<Longrightarrow> top_ok s'"
  by (auto simp: begin_value_def push_def split: if_splits intro: top_okI)

lemma step_top:
  assumes "step c s = Some s'" and "top_ok s"
  shows "top_ok s'"
proof -
  have m: "top_ok (m, st)" if "\<And>v. m \<noteq> MTop v" for m st
    using that by (intro top_okI) auto
  show ?thesis
    using assms after_top begin_value_top
    by (auto simp: step_def Let_def m split: mode.splits if_splits option.splits list.splits)
qed

lemma run_top_ok: "run cs s = Some s' \<Longrightarrow> top_ok s \<Longrightarrow> top_ok s'"
  by (induction cs arbitrary: s) (auto split: option.splits dest: step_top)

lemma number_ends_step:
  assumes "number_ends c s" and "step c s = Some s'"
  shows "\<exists>n raw. s = (MNum n raw, []) \<and> s' = (MTop (JNum raw), [])"
  using assms
  by (auto simp: number_ends_def step_def after_def split: prod.splits mode.splits list.splits if_splits)

lemma run_json_first:
  "run cs s = Some y \<Longrightarrow> top_value (step CHR '' '' y) = Some v \<Longrightarrow> top_ok s \<Longrightarrow>
     top_value (Some s) = None \<Longrightarrow> json_first cs s = Some v"
proof (induction cs arbitrary: s)
  case Nil
  then show ?case by simp
next
  case (Cons c cs)
  from Cons.prems(1) obtain s' where s': "step c s = Some s'" "run cs s' = Some y"
    by (auto split: option.splits)
  from step_top [OF s'(1) Cons.prems(3)] have ok: "top_ok s'" .
  have top: "w = v" if w: "s' = (MTop w, [])" for w
  proof -
    from s'(2) w have "y = (MTop w, [])" by (auto dest: run_top)
    with Cons.prems(2) show "w = v" by (simp add: step_def after_def isSpace_def top_value_def)
  qed
  show ?case
  proof (cases "number_ends c s")
    case True
    from number_ends_step [OF this s'(1)] top True show ?thesis by auto
  next
    case False
    show ?thesis
    proof (cases "top_value (Some s')")
      case None
      with Cons.IH [OF s'(2) Cons.prems(2) ok] False s'(1) show ?thesis by simp
    next
      case (Some w)
      then have "s' = (MTop w, [])"
        using ok by (cases s') (auto simp: top_ok_def top_value_def split: mode.splits)
      with top False s'(1) Some show ?thesis by simp
    qed
  qed
qed

lemma parse_decode_first:
  assumes "parse_json s = Some v"
  shows "decode_first s = Some v"
proof -
  from assms obtain st where "run (s @ '' '') (MBegin, []) = Some (MTop v, st)"
    by (auto simp: parse_json_def split: option.splits mode.splits)
  then obtain y where "run s (MBegin, []) = Some y" "step CHR '' '' y = Some (MTop v, st)"
    by (auto simp: run_append split: option.splits)
  then show ?thesis
    unfolding decode_first_def by (intro run_json_first) (auto simp: top_value_def top_ok_def)
qed

lemma decode_first_print:
  "json_ok d v \<Longrightarrow> d \<le> maxNestingDepth \<Longrightarrow> decode_first (print_json v) = Some v"
  by (rule parse_decode_first) (rule parse_print)

text \<open>
  A stream that ends in a read error \<open>err\<close> instead of the end of the input: an object or array
  is complete at its closing byte, any other value only once a further byte was read.
\<close>

definition closed_value :: "json \<Rightarrow> bool" where
  "closed_value v = (case v of JObj _ \<Rightarrow> True | JArr _ \<Rightarrow> True | _ \<Rightarrow> False)"

definition decode_stream :: "string \<Rightarrow> 'e option \<Rightarrow> json option" where
  "decode_stream s err =
     (case decode_first s of
        None \<Rightarrow> None
      | Some v \<Rightarrow>
          if err = None \<or> closed_value v \<or> decode_first (butlast s) = Some v then Some v else None)"

lemma decode_stream_print:
  "json_ok d v \<Longrightarrow> d \<le> maxNestingDepth \<Longrightarrow> closed_value v \<Longrightarrow>
     decode_stream (print_json v) err = Some v"
  by (simp add: decode_stream_def decode_first_print)

end
