(* ===== verification/Selector.thy ===== *)
theory Selector
  imports JsonStream Request ApiTypes Config
begin

text \<open>
  \<open>pkg/adapterselection\<close>: the selector interface with its contract, the semantic selector that
  asks a sidecar over HTTP for the best candidate, the mock, and the factory. Sending the
  request is an argument; the body sent and the decoding of the answer are modelled.
\<close>

section \<open>The interface\<close>

record Selector =
  Pick :: "InferenceRequest \<Rightarrow> ModelSpec ptr list \<Rightarrow> (ModelSpec ptr \<times> bool) outcome"

text \<open>
  What the server relies on when it dereferences the selected model: given non-nil models,
  picking does not panic, and a match is one of them.
\<close>

locale selector =
  fixes S :: Selector
  assumes Pick_total: "None \<notin> set ps \<Longrightarrow> \<exists>r. Pick S ir ps = Some r"
    and Pick_member: "None \<notin> set ps \<Longrightarrow> Pick S ir ps = Some (p, True) \<Longrightarrow>
        p \<in> set ps \<and> (\<exists>m. p = Some m \<and> m_Type m = ModelTypeLora \<and> m_BaseModelId m = ir_ModelID ir)"
begin

lemma Pick_not_nil: "None \<notin> set ps \<Longrightarrow> Pick S ir ps \<noteq> Some (None, True)"
  using Pick_member by fastforce

lemma Pick_cases:
  assumes "None \<notin> set ps"
  obtains (matched) m where "Pick S ir ps = Some (Some m, True)" "Some m \<in> set ps"
      "m_Type m = ModelTypeLora" "m_BaseModelId m = ir_ModelID ir"
    | (unmatched) p where "Pick S ir ps = Some (p, False)"
proof -
  obtain p b where r: "Pick S ir ps = Some (p, b)" using Pick_total [OF assms, of ir] by auto
  show ?thesis
  proof (cases b)
    case True
    with r have r': "Pick S ir ps = Some (p, True)" by simp
    from Pick_member [OF assms r'] r' matched show ?thesis by blast
  next
    case False
    with r unmatched show ?thesis by simp
  qed
qed

end

section \<open>The semantic selector\<close>

record candidate =
  ca_ModelID :: string
  ca_Descriptions :: "string slice"

record pickResponse =
  pr_ModelID :: string
  pr_Score :: float64

record SemanticSelector =
  sel_url :: string
  sel_threshold :: float64

definition pickEndpoint :: string where
  "pickEndpoint = ''/pick''"

text \<open>
  The HTTP client: building a request may fail, sending it may fail, and the answer has a status
  code and a body, whose reading may end in an error instead of the end of the stream.
\<close>

record http_response =
  rs_StatusCode :: nat
  rs_Body :: string
  rs_ReadError :: "goerror option"

record http_client =
  NewRequest :: "string \<Rightarrow> string \<Rightarrow> goerror option"
  Do :: "string \<Rightarrow> string \<Rightarrow> http_response result"

definition default_threshold :: float64 where
  "default_threshold = F_Fin (3152519739159347 / 4503599627370496)"

definition semantic_New ::
    "golib \<Rightarrow> (nat \<Rightarrow> bool) \<Rightarrow> ComponentConfig \<Rightarrow> SemanticSelector result" where
  "semantic_New L isprint cfg =
     (let url = param cfg ''url''
      in if url = [] then Inl (Errorf ''adapter selection semantic: 'url' parameter is required'')
         else case glookup (cc_Parameters cfg) ''similarityThreshold'' of
                None \<Rightarrow> Inr \<lparr>sel_url = url, sel_threshold = default_threshold\<rparr>
              | Some t \<Rightarrow>
                  (case ParseFloat L t of
                     Inl err \<Rightarrow> Inl (Wrap (''adapter selection semantic: invalid similarityThreshold ''
                                           @ go_quote isprint t @ '': '') err)
                   | Inr parsed \<Rightarrow> Inr \<lparr>sel_url = url, sel_threshold = parsed\<rparr>))"

subsection \<open>The request\<close>

text \<open>The loop over the allowed models; each is dereferenced.\<close>

primrec gather_candidates ::
    "string \<Rightarrow> ModelSpec ptr list \<Rightarrow> (string, ModelSpec ptr) gomap \<Rightarrow> candidate list
      \<Rightarrow> ((string, ModelSpec ptr) gomap \<times> candidate list) outcome" where
  "gather_candidates base [] modelByID cands = Some (modelByID, cands)"
| "gather_candidates base (p # ps) modelByID cands =
     do { m \<leftarrow> p;
          if m_Type m \<noteq> ModelTypeLora \<or> m_BaseModelId m \<noteq> base
          then gather_candidates base ps modelByID cands
          else if length (elems (sp_Descriptions (m_SelectionPolicy m))) = 0
          then gather_candidates base ps modelByID cands
          else do { modelByID' \<leftarrow> gset (m_Id m) p modelByID;
                    gather_candidates base ps modelByID'
                      (cands @ [\<lparr>ca_ModelID = m_Id m,
                                ca_Descriptions = sp_Descriptions (m_SelectionPolicy m)\<rparr>]) } }"

text \<open>The JSON body; the encoder writes strings as valid UTF-8.\<close>

definition candidate_json :: "candidate \<Rightarrow> json" where
  "candidate_json c =
     JObj [(''model_id'', string_json (ca_ModelID c)),
           (''descriptions'', slice_json string_json (ca_Descriptions c))]"

definition pickRequest_json :: "string \<Rightarrow> candidate list \<Rightarrow> json" where
  "pickRequest_json prompt cands =
     JObj [(''prompt'', string_json prompt), (''candidates'', JArr (map candidate_json cands))]"

definition pick_body :: "string \<Rightarrow> candidate list \<Rightarrow> string" where
  "pick_body prompt cands = print_json (pickRequest_json prompt cands)"

subsection \<open>The answer\<close>

text \<open>
  The decoder finds a struct field by its name, or else by its name up to case folding, which
  also identifies the long s and the Kelvin sign with s and k.
\<close>

definition fold_rune :: "nat \<Rightarrow> nat" where
  "fold_rune r = (if 97 \<le> r \<and> r \<le> 122 then r - 32 else if r = 383 then 83
                  else if r = 8490 then 75 else r)"

definition fold_name :: "string \<Rightarrow> nat list" where
  "fold_name s = map (fold_rune \<circ> fst) (runes s)"

text \<open>
  One member: null leaves the field as it is, a value of the wrong type or a number out of range
  is an error, which is kept while decoding goes on.
\<close>

definition decode_member ::
    "golib \<Rightarrow> string \<times> json \<Rightarrow> pickResponse \<times> bool \<Rightarrow> pickResponse \<times> bool" where
  "decode_member L kv s =
     (case (kv, s) of ((k, v), (r, ok)) \<Rightarrow>
        if fold_name k = fold_name ''model_id'' then
          (case v of JNull \<Rightarrow> (r, ok) | JStr t \<Rightarrow> (r\<lparr>pr_ModelID := t\<rparr>, ok) | _ \<Rightarrow> (r, False))
        else if fold_name k = fold_name ''score'' then
          (case v of JNull \<Rightarrow> (r, ok)
           | JNum n \<Rightarrow> (case ParseFloat L n of Inl _ \<Rightarrow> (r, False) | Inr f \<Rightarrow> (r\<lparr>pr_Score := f\<rparr>, ok))
           | _ \<Rightarrow> (r, False))
        else (r, ok))"

definition decode_pickResponse :: "golib \<Rightarrow> http_response \<Rightarrow> pickResponse option" where
  "decode_pickResponse L resp =
     (let zero = \<lparr>pr_ModelID = [], pr_Score = F_Fin 0\<rparr>
      in case decode_stream (rs_Body resp) (rs_ReadError resp) of
           None \<Rightarrow> None
         | Some JNull \<Rightarrow> Some zero
         | Some (JObj kvs) \<Rightarrow>
             (case fold (decode_member L) kvs (zero, True) of (r, ok) \<Rightarrow> if ok then Some r else None)
         | Some _ \<Rightarrow> None)"

text \<open>\<open>Pick\<close>: every failure is \<open>(nil, false)\<close>. A read error matters when no value is complete.\<close>

definition Semantic_Pick ::
    "golib \<Rightarrow> http_client \<Rightarrow> SemanticSelector \<Rightarrow> InferenceRequest \<Rightarrow> ModelSpec ptr list
      \<Rightarrow> (ModelSpec ptr \<times> bool) outcome" where
  "Semantic_Pick L H s req allowedModels =
     (let promptText = PromptText req
      in if promptText = [] then Some (None, False)
         else do {
           (modelByID, cands) \<leftarrow> gather_candidates (ir_ModelID req) allowedModels gmake [];
           if length cands = 0 then Some (None, False)
           else
             (let body = pick_body promptText cands; sidecarURL = sel_url s @ pickEndpoint
              in case NewRequest H sidecarURL body of
                   Some _ \<Rightarrow> Some (None, False)
                 | None \<Rightarrow>
                     (case Do H sidecarURL body of
                        Inl _ \<Rightarrow> Some (None, False)
                      | Inr resp \<Rightarrow>
                          if rs_StatusCode resp \<noteq> 200 then Some (None, False)
                          else (case decode_pickResponse L resp of
                                  None \<Rightarrow> Some (None, False)
                                | Some result \<Rightarrow>
                                    if pr_Score result < sel_threshold s then Some (None, False)
                                    else (case glookup modelByID (pr_ModelID result) of
                                            None \<Rightarrow> Some (None, False)
                                          | Some selected \<Rightarrow> Some (selected, True))))) })"

definition Semantic_Selector :: "golib \<Rightarrow> http_client \<Rightarrow> SemanticSelector \<Rightarrow> Selector" where
  "Semantic_Selector L H s = \<lparr>Pick = Semantic_Pick L H s\<rparr>"

section \<open>The mock and the factory\<close>

definition Mock_Selector :: "ModelSpec ptr \<Rightarrow> bool \<Rightarrow> Selector" where
  "Mock_Selector model matched = \<lparr>Pick = (\<lambda>_ _. Some (model, matched))\<rparr>"

definition NewAdapterSelectionFromConfig ::
    "golib \<Rightarrow> (nat \<Rightarrow> bool) \<Rightarrow> http_client \<Rightarrow> AdapterSelectionConfig \<Rightarrow> Selector ptr result" where
  "NewAdapterSelectionFromConfig L isprint H cfg =
     (let c = as_ComponentConfig cfg
      in if cc_Type c = ''semantic'' then
           (case semantic_New L isprint c of
              Inl err \<Rightarrow> Inl err
            | Inr s \<Rightarrow> Inr (Some (Semantic_Selector L H s)))
         else if cc_Type c = [] then Inr None
         else Inl (Errorf (''unknown adapter selection type: '' @ cc_Type c)))"

section \<open>What picking yields\<close>

text \<open>The models the selector offers to the sidecar.\<close>

definition eligible :: "string \<Rightarrow> ModelSpec \<Rightarrow> bool" where
  "eligible base m \<longleftrightarrow> m_Type m = ModelTypeLora \<and> m_BaseModelId m = base
     \<and> elems (sp_Descriptions (m_SelectionPolicy m)) \<noteq> []"

definition candidate_of :: "ModelSpec \<Rightarrow> candidate" where
  "candidate_of m = \<lparr>ca_ModelID = m_Id m, ca_Descriptions = sp_Descriptions (m_SelectionPolicy m)\<rparr>"

text \<open>The answer of the sidecar to a body, if all goes well.\<close>

definition sidecar_answer ::
    "golib \<Rightarrow> http_client \<Rightarrow> SemanticSelector \<Rightarrow> string \<Rightarrow> pickResponse option" where
  "sidecar_answer L H s body =
     (if NewRequest H (sel_url s @ pickEndpoint) body \<noteq> None then None
      else case Do H (sel_url s @ pickEndpoint) body of
             Inl _ \<Rightarrow> None
           | Inr resp \<Rightarrow> if rs_StatusCode resp = 200 then decode_pickResponse L resp else None)"

lemma no_nil: "None \<notin> set ps \<Longrightarrow> ps = map Some (map the ps)"
  by (induction ps) auto

lemma gather_candidates_map:
  "gather_candidates base (map Some ms) (GoMap al) cands =
     Some (GoMap (insert_all (map (\<lambda>m. (m_Id m, Some m)) (filter (eligible base) ms)) al),
           cands @ map candidate_of (filter (eligible base) ms))"
  by (induction ms arbitrary: al cands) (auto simp: eligible_def candidate_of_def)

lemma Semantic_Pick_map:
  "Semantic_Pick L H s ir (map Some ms) =
     (let es = filter (eligible (ir_ModelID ir)) ms
      in if PromptText ir = [] \<or> es = [] then Some (None, False)
         else case sidecar_answer L H s (pick_body (PromptText ir) (map candidate_of es)) of
                None \<Rightarrow> Some (None, False)
              | Some r \<Rightarrow>
                  if pr_Score r < sel_threshold s then Some (None, False)
                  else (case map_of (rev (map (\<lambda>m. (m_Id m, Some m)) es)) (pr_ModelID r) of
                          None \<Rightarrow> Some (None, False)
                        | Some selected \<Rightarrow> Some (selected, True)))"
  by (simp add: Semantic_Pick_def gmake_def gather_candidates_map Let_def sidecar_answer_def
      glookup_GoMap map_of_insert_all split: option.split sum.split)

lemma map_of_own_key:
  assumes "distinct (map f xs)" and "m \<in> set xs"
  shows "map_of (map (\<lambda>m. (f m, g m)) xs) (f m) = Some (g m)"
  by (rule map_of_is_SomeI) (use assms in \<open>auto simp: comp_def\<close>)

lemma Semantic_Pick_True:
  assumes "Semantic_Pick L H s ir (map Some ms) = Some (p, True)"
  shows "\<exists>m \<in> set ms. p = Some m \<and> eligible (ir_ModelID ir) m \<and> PromptText ir \<noteq> [] \<and>
     (\<exists>r. sidecar_answer L H s (pick_body (PromptText ir)
              (map candidate_of (filter (eligible (ir_ModelID ir)) ms))) = Some r
          \<and> \<not> pr_Score r < sel_threshold s \<and> pr_ModelID r = m_Id m)"
  using assms
  by (auto simp: Semantic_Pick_map Let_def split: if_splits option.splits dest!: map_of_SomeD)

text \<open>A match and a non-nil model go together.\<close>

lemma Semantic_Pick_shape:
  "\<exists>p b. Semantic_Pick L H s ir (map Some ms) = Some (p, b) \<and> (b \<longleftrightarrow> p \<noteq> None)"
proof -
  have "p \<noteq> None" if "Semantic_Pick L H s ir (map Some ms) = Some (p, True)" for p
    using Semantic_Pick_True [OF that] by auto
  moreover have "\<exists>p b. Semantic_Pick L H s ir (map Some ms) = Some (p, b) \<and> (\<not> b \<longrightarrow> p = None)"
    by (auto simp: Semantic_Pick_map Let_def split: option.split)
  ultimately show ?thesis by (metis (full_types))
qed

interpretation semantic: selector "Semantic_Selector L H s" for L H s
proof unfold_locales
  fix ps :: "ModelSpec ptr list" and ir
  assume "None \<notin> set ps"
  then obtain ms where ps: "ps = map Some ms" using no_nil by blast
  show "\<exists>r. Pick (Semantic_Selector L H s) ir ps = Some r"
    by (auto simp: Semantic_Selector_def ps Semantic_Pick_map Let_def split: option.split)
  fix p
  assume "Pick (Semantic_Selector L H s) ir ps = Some (p, True)"
  then obtain m where "m \<in> set ms" "p = Some m" "eligible (ir_ModelID ir) m"
    using Semantic_Pick_True by (fastforce simp: Semantic_Selector_def ps)
  then show "p \<in> set ps \<and>
      (\<exists>m. p = Some m \<and> m_Type m = ModelTypeLora \<and> m_BaseModelId m = ir_ModelID ir)"
    by (simp add: ps eligible_def)
qed

text \<open>With distinct ids the match is exactly the candidate the sidecar names.\<close>

lemma Semantic_Pick_iff:
  assumes "distinct (map m_Id ms)"
  shows "Semantic_Pick L H s ir (map Some ms) = Some (Some m, True) \<longleftrightarrow>
     PromptText ir \<noteq> [] \<and> m \<in> set ms \<and> eligible (ir_ModelID ir) m \<and>
     (\<exists>r. sidecar_answer L H s (pick_body (PromptText ir)
              (map candidate_of (filter (eligible (ir_ModelID ir)) ms))) = Some r
          \<and> \<not> pr_Score r < sel_threshold s \<and> pr_ModelID r = m_Id m)"
    (is "?L \<longleftrightarrow> ?R")
proof
  assume ?L
  from Semantic_Pick_True [OF this] show ?R by auto
next
  assume ?R
  let ?es = "filter (eligible (ir_ModelID ir)) ms"
  have m: "m \<in> set ?es" using \<open>?R\<close> by simp
  have d: "distinct (map m_Id (rev ?es))"
    using assms by (simp add: rev_map [symmetric] distinct_map_filter)
  have "map_of (map (\<lambda>m. (m_Id m, Some m)) (rev ?es)) (m_Id m) = Some (Some m)"
    by (rule map_of_own_key [OF d]) (use m in simp)
  moreover have "?es \<noteq> []" using m by (metis empty_iff empty_set)
  ultimately show ?L
    using \<open>?R\<close> by (auto simp: Semantic_Pick_map Let_def rev_map [symmetric])
qed

text \<open>The body the sidecar receives is the document of the prompt and the candidates.\<close>

definition candidate_utf8 :: "candidate \<Rightarrow> bool" where
  "candidate_utf8 c \<longleftrightarrow> valid_utf8 (ca_ModelID c)
     \<and> (\<forall>d \<in> set (elems (ca_Descriptions c)). valid_utf8 d)"

lemma pickRequest_json_ok:
  assumes "valid_utf8 prompt" and "list_all candidate_utf8 cands"
  shows "json_ok 4 (pickRequest_json prompt cands)"
proof -
  have lits: "valid_utf8 ''prompt''" "valid_utf8 ''candidates''" "valid_utf8 ''model_id''"
      "valid_utf8 ''descriptions''"
    by (auto intro: ascii_valid_utf8 simp: ascii_def byte_def)
  have s: "json_ok 1 (slice_json string_json (ca_Descriptions c))" if "c \<in> set cands" for c
    using that assms(2)
    by (cases "ca_Descriptions c")
       (auto simp: slice_json_def string_json_def list_all_iff candidate_utf8_def)
  have "json_ok (Suc 1) (candidate_json c)" if "c \<in> set cands" for c
    using s [OF that] that assms(2) lits
    by (auto simp: candidate_json_def string_json_def list_all_iff candidate_utf8_def)
  then have "json_ok (Suc (Suc (Suc 1))) (pickRequest_json prompt cands)"
    using assms(1) lits by (auto simp: pickRequest_json_def string_json_def)
  then show ?thesis by (simp add: eval_nat_numeral)
qed

end
