(* ===== verification/Server.thy ===== *)
theory Server
  imports Store PolicyEngine Auth Selector
begin

text \<open>
  \<open>pkg/server/server.go\<close>: the external authorization server of Envoy. \<open>Check\<close> runs while the
  controllers change the store, so it is given the state of the store at each of its reads:
  \<open>sigma 0\<close> at the first, \<open>sigma 1\<close> at the second, and so on. Logging is left out.
\<close>

section \<open>Responses\<close>

record HeaderValueOption =
  hv_Key :: string
  hv_Value :: string

record DeniedHttpResponse =
  dr_Status :: nat
  dr_Body :: string
  dr_Headers :: "HeaderValueOption list"

datatype HttpResponse = OkResponse "HeaderValueOption list" | DeniedResponse DeniedHttpResponse

record CheckResponse =
  resp_HttpResponse :: HttpResponse
  resp_Status :: nat

definition resultHeader :: string where "resultHeader = ''x-ext-authz-check-result''"
definition resultAllowed :: string where "resultAllowed = ''allowed''"
definition resultDenied :: string where "resultDenied = ''denied''"
definition notApplicable :: string where "notApplicable = ''not-applicable''"
definition modelRewriteHeader :: string where
  "modelRewriteHeader = ''x-gateway-model-name-rewrite''"

text \<open>The codes of gRPC (\<open>codes.OK\<close>, \<open>codes.PermissionDenied\<close>) and of HTTP (Forbidden).\<close>

definition codes_OK :: nat where "codes_OK = 0"
definition codes_PermissionDenied :: nat where "codes_PermissionDenied = 7"
definition StatusCode_Forbidden :: nat where "StatusCode_Forbidden = 403"

definition header :: "string \<Rightarrow> string \<Rightarrow> HeaderValueOption" where
  "header k v = \<lparr>hv_Key = k, hv_Value = v\<rparr>"

definition allow :: CheckResponse where
  "allow = \<lparr>resp_HttpResponse = OkResponse [header resultHeader resultAllowed],
            resp_Status = codes_OK\<rparr>"

definition allowWithModelRewrite :: "string \<Rightarrow> CheckResponse" where
  "allowWithModelRewrite loraModelID =
     (let headers = [header resultHeader resultAllowed];
          headers = (if loraModelID \<noteq> [] then headers @ [header modelRewriteHeader loraModelID]
                     else headers)
      in \<lparr>resp_HttpResponse = OkResponse headers, resp_Status = codes_OK\<rparr>)"

definition allowWithoutClaims :: CheckResponse where
  "allowWithoutClaims =
     \<lparr>resp_HttpResponse = OkResponse [header resultHeader notApplicable], resp_Status = codes_OK\<rparr>"

definition deny :: "string \<Rightarrow> CheckResponse" where
  "deny reason =
     \<lparr>resp_HttpResponse = DeniedResponse
        \<lparr>dr_Status = StatusCode_Forbidden, dr_Body = ''Denied: '' @ reason,
         dr_Headers = [header resultHeader resultDenied]\<rparr>,
      resp_Status = codes_PermissionDenied\<rparr>"

section \<open>The server\<close>

record 's ExtAuthzServer =
  srv_authenticator :: Authenticator
  srv_store :: "'s ReadStore"
  srv_engine :: PolicyEngine
  srv_selector :: "Selector ptr"
  srv_alwaysActive :: bool

definition NewExtAuthzServer ::
    "PolicyEngine \<Rightarrow> 's ReadStore \<Rightarrow> Authenticator \<Rightarrow> Selector ptr \<Rightarrow> bool \<Rightarrow> 's ExtAuthzServer" where
  "NewExtAuthzServer engine st auth sel alwaysActive =
     \<lparr>srv_authenticator = auth, srv_store = st, srv_engine = engine, srv_selector = sel,
      srv_alwaysActive = alwaysActive\<rparr>"

lemma NewExtAuthzServer_fields [simp]:
  "srv_store (NewExtAuthzServer E R A sel b) = R"
  "srv_engine (NewExtAuthzServer E R A sel b) = E"
  "srv_authenticator (NewExtAuthzServer E R A sel b) = A"
  "srv_selector (NewExtAuthzServer E R A sel b) = sel"
  "srv_alwaysActive (NewExtAuthzServer E R A sel b) = b"
  by (simp_all add: NewExtAuthzServer_def)

text \<open>Whether adapter selection runs for a request: always, or when its header asks for it.\<close>

definition shouldSelect :: "'s ExtAuthzServer \<Rightarrow> InferenceRequest \<Rightarrow> bool" where
  "shouldSelect s ir \<longleftrightarrow>
     srv_alwaysActive s \<or> glookup (ir_Headers ir) ''x-adapter-selection'' = Some ''true''"

text \<open>
  The adapter selection inside \<open>Check\<close>: the response it returns early with, or \<open>None\<close> when the
  code falls through to the plain permission. Every error on the way is ignored. The fourth
  read of the store lists the LoRA models.
\<close>

definition try_adapter ::
    "'s ExtAuthzServer \<Rightarrow> 's \<Rightarrow> InferenceRequest \<Rightarrow> UserSpec ptr \<Rightarrow> CheckResponse option outcome"
where
  "try_adapter s st ir user =
     (case srv_selector s of
        None \<Rightarrow> Some None
      | Some sel \<Rightarrow>
          if shouldSelect s ir \<and> PromptText ir \<noteq> [] then
            do { r \<leftarrow> ListModelsByType (srv_store s) st ModelTypeLora;
                 case r of
                   Inl _ \<Rightarrow> Some None
                 | Inr loraModels \<Rightarrow>
                     (let candidates = map Some (filter (\<lambda>m. m_BaseModelId m = ir_ModelID ir) loraModels)
                      in if length candidates > 0 then
                           do { r \<leftarrow> GetAllowedModels (srv_engine s) user candidates;
                                case r of
                                  Inl _ \<Rightarrow> Some None
                                | Inr allowedLoras \<Rightarrow>
                                    if length allowedLoras > 0 then
                                      do { (selected, matched) \<leftarrow> Pick sel ir allowedLoras;
                                           if matched
                                           then do { m \<leftarrow> selected; Some (Some (allowWithModelRewrite (m_Id m))) }
                                           else Some None }
                                    else Some None }
                         else Some None) }
          else Some None)"

text \<open>The part of \<open>Check\<close> from the reading of the user on.\<close>

definition check_access ::
    "'s ExtAuthzServer \<Rightarrow> (nat \<Rightarrow> 's) \<Rightarrow> InferenceRequest \<Rightarrow> string \<Rightarrow> CheckResponse outcome" where
  "check_access s sigma ir userID =
     do { ur \<leftarrow> GetUser (srv_store s) (sigma 1) userID;
          case ur of
            Inl _ \<Rightarrow> Some (deny ''user not found'')
          | Inr user \<Rightarrow>
              do { mr \<leftarrow> GetModel (srv_store s) (sigma 2) (ir_ModelID ir);
                   case mr of
                     Inl _ \<Rightarrow> Some (deny ''model not found'')
                   | Inr model \<Rightarrow>
                       do { dr \<leftarrow> CheckAccess (srv_engine s) user model;
                            case dr of
                              Inl _ \<Rightarrow> Some (deny ''policy evaluation error'')
                            | Inr decision \<Rightarrow>
                                if decision then
                                  if srv_selector s = None then Some allow
                                  else do { m \<leftarrow> model;
                                            if m_Type m = ModelTypeBase then
                                              do { early \<leftarrow> try_adapter s (sigma 3) ir user;
                                                   Some (case early of Some resp \<Rightarrow> resp | None \<Rightarrow> allow) }
                                            else Some allow }
                                else Some (deny ''access denied by policy'') } } }"

definition Check ::
    "golib \<Rightarrow> 's ExtAuthzServer \<Rightarrow> (nat \<Rightarrow> 's) \<Rightarrow> CheckRequest ptr \<Rightarrow> CheckResponse result outcome"
where
  "Check L s sigma request =
     (case ParseCheckRequest L request of
        Inl err \<Rightarrow> Some (Inr (deny (Error err)))
      | Inr ir \<Rightarrow>
          if ir_Type ir = RequestTypeUnknown then Some (Inr allowWithoutClaims)
          else case Authenticate (srv_authenticator s) ir of
                 Inl err \<Rightarrow> Some (Inr (deny (Error err)))
               | Inr result \<Rightarrow>
                   do { er \<leftarrow> UserExists (srv_store s) (sigma 0) (ar_UserID result);
                        case er of
                          Inl _ \<Rightarrow> Some (Inr (deny ''user validation error''))
                        | Inr isUserValid \<Rightarrow>
                            if \<not> isUserValid then Some (Inr (deny ''user not registered''))
                            else if ir_Type ir = RequestTypeListModels then Some (Inr allow)
                            else if ir_ModelID ir = [] then
                              Some (Inr (deny ''missing model field in request body''))
                            else map_option Inr (check_access s sigma ir (ar_UserID result)) })"

section \<open>Reading responses\<close>

definition is_allowed :: "CheckResponse \<Rightarrow> bool" where
  "is_allowed r = (case resp_HttpResponse r of OkResponse _ \<Rightarrow> True | DeniedResponse _ \<Rightarrow> False)"

definition response_headers :: "CheckResponse \<Rightarrow> HeaderValueOption list" where
  "response_headers r =
     (case resp_HttpResponse r of OkResponse hs \<Rightarrow> hs | DeniedResponse d \<Rightarrow> dr_Headers d)"

definition rewrite_of :: "CheckResponse \<Rightarrow> string option" where
  "rewrite_of r = map_of (map (\<lambda>h. (hv_Key h, hv_Value h)) (response_headers r)) modelRewriteHeader"

lemma is_allowed_simps [response_simps, simp]:
  "is_allowed allow" "is_allowed allowWithoutClaims" "is_allowed (allowWithModelRewrite i)"
  "\<not> is_allowed (deny reason)"
  by (simp_all add: is_allowed_def allow_def allowWithoutClaims_def allowWithModelRewrite_def
      deny_def Let_def)

lemma rewrite_of_simps [response_simps, simp]:
  "rewrite_of allow = None" "rewrite_of allowWithoutClaims = None" "rewrite_of (deny reason) = None"
  "rewrite_of (allowWithModelRewrite i) = (if i = [] then None else Some i)"
  by (simp_all add: rewrite_of_def response_headers_def allow_def allowWithoutClaims_def deny_def
      allowWithModelRewrite_def Let_def header_def resultHeader_def modelRewriteHeader_def)

lemma deny_inject [simp]: "deny r = deny r' \<longleftrightarrow> r = r'"
  by (simp add: deny_def)

lemma response_distinct [simp]:
  "deny r \<noteq> allow" "deny r \<noteq> allowWithoutClaims" "deny r \<noteq> allowWithModelRewrite i"
  "allow \<noteq> deny r" "allowWithoutClaims \<noteq> deny r" "allowWithModelRewrite i \<noteq> deny r"
  by (metis is_allowed_simps)+

lemma allow_not_bypass [simp]: "allow \<noteq> allowWithoutClaims" "allowWithoutClaims \<noteq> allow"
  by (simp_all add: allow_def allowWithoutClaims_def header_def resultAllowed_def notApplicable_def)

lemma rewrite_not_bypass [simp]:
  "allowWithModelRewrite i \<noteq> allowWithoutClaims" "allowWithoutClaims \<noteq> allowWithModelRewrite i"
  by (simp_all add: allowWithModelRewrite_def allowWithoutClaims_def Let_def header_def
      resultAllowed_def notApplicable_def)

section \<open>The responses a check can give\<close>

text \<open>Adapter selection ends in a rewrite or in nothing, and only runs when it is active.\<close>

definition adapter_response :: "'s ExtAuthzServer \<Rightarrow> InferenceRequest \<Rightarrow> CheckResponse option \<Rightarrow> bool" where
  "adapter_response s ir r \<longleftrightarrow>
     (\<forall>resp. r = Some resp \<longrightarrow>
        (\<exists>i. resp = allowWithModelRewrite i) \<and> shouldSelect s ir \<and> srv_selector s \<noteq> None)"

definition access_response :: "'s ExtAuthzServer \<Rightarrow> InferenceRequest \<Rightarrow> CheckResponse \<Rightarrow> bool" where
  "access_response s ir resp \<longleftrightarrow>
     resp = allow \<or> (\<exists>reason. resp = deny reason)
     \<or> (\<exists>i. resp = allowWithModelRewrite i) \<and> shouldSelect s ir \<and> srv_selector s \<noteq> None"

definition check_response :: "'s ExtAuthzServer \<Rightarrow> InferenceRequest \<Rightarrow> CheckResponse result \<Rightarrow> bool" where
  "check_response s ir r \<longleftrightarrow> (\<exists>resp. r = Inr resp \<and> access_response s ir resp)"

lemma try_adapter_responses: "pred_option (adapter_response s ir) (try_adapter s st ir user)"
  by (auto simp: try_adapter_def Let_def adapter_response_def intro!: pred_bindI
      split: option.split sum.split) blast

lemma check_access_responses: "pred_option (access_response s ir) (check_access s sigma ir i)"
  using pred_optionD [OF try_adapter_responses [of s ir]]
  by (auto simp: check_access_def access_response_def adapter_response_def intro!: pred_bindI
      split: option.split sum.split)

lemma Check_protected:
  assumes "ParseCheckRequest L request = Inr ir" and "ir_Type ir \<noteq> RequestTypeUnknown"
  shows "pred_option (check_response s ir) (Check L s sigma request)"
proof -
  have "pred_option (check_response s ir) (map_option Inr (check_access s sigma ir i))" for i
    using check_access_responses [of s ir sigma i]
    by (cases "check_access s sigma ir i") (auto simp: check_response_def)
  then show ?thesis
    using assms
    by (auto simp: Check_def check_response_def access_response_def intro!: pred_bindI
        split: sum.split)
qed

lemma Check_responses:
  assumes "Check L s sigma request = Some r"
  shows "\<exists>resp. r = Inr resp \<and> (resp = allow \<or> resp = allowWithoutClaims
      \<or> (\<exists>i. resp = allowWithModelRewrite i) \<or> (\<exists>reason. resp = deny reason))"
proof (cases "ParseCheckRequest L request")
  case (Inl e)
  with assms show ?thesis by (auto simp: Check_def)
next
  case (Inr ir)
  show ?thesis
  proof (cases "ir_Type ir = RequestTypeUnknown")
    case True
    with assms Inr show ?thesis by (auto simp: Check_def)
  next
    case False
    from pred_optionD [OF Check_protected [OF Inr this] assms] show ?thesis
      by (auto simp: check_response_def access_response_def)
  qed
qed

lemma ParseCheckRequest_unknown:
  "(\<exists>ir. ParseCheckRequest L request = Inr ir \<and> ir_Type ir = RequestTypeUnknown) \<longleftrightarrow>
     (\<exists>path. glookup (GetHeaders (GetHttp request)) headerPath = Some path \<and>
        path \<notin> {pathCompletions, pathChatCompletions, pathModels})"
proof
  assume "\<exists>ir. ParseCheckRequest L request = Inr ir \<and> ir_Type ir = RequestTypeUnknown"
  then obtain ir where ir: "ParseCheckRequest L request = Inr ir" "ir_Type ir = RequestTypeUnknown"
    by blast
  note f = ParseCheckRequest_fields [OF ir(1)]
  from f(3) ir(2) have "ir_Path ir \<notin> {pathCompletions, pathChatCompletions, pathModels}"
    by (simp only: request_type_unknown [symmetric])
  with f(1,2) show "\<exists>path. glookup (GetHeaders (GetHttp request)) headerPath = Some path \<and>
        path \<notin> {pathCompletions, pathChatCompletions, pathModels}"
    by auto
next
  assume "\<exists>path. glookup (GetHeaders (GetHttp request)) headerPath = Some path \<and>
        path \<notin> {pathCompletions, pathChatCompletions, pathModels}"
  then show "\<exists>ir. ParseCheckRequest L request = Inr ir \<and> ir_Type ir = RequestTypeUnknown"
    by (auto simp: ParseCheckRequest_def request_type_def)
qed

lemma Check_bypass_iff:
  "Check L s sigma request = Some (Inr allowWithoutClaims) \<longleftrightarrow>
     (\<exists>path. glookup (GetHeaders (GetHttp request)) headerPath = Some path \<and>
        path \<notin> {pathCompletions, pathChatCompletions, pathModels})"
proof -
  have "Check L s sigma request = Some (Inr allowWithoutClaims) \<longleftrightarrow>
      (\<exists>ir. ParseCheckRequest L request = Inr ir \<and> ir_Type ir = RequestTypeUnknown)"
  proof (cases "ParseCheckRequest L request")
    case (Inl e)
    then show ?thesis by (simp add: Check_def)
  next
    case (Inr ir)
    show ?thesis
    proof (cases "ir_Type ir = RequestTypeUnknown")
      case True
      with Inr show ?thesis by (simp add: Check_def)
    next
      case False
      have "Check L s sigma request \<noteq> Some (Inr allowWithoutClaims)"
        using pred_optionD [OF Check_protected [OF Inr False]]
        by (force simp: check_response_def access_response_def)
      with False Inr show ?thesis by simp
    qed
  qed
  then show ?thesis by (simp only: ParseCheckRequest_unknown)
qed

end
