(* ===== verification/ServerLaws.thy ===== *)
theory ServerLaws
  imports Server
begin

text \<open>
  What \<open>Check\<close> decides, for any authenticator, store, engine and selector that keep their
  contracts: the locale \<open>ext_authz\<close> puts the four interfaces together, and its lemmas are the
  laws of the server. The store is allowed to change between the four reads of a check.
\<close>

locale ext_authz =
  good_store R inv users models + policy_engine E permits + authenticator A identifies
  for R :: "'s ReadStore" and inv and users and models and E and permits and A and identifies +
  fixes L :: golib and sel :: "Selector ptr" and alwaysActive :: bool
  assumes sel_ok: "\<And>S. sel = Some S \<Longrightarrow> selector S"
begin

abbreviation srv :: "'s ExtAuthzServer" where
  "srv \<equiv> NewExtAuthzServer E R A sel alwaysActive"

text \<open>A permitted LoRA adapter of the requested base model, as the store has it.\<close>

definition permitted_lora :: "'s \<Rightarrow> UserSpec \<Rightarrow> string \<Rightarrow> ModelSpec \<Rightarrow> bool" where
  "permitted_lora st u base m \<longleftrightarrow> models st (m_Id m) = Some m \<and> m_Type m = ModelTypeLora
     \<and> m_BaseModelId m = base \<and> permits u m"

text \<open>The model that the selector picks when it is offered exactly the permitted adapters.\<close>

definition picked :: "'s \<Rightarrow> UserSpec \<Rightarrow> InferenceRequest \<Rightarrow> ModelSpec \<Rightarrow> bool" where
  "picked st u ir m \<longleftrightarrow>
     (\<exists>S ms. sel = Some S \<and> Pick S ir (map Some ms) = Some (Some m, True) \<and> distinct (map m_Id ms)
        \<and> set ms = {a. permitted_lora st u (ir_ModelID ir) a})"

lemma allowed_candidates:
  assumes st: "inv st" and u: "good_user u"
    and lst: "ListModelsByType R st ModelTypeLora = Some (Inr loras)"
  shows "GetAllowedModels E (Some u) (map Some (filter (\<lambda>m. m_BaseModelId m = base) loras))
           = Some (Inr (map Some (filter (permits u) (filter (\<lambda>m. m_BaseModelId m = base) loras))))"
    and "m \<in> set (filter (permits u) (filter (\<lambda>m. m_BaseModelId m = base) loras))
           \<longleftrightarrow> permitted_lora st u base m"
proof -
  have good: "list_all good_model (filter (\<lambda>m. m_BaseModelId m = base) loras)"
    using listed_good [OF st lst] by (auto simp: list_all_iff)
  have dist: "distinct (map m_Id (filter (\<lambda>m. m_BaseModelId m = base) loras))"
    using models_of_type(2) [OF st lst] by (rule distinct_map_filter)
  show "GetAllowedModels E (Some u) (map Some (filter (\<lambda>m. m_BaseModelId m = base) loras))
      = Some (Inr (map Some (filter (permits u) (filter (\<lambda>m. m_BaseModelId m = base) loras))))"
    by (rule GetAllowedModels_eq [OF u good dist])
  show "m \<in> set (filter (permits u) (filter (\<lambda>m. m_BaseModelId m = base) loras))
      \<longleftrightarrow> permitted_lora st u base m"
    using models_of_type(1) [OF st lst] by (auto simp: permitted_lora_def)
qed

lemma try_adapter_cases:
  assumes st: "inv st" and u: "good_user u"
  obtains (none) "try_adapter srv st ir (Some u) = Some None"
  | (rewrite) m where "try_adapter srv st ir (Some u) = Some (Some (allowWithModelRewrite (m_Id m)))"
      "permitted_lora st u (ir_ModelID ir) m" "picked st u ir m"
      "sel \<noteq> None" "shouldSelect srv ir" "PromptText ir \<noteq> []"
proof (cases "sel \<noteq> None \<and> shouldSelect srv ir \<and> PromptText ir \<noteq> []")
  case False
  then have "try_adapter srv st ir (Some u) = Some None"
    by (auto simp: try_adapter_def split: option.split)
  then show ?thesis by (rule none)
next
  case True
  then obtain S where S: "sel = Some S" by auto
  obtain loras where lst: "ListModelsByType R st ModelTypeLora = Some (Inr loras)"
    using ListModelsByType_eq [OF st] by blast
  let ?cs = "filter (\<lambda>m. m_BaseModelId m = ir_ModelID ir) loras"
  let ?ps = "map Some (filter (permits u) ?cs)"
  note allowed = allowed_candidates [OF st u lst, where base = "ir_ModelID ir"]
  have run: "try_adapter srv st ir (Some u) =
      (if ?cs = [] \<or> ?ps = [] then Some None
       else do { (selected, matched) \<leftarrow> Pick S ir ?ps;
                 if matched then do { m \<leftarrow> selected; Some (Some (allowWithModelRewrite (m_Id m))) }
                 else Some None })"
    using True by (simp add: try_adapter_def S lst allowed(1) Let_def)
  have nn: "None \<notin> set ?ps" by auto
  have dist: "distinct (map m_Id (filter (permits u) ?cs))"
    using models_of_type(2) [OF st lst] by (intro distinct_map_filter)
  show ?thesis
  proof (cases rule: selector.Pick_cases [OF sel_ok [OF S] nn, of ir, case_names matched unmatched])
    case (matched m)
    have "permitted_lora st u (ir_ModelID ir) m" using matched(2) allowed(2) [where m = m] by auto
    moreover have "picked st u ir m"
      unfolding picked_def using S matched(1) dist allowed(2) by blast
    ultimately show ?thesis using matched(1) run True none rewrite by (auto split: if_splits)
  next
    case (unmatched p)
    with run none show ?thesis by (auto split: if_splits)
  qed
qed

text \<open>
  The part of the check from the reading of the user on: the two specs are those of the second
  and third read, and the engine's relation decides; when it permits, the response allows,
  possibly with a rewrite to a permitted adapter of the fourth read.
\<close>

lemma check_access_denied:
  assumes inv: "\<forall>n. inv (sigma n)"
  shows "users (sigma 1) i = None \<Longrightarrow> check_access srv sigma ir i = Some (deny ''user not found'')"
    and "users (sigma 1) i = Some u \<Longrightarrow> models (sigma 2) (ir_ModelID ir) = None \<Longrightarrow>
           check_access srv sigma ir i = Some (deny ''model not found'')"
    and "users (sigma 1) i = Some u \<Longrightarrow> models (sigma 2) (ir_ModelID ir) = Some m \<Longrightarrow>
           \<not> permits u m \<Longrightarrow> check_access srv sigma ir i = Some (deny ''access denied by policy'')"
proof -
  show "check_access srv sigma ir i = Some (deny ''user not found'')" if "users (sigma 1) i = None"
    using GetUser_missing [OF inv [rule_format] that] by (auto simp: check_access_def)
  show "check_access srv sigma ir i = Some (deny ''model not found'')"
    if "users (sigma 1) i = Some u" and "models (sigma 2) (ir_ModelID ir) = None"
    using GetUser_found [OF inv [rule_format] that(1)] GetModel_missing [OF inv [rule_format] that(2)]
    by (auto simp: check_access_def)
  show "check_access srv sigma ir i = Some (deny ''access denied by policy'')"
    if "users (sigma 1) i = Some u" and "models (sigma 2) (ir_ModelID ir) = Some m" and "\<not> permits u m"
    using GetUser_found [OF inv [rule_format] that(1)] GetModel_found [OF inv [rule_format] that(2)] that(3)
      CheckAccess_eq [OF users_good [OF inv [rule_format] that(1)] models_good [OF inv [rule_format] that(2)]]
    by (auto simp: check_access_def)
qed

lemma check_access_permitted:
  assumes inv: "\<forall>n. inv (sigma n)"
    and u: "users (sigma 1) i = Some u" and m: "models (sigma 2) (ir_ModelID ir) = Some m"
    and p: "permits u m"
  obtains (plain) "check_access srv sigma ir i = Some allow"
  | (rewrite) a where "check_access srv sigma ir i = Some (allowWithModelRewrite (m_Id a))"
      "permitted_lora (sigma 3) u (ir_ModelID ir) a" "picked (sigma 3) u ir a" "m_Type m = ModelTypeBase"
      "sel \<noteq> None" "shouldSelect srv ir" "PromptText ir \<noteq> []"
proof -
  have run: "check_access srv sigma ir i =
      (if sel \<noteq> None \<and> m_Type m = ModelTypeBase
       then do { early \<leftarrow> try_adapter srv (sigma 3) ir (Some u);
                 Some (case early of Some resp \<Rightarrow> resp | None \<Rightarrow> allow) }
       else Some allow)"
    using GetUser_found [OF inv [rule_format] u] GetModel_found [OF inv [rule_format] m] p
      CheckAccess_eq [OF users_good [OF inv [rule_format] u] models_good [OF inv [rule_format] m]]
    by (auto simp: check_access_def)
  show ?thesis
  proof (cases rule: try_adapter_cases [OF inv [rule_format, of 3] users_good [OF inv [rule_format] u], of ir,
        case_names none rewrite])
    case none
    with run plain show ?thesis by (auto split: if_splits)
  next
    case (rewrite a)
    with run plain that(2) show ?thesis by (auto split: if_splits)
  qed
qed

lemma check_access_allowed_iff:
  assumes inv: "\<forall>n. inv (sigma n)"
  shows "\<exists>resp. check_access srv sigma ir i = Some resp \<and> resp \<noteq> allowWithoutClaims \<and>
     (is_allowed resp \<longleftrightarrow> (\<exists>u m. users (sigma 1) i = Some u
        \<and> models (sigma 2) (ir_ModelID ir) = Some m \<and> permits u m))"
proof (cases "\<exists>u m. users (sigma 1) i = Some u \<and> models (sigma 2) (ir_ModelID ir) = Some m \<and> permits u m")
  case True
  then obtain u m where um: "users (sigma 1) i = Some u" "models (sigma 2) (ir_ModelID ir) = Some m"
      "permits u m" by blast
  show ?thesis
  proof (cases rule: check_access_permitted [OF inv um, case_names plain rewrite])
    case plain
    with True show ?thesis by simp
  next
    case (rewrite a)
    have "allowWithModelRewrite (m_Id a) \<noteq> allowWithoutClaims"
      by (simp add: allowWithModelRewrite_def allowWithoutClaims_def Let_def header_def
          resultAllowed_def notApplicable_def)
    with True rewrite show ?thesis by simp
  qed
next
  case False
  then have "\<exists>reason. check_access srv sigma ir i = Some (deny reason)"
    using check_access_denied [OF inv]
    by (cases "users (sigma 1) i"; cases "models (sigma 2) (ir_ModelID ir)") blast+
  with False show ?thesis by auto
qed

text \<open>The decisions of a whole check.\<close>

lemma Check_unparsed:
  "ParseCheckRequest L request = Inl e \<Longrightarrow> Check L srv sigma request = Some (Inr (deny (Error e)))"
  by (simp add: Check_def)

lemma Check_bypass:
  "ParseCheckRequest L request = Inr ir \<Longrightarrow> ir_Type ir = RequestTypeUnknown \<Longrightarrow>
     Check L srv sigma request = Some (Inr allowWithoutClaims)"
  by (simp add: Check_def)

lemma Check_unauthenticated:
  "ParseCheckRequest L request = Inr ir \<Longrightarrow> ir_Type ir \<noteq> RequestTypeUnknown \<Longrightarrow>
     Authenticate A ir = Inl e \<Longrightarrow> Check L srv sigma request = Some (Inr (deny (Error e)))"
  by (simp add: Check_def)

lemma Check_authenticated:
  assumes "inv (sigma 0)" and "ParseCheckRequest L request = Inr ir"
    and "ir_Type ir \<noteq> RequestTypeUnknown" and "Authenticate A ir = Inr r"
  shows "Check L srv sigma request =
     (if users (sigma 0) (ar_UserID r) = None then Some (Inr (deny ''user not registered''))
      else if ir_Type ir = RequestTypeListModels then Some (Inr allow)
      else if ir_ModelID ir = [] then Some (Inr (deny ''missing model field in request body''))
      else map_option Inr (check_access srv sigma ir (ar_UserID r)))"
  using assms UserExists_eq [OF assms(1), of "ar_UserID r"] by (simp add: Check_def)

text \<open>
  The authorization decision: a protected request is allowed exactly when its headers identify
  a registered user who, unless the request lists models, is permitted the named model.
\<close>

definition authorized :: "(nat \<Rightarrow> 's) \<Rightarrow> InferenceRequest \<Rightarrow> bool" where
  "authorized sigma ir \<longleftrightarrow>
     (\<exists>i. identifies (ir_Headers ir) i \<and> users (sigma 0) i \<noteq> None \<and>
        (ir_Type ir = RequestTypeListModels \<or>
         (\<exists>u m. users (sigma 1) i = Some u \<and> models (sigma 2) (ir_ModelID ir) = Some m \<and> permits u m)))"

lemma Check_decides:
  assumes inv: "\<forall>n. inv (sigma n)" and ir: "ParseCheckRequest L request = Inr ir"
    and ty: "ir_Type ir \<noteq> RequestTypeUnknown"
  shows "\<exists>resp. Check L srv sigma request = Some (Inr resp) \<and> resp \<noteq> allowWithoutClaims
           \<and> (is_allowed resp \<longleftrightarrow> authorized sigma ir)"
proof (cases "Authenticate A ir")
  case (Inl e)
  then have "\<not> authorized sigma ir"
    using authentication_fails_iff [of ir] by (auto simp: authorized_def)
  then show ?thesis using Check_unauthenticated [OF ir ty Inl] by auto
next
  case (Inr r)
  then have id: "identifies (ir_Headers ir) i \<longleftrightarrow> i = ar_UserID r" for i
    using Authenticate_iff identity_unique by blast
  note run = Check_authenticated [OF inv [rule_format] ir ty Inr]
  obtain resp where resp: "check_access srv sigma ir (ar_UserID r) = Some resp"
      "resp \<noteq> allowWithoutClaims" "is_allowed resp \<longleftrightarrow> (\<exists>u m. users (sigma 1) (ar_UserID r) = Some u
        \<and> models (sigma 2) (ir_ModelID ir) = Some m \<and> permits u m)"
    using check_access_allowed_iff [OF inv] by blast
  have no_model: "models (sigma 2) [] = None"
    using model_key [OF inv [rule_format], of 2 "[]"] by (cases "models (sigma 2) []") auto
  show ?thesis
  proof (cases "users (sigma 0) (ar_UserID r) = None \<or> ir_Type ir = RequestTypeListModels \<or> ir_ModelID ir = []")
    case True
    then show ?thesis using no_model by (auto simp: run authorized_def id)
  next
    case False
    with resp show ?thesis by (auto simp: run authorized_def id)
  qed
qed

lemma Check_total:
  assumes "\<forall>n. inv (sigma n)"
  shows "\<exists>resp. Check L srv sigma request = Some (Inr resp)"
proof (cases "ParseCheckRequest L request")
  case (Inl e)
  then show ?thesis using Check_unparsed by blast
next
  case (Inr ir)
  then show ?thesis
    using Check_bypass Check_decides [OF assms Inr] by (cases "ir_Type ir = RequestTypeUnknown") blast+
qed

text \<open>A rewrite names the permitted adapter of the requested base model that the selector picks.\<close>

lemma Check_rewrite:
  assumes inv: "\<forall>n. inv (sigma n)" and run: "Check L srv sigma request = Some (Inr resp)"
    and rw: "rewrite_of resp = Some i"
  shows "\<exists>ir id u m a. ParseCheckRequest L request = Inr ir \<and> identifies (ir_Headers ir) id
     \<and> users (sigma 1) id = Some u \<and> models (sigma 2) (ir_ModelID ir) = Some m \<and> permits u m
     \<and> m_Type m = ModelTypeBase \<and> m_Id a = i \<and> permitted_lora (sigma 3) u (ir_ModelID ir) a
     \<and> picked (sigma 3) u ir a
     \<and> sel \<noteq> None \<and> shouldSelect srv ir"
proof (cases "ParseCheckRequest L request")
  case (Inl e)
  with run rw show ?thesis using Check_unparsed by fastforce
next
  case (Inr ir)
  have ty: "ir_Type ir \<noteq> RequestTypeUnknown"
  proof
    assume "ir_Type ir = RequestTypeUnknown"
    from Check_bypass [OF Inr this] run rw show False by simp
  qed
  obtain r where r: "Authenticate A ir = Inr r"
    using Check_unauthenticated [OF Inr ty] run rw by (cases "Authenticate A ir") fastforce+
  then have id: "identifies (ir_Headers ir) (ar_UserID r)" by (simp add: Authenticate_iff)
  from Check_authenticated [OF inv [rule_format] Inr ty r] run rw
  have acc: "check_access srv sigma ir (ar_UserID r) = Some resp" by (auto split: if_splits)
  obtain u m where um: "users (sigma 1) (ar_UserID r) = Some u"
      "models (sigma 2) (ir_ModelID ir) = Some m" "permits u m"
    using check_access_denied [OF inv] acc rw
    by (cases "users (sigma 1) (ar_UserID r)"; cases "models (sigma 2) (ir_ModelID ir)") fastforce+
  show ?thesis
  proof (cases rule: check_access_permitted [OF inv um, case_names plain rewrite])
    case plain
    with acc rw show ?thesis by simp
  next
    case (rewrite a)
    then have "resp = allowWithModelRewrite (m_Id a)" using acc by simp
    then have "m_Id a = i" using rw by (simp split: if_splits)
    with rewrite Inr id um show ?thesis by blast
  qed
qed

end

end
