(* ===== verification/MemoryStore.thy ===== *)
theory MemoryStore
  imports Store
begin

text \<open>
  \<open>pkg/store/memory/memory.go\<close>: the store as two Go maps from ids to pointers. Each method is
  one critical section of the store's lock, so it is one step on the state (\<open>Locking\<close>), and copies
  what it takes and returns, so specs are values (\<open>Aliasing\<close>). The invariant, the
  abstraction to finite maps, and the interpretation of the store locales.
\<close>

section \<open>State and methods\<close>

record memory =
  mem_users :: "(string, UserSpec ptr) gomap"
  mem_models :: "(string, ModelSpec ptr) gomap"

definition New :: memory where
  "New = \<lparr>mem_users = gmake, mem_models = gmake\<rparr>"

definition Memory_GetUser :: "memory \<Rightarrow> string \<Rightarrow> UserSpec ptr result outcome" where
  "Memory_GetUser s i =
     (case glookup (mem_users s) i of
        None \<Rightarrow> Some (Inl (Errorf (''user not found: '' @ i)))
      | Some user \<Rightarrow> do { c \<leftarrow> UserSpec_DeepCopy user; Some (Inr c) })"

text \<open>
  The loop that appends a deep copy of every spec the condition keeps; \<open>p\<close> is dereferenced by
  the condition and by the copy.
\<close>

primrec copy_all :: "('a \<Rightarrow> 'a outcome) \<Rightarrow> ('a \<Rightarrow> bool) \<Rightarrow> 'a ptr list \<Rightarrow> 'a list \<Rightarrow> 'a list outcome"
where
  "copy_all into keep [] acc = Some acc"
| "copy_all into keep (p # ps) acc =
     do { x \<leftarrow> p;
          if keep x then do { c \<leftarrow> into x; copy_all into keep ps (acc @ [c]) }
          else copy_all into keep ps acc }"

type_synonym 'a order = "(string \<times> 'a) list \<Rightarrow> (string \<times> 'a) list"

definition Memory_ListUsers :: "UserSpec ptr order \<Rightarrow> memory \<Rightarrow> UserSpec list result outcome" where
  "Memory_ListUsers ord s =
     do { users \<leftarrow> copy_all UserSpec_DeepCopyInto (\<lambda>_. True) (map snd (ord (entries (mem_users s)))) [];
          Some (Inr users) }"

definition Memory_SyncUser :: "memory \<Rightarrow> UserSpec ptr \<Rightarrow> (goerror option \<times> memory) outcome" where
  "Memory_SyncUser s user =
     (case user of
        None \<Rightarrow> Some (Some (Errorf ''user cannot be nil''), s)
      | Some u \<Rightarrow>
          if u_Id u = [] then Some (Some (Errorf ''user id cannot be empty''), s)
          else do { c \<leftarrow> UserSpec_DeepCopy user;
                    m \<leftarrow> gset (u_Id u) c (mem_users s);
                    Some (None, s\<lparr>mem_users := m\<rparr>) })"

definition Memory_DeleteUser :: "memory \<Rightarrow> string \<Rightarrow> (goerror option \<times> memory) outcome" where
  "Memory_DeleteUser s i = Some (None, s\<lparr>mem_users := gdelete i (mem_users s)\<rparr>)"

definition Memory_UserExists :: "memory \<Rightarrow> string \<Rightarrow> bool result outcome" where
  "Memory_UserExists s i = Some (Inr (glookup (mem_users s) i \<noteq> None))"

definition Memory_GetModel :: "memory \<Rightarrow> string \<Rightarrow> ModelSpec ptr result outcome" where
  "Memory_GetModel s i =
     (case glookup (mem_models s) i of
        None \<Rightarrow> Some (Inl (Errorf (''model not found: '' @ i)))
      | Some model \<Rightarrow> do { c \<leftarrow> ModelSpec_DeepCopy model; Some (Inr c) })"

definition Memory_ListModels :: "ModelSpec ptr order \<Rightarrow> memory \<Rightarrow> ModelSpec list result outcome" where
  "Memory_ListModels ord s =
     do { models \<leftarrow> copy_all ModelSpec_DeepCopyInto (\<lambda>_. True)
                      (map snd (ord (entries (mem_models s)))) [];
          Some (Inr models) }"

definition Memory_ListModelsByType ::
    "ModelSpec ptr order \<Rightarrow> memory \<Rightarrow> string \<Rightarrow> ModelSpec list result outcome" where
  "Memory_ListModelsByType ord s modelType =
     do { models \<leftarrow> copy_all ModelSpec_DeepCopyInto (\<lambda>model. m_Type model = modelType)
                      (map snd (ord (entries (mem_models s)))) [];
          Some (Inr models) }"

definition Memory_SyncModel :: "memory \<Rightarrow> ModelSpec ptr \<Rightarrow> (goerror option \<times> memory) outcome" where
  "Memory_SyncModel s model =
     (case model of
        None \<Rightarrow> Some (Some (Errorf ''model cannot be nil''), s)
      | Some m \<Rightarrow>
          if m_Id m = [] then Some (Some (Errorf ''model id cannot be empty''), s)
          else do { c \<leftarrow> ModelSpec_DeepCopy model;
                    g \<leftarrow> gset (m_Id m) c (mem_models s);
                    Some (None, s\<lparr>mem_models := g\<rparr>) })"

definition Memory_DeleteModel :: "memory \<Rightarrow> string \<Rightarrow> (goerror option \<times> memory) outcome" where
  "Memory_DeleteModel s i = Some (None, s\<lparr>mem_models := gdelete i (mem_models s)\<rparr>)"

definition Memory_ModelExists :: "memory \<Rightarrow> string \<Rightarrow> bool result outcome" where
  "Memory_ModelExists s i = Some (Inr (glookup (mem_models s) i \<noteq> None))"

definition Memory_Close :: "memory \<Rightarrow> goerror option \<times> memory" where
  "Memory_Close s = (None, s)"

text \<open>The methods as a value of the interface, for given orders of the range loops.\<close>

definition Memory :: "UserSpec ptr order \<Rightarrow> ModelSpec ptr order \<Rightarrow> memory Store" where
  "Memory uord mord =
     \<lparr>GetUser = Memory_GetUser, ListUsers = Memory_ListUsers uord, UserExists = Memory_UserExists,
      GetModel = Memory_GetModel, ListModels = Memory_ListModels mord,
      ListModelsByType = Memory_ListModelsByType mord, ModelExists = Memory_ModelExists,
      SyncUser = Memory_SyncUser, DeleteUser = Memory_DeleteUser,
      SyncModel = Memory_SyncModel, DeleteModel = Memory_DeleteModel, Close = Memory_Close\<rparr>"

section \<open>Maps of pointers to specs\<close>

text \<open>
  A made map whose entries are non-nil pointers to well-formed specs, each under its own
  non-empty id.
\<close>

definition ptr_entry :: "('a \<Rightarrow> string) \<Rightarrow> ('a \<Rightarrow> bool) \<Rightarrow> string \<times> 'a ptr \<Rightarrow> bool" where
  "ptr_entry idf good kp \<longleftrightarrow>
     (case snd kp of None \<Rightarrow> False | Some x \<Rightarrow> idf x = fst kp \<and> fst kp \<noteq> [] \<and> good x)"

definition ptr_map :: "('a \<Rightarrow> string) \<Rightarrow> ('a \<Rightarrow> bool) \<Rightarrow> (string, 'a ptr) gomap \<Rightarrow> bool" where
  "ptr_map idf good m \<longleftrightarrow> m \<noteq> NilMap \<and> gwf m \<and> list_all (ptr_entry idf good) (entries m)"

definition ptr_abs :: "(string, 'a ptr) gomap \<Rightarrow> string \<rightharpoonup> 'a" where
  "ptr_abs m i = Option.bind (glookup m i) (\<lambda>p. p)"

lemma ptr_map_gmake: "ptr_map idf good gmake" "ptr_abs gmake = Map.empty"
  by (auto simp: ptr_map_def ptr_abs_def gmake_def gwf_def glookup_def)

lemma ptr_map_lookup:
  assumes "ptr_map idf good m" and "glookup m i = Some p"
  shows "\<exists>x. p = Some x \<and> idf x = i \<and> i \<noteq> [] \<and> good x"
  using assms glookup_in_entries [OF assms(2)]
  by (auto simp: ptr_map_def list_all_iff ptr_entry_def split: option.splits)

lemma ptr_abs_lookup: "ptr_map idf good m \<Longrightarrow> glookup m i = map_option Some (ptr_abs m i)"
  using ptr_map_lookup [of idf good m i] by (cases "glookup m i") (auto simp: ptr_abs_def)

lemma ptr_abs_some:
  "ptr_map idf good m \<Longrightarrow> ptr_abs m i = Some x \<Longrightarrow> idf x = i \<and> i \<noteq> [] \<and> good x"
  using ptr_map_lookup [of idf good m i] ptr_abs_lookup [of idf good m i] by auto

lemma ptr_map_gset:
  assumes m: "ptr_map idf good m" and x: "idf x \<noteq> []" "good x"
  shows "\<exists>m'. gset (idf x) (Some x) m = Some m' \<and> ptr_map idf good m'
           \<and> ptr_abs m' = (ptr_abs m)(idf x \<mapsto> x)"
proof -
  from m have "m \<noteq> NilMap" "gwf m" by (auto simp: ptr_map_def)
  then obtain m' where m': "gset (idf x) (Some x) m = Some m'"
    by (metis gset_made)
  have look: "glookup m' = (glookup m)(idf x \<mapsto> Some x)" by (rule glookup_gset [OF m'])
  have "ptr_entry idf good (k, p)" if "(k, p) \<in> set (entries m')" for k p
  proof -
    from that have "glookup m' k = Some p"
      using entries_glookup gwf_gset [OF m' \<open>gwf m\<close>] by metis
    then show ?thesis
      using look x ptr_map_lookup [OF m, of k p] by (auto simp: ptr_entry_def split: if_splits)
  qed
  then have "ptr_map idf good m'"
    using gset_not_nil [OF m'] gwf_gset [OF m' \<open>gwf m\<close>] by (auto simp: ptr_map_def list_all_iff)
  moreover have "ptr_abs m' = (ptr_abs m)(idf x \<mapsto> x)"
    by (auto simp: ptr_abs_def look fun_eq_iff)
  ultimately show ?thesis using m' by blast
qed

lemma ptr_map_gdelete:
  assumes m: "ptr_map idf good m"
  shows "ptr_map idf good (gdelete i m)" and "ptr_abs (gdelete i m) = (ptr_abs m)(i := None)"
proof -
  have "ptr_entry idf good (k, p)" if "(k, p) \<in> set (entries (gdelete i m))" for k p
  proof -
    from that m have "glookup (gdelete i m) k = Some p"
      using entries_glookup gwf_gdelete by (metis ptr_map_def)
    then show ?thesis
      using ptr_map_lookup [OF m, of k p]
      by (auto simp: ptr_entry_def glookup_gdelete split: if_splits)
  qed
  then show "ptr_map idf good (gdelete i m)"
    using m by (auto simp: ptr_map_def list_all_iff gwf_gdelete)
  show "ptr_abs (gdelete i m) = (ptr_abs m)(i := None)"
    by (auto simp: ptr_abs_def glookup_gdelete fun_eq_iff)
qed

text \<open>The copying loop on the pointers of such a map.\<close>

lemma copy_all_total:
  assumes "\<And>x. x \<in> set xs \<Longrightarrow> into x = Some x"
  shows "copy_all into keep (map Some xs) acc = Some (acc @ filter keep xs)"
  using assms by (induction xs arbitrary: acc) simp_all

lemma copy_all_entries:
  assumes m: "ptr_map idf good m" and ord: "range_order ord"
    and into: "\<And>x. good x \<Longrightarrow> into x = Some x"
  shows "\<exists>xs. copy_all into keep (map snd (ord (entries m))) [] = Some xs
           \<and> distinct (map idf xs) \<and> set xs = {x \<in> ran (ptr_abs m). keep x}"
proof -
  let ?es = "ord (entries m)"
  have set: "set ?es = set (entries m)" by (rule range_order_set [OF ord])
  have ent: "snd kp = Some (the (snd kp)) \<and> idf (the (snd kp)) = fst kp \<and> good (the (snd kp))"
    if "kp \<in> set ?es" for kp
    using that m set by (auto simp: ptr_map_def list_all_iff ptr_entry_def split: option.splits)
  let ?xs = "map (\<lambda>kp. the (snd kp)) ?es"
  have ps: "map snd ?es = map Some ?xs" using ent by simp
  have "into x = Some x" if "x \<in> set ?xs" for x using that ent into by auto
  then have copy: "copy_all into keep (map snd ?es) [] = Some (filter keep ?xs)"
    unfolding ps by (subst copy_all_total) simp_all
  have keys: "map idf ?xs = map fst ?es" using ent by simp
  have "distinct (map fst ?es)"
    using m by (simp add: range_order_distinct [OF ord] ptr_map_def gwf_def)
  then have dist: "distinct (map idf (filter keep ?xs))"
    unfolding keys [symmetric] by (rule distinct_map_filter)
  have "x \<in> set ?xs \<longleftrightarrow> x \<in> ran (ptr_abs m)" for x
  proof
    assume "x \<in> set ?xs"
    then obtain k p where "(k, p) \<in> set (entries m)" "p = Some x" using ent set by fastforce
    then have "ptr_abs m k = Some x"
      using entries_glookup m by (fastforce simp: ptr_map_def ptr_abs_def)
    then show "x \<in> ran (ptr_abs m)" by (rule ranI)
  next
    assume "x \<in> ran (ptr_abs m)"
    then obtain k where "glookup m k = Some (Some x)"
      using ptr_abs_lookup [OF m] by (auto simp: ran_def)
    then show "x \<in> set ?xs" using glookup_in_entries set by force
  qed
  then show ?thesis using copy dist by (intro exI [of _ "filter keep ?xs"]) auto
qed

section \<open>Invariant, abstraction, interpretation\<close>

definition mem_inv :: "memory \<Rightarrow> bool" where
  "mem_inv s \<longleftrightarrow> ptr_map u_Id wf_user (mem_users s) \<and> ptr_map m_Id wf_model (mem_models s)"

definition users_of :: "memory \<Rightarrow> string \<rightharpoonup> UserSpec" where
  "users_of s = ptr_abs (mem_users s)"

definition models_of :: "memory \<Rightarrow> string \<rightharpoonup> ModelSpec" where
  "models_of s = ptr_abs (mem_models s)"

lemmas memory_methods =
  Memory_def Memory_GetUser_def Memory_ListUsers_def Memory_UserExists_def Memory_GetModel_def
  Memory_ListModels_def Memory_ListModelsByType_def Memory_ModelExists_def

lemma mem_inv_New: "mem_inv New" "users_of New = Map.empty" "models_of New = Map.empty"
  by (simp_all add: mem_inv_def New_def users_of_def models_of_def ptr_map_gmake)

lemma mem_lookup:
  assumes "mem_inv s"
  shows "glookup (mem_users s) i = map_option Some (users_of s i)"
    and "glookup (mem_models s) i = map_option Some (models_of s i)"
    and "users_of s i = Some u \<Longrightarrow> u_Id u = i \<and> i \<noteq> [] \<and> wf_user u"
    and "models_of s i = Some m \<Longrightarrow> m_Id m = i \<and> i \<noteq> [] \<and> wf_model m"
  using assms ptr_abs_lookup ptr_abs_some by (fastforce simp: mem_inv_def users_of_def models_of_def)+

text \<open>
  The store's contract holds whatever orders the range loops take. The state changes are
  those of the two maps.
\<close>

lemma Memory_step:
  assumes "mem_inv s" and "op_wf x"
  shows "\<exists>e s'. store_step (Memory uord mord) x s = Some (e, s') \<and> mem_inv s'
           \<and> (users_of s', models_of s') = catalog_step x (users_of s, models_of s)
           \<and> (e \<noteq> None \<longleftrightarrow> op_fails x)"
proof -
  from assms(1) have u: "ptr_map u_Id wf_user (mem_users s)"
    and m: "ptr_map m_Id wf_model (mem_models s)" by (simp_all add: mem_inv_def)
  note defs = Memory_def Memory_SyncUser_def Memory_SyncModel_def Memory_DeleteUser_def
    Memory_DeleteModel_def mem_inv_def users_of_def models_of_def put_spec_def
  show ?thesis
  proof (cases x)
    case (OpSyncUser p)
    show ?thesis
    proof (cases "op_fails x")
      case True
      with OpSyncUser u m show ?thesis by (auto simp: defs split: option.splits)
    next
      case False
      with OpSyncUser obtain w where w: "p = Some w" "u_Id w \<noteq> []" by (cases p) auto
      with assms(2) OpSyncUser have "wf_user w" by simp
      with ptr_map_gset [OF u w(2)] obtain m' where "gset (u_Id w) (Some w) (mem_users s) = Some m'"
        "ptr_map u_Id wf_user m'" "ptr_abs m' = (ptr_abs (mem_users s))(u_Id w \<mapsto> w)" by blast
      with w m \<open>wf_user w\<close> OpSyncUser show ?thesis by (simp add: defs)
    qed
  next
    case (OpDeleteUser i)
    then show ?thesis using u m by (simp add: defs ptr_map_gdelete)
  next
    case (OpSyncModel p)
    show ?thesis
    proof (cases "op_fails x")
      case True
      with OpSyncModel u m show ?thesis by (auto simp: defs split: option.splits)
    next
      case False
      with OpSyncModel obtain w where w: "p = Some w" "m_Id w \<noteq> []" by (cases p) auto
      with assms(2) OpSyncModel have "wf_model w" by simp
      with ptr_map_gset [OF m w(2)] obtain m' where "gset (m_Id w) (Some w) (mem_models s) = Some m'"
        "ptr_map m_Id wf_model m'" "ptr_abs m' = (ptr_abs (mem_models s))(m_Id w \<mapsto> w)" by blast
      with w u \<open>wf_model w\<close> OpSyncModel show ?thesis by (simp add: defs)
    qed
  next
    case (OpDeleteModel i)
    then show ?thesis using u m by (simp add: defs ptr_map_gdelete)
  qed
qed

locale memory_orders =
  fixes uord :: "UserSpec ptr order" and mord :: "ModelSpec ptr order"
  assumes uord: "range_order uord" and mord: "range_order mord"

sublocale memory_orders \<subseteq> rw_store "Memory uord mord" mem_inv users_of models_of New
proof (unfold_locales, goal_cases)
  case (1 s i u)
  then show ?case using mem_lookup [OF 1(1), of i] by (auto simp: memory_methods)
next
  case (2 s i)
  then show ?case using mem_lookup [OF 2(1), of i] by (auto simp: memory_methods)
next
  case (3 s i)
  then show ?case using mem_lookup [OF 3, of i] by (auto simp: memory_methods)
next
  case (4 s)
  then have "ptr_map u_Id wf_user (mem_users s)" by (simp add: mem_inv_def)
  from copy_all_entries [OF this uord, of UserSpec_DeepCopyInto "\<lambda>_. True"]
  show ?case by (auto simp: memory_methods users_of_def)
next
  case (5 s i m)
  then show ?case using mem_lookup [OF 5(1), of i] by (auto simp: memory_methods)
next
  case (6 s i)
  then show ?case using mem_lookup [OF 6(1), of i] by (auto simp: memory_methods)
next
  case (7 s i)
  then show ?case using mem_lookup [OF 7, of i] by (auto simp: memory_methods)
next
  case (8 s)
  then have "ptr_map m_Id wf_model (mem_models s)" by (simp add: mem_inv_def)
  from copy_all_entries [OF this mord, of ModelSpec_DeepCopyInto "\<lambda>_. True"]
  show ?case by (auto simp: memory_methods models_of_def)
next
  case (9 s t)
  then have "ptr_map m_Id wf_model (mem_models s)" by (simp add: mem_inv_def)
  from copy_all_entries [OF this mord, of ModelSpec_DeepCopyInto "\<lambda>m. m_Type m = t"]
  show ?case by (auto simp: memory_methods models_of_def)
next
  case (10 s i u)
  then show ?case using mem_lookup(3) by blast
next
  case (11 s i m)
  then show ?case using mem_lookup(4) by blast
next
  case 12
  then show ?case by (rule mem_inv_New)
next
  case 13
  then show ?case by (rule mem_inv_New)
next
  case 14
  then show ?case by (rule mem_inv_New)
next
  case (15 s x)
  then show ?case by (rule Memory_step)
qed

text \<open>The invariant of a store that is only given specs the API server admits.\<close>

definition mem_good :: "memory \<Rightarrow> bool" where
  "mem_good s \<longleftrightarrow> mem_inv s \<and> catalog_good (users_of s, models_of s)"

lemma mem_good_New: "mem_good New"
  by (simp add: mem_good_def mem_inv_New catalog_good_def)

lemma mem_good_step:
  assumes "mem_good s" and "op_good x" and "store_step (Memory uord mord) x s = Some (e, s')"
  shows "mem_good s'"
proof -
  have "mem_inv s" and "catalog_good (users_of s, models_of s)"
    using assms(1) by (simp_all add: mem_good_def)
  with Memory_step [OF _ op_good_wf [OF assms(2)], of s uord mord] assms(2,3) show ?thesis
    by (auto simp: mem_good_def intro: catalog_good_step)
qed

lemma truncate_read [simp]:
  "GetUser (ReadStore.truncate R) = GetUser R"
  "ListUsers (ReadStore.truncate R) = ListUsers R"
  "UserExists (ReadStore.truncate R) = UserExists R"
  "GetModel (ReadStore.truncate R) = GetModel R"
  "ListModels (ReadStore.truncate R) = ListModels R"
  "ListModelsByType (ReadStore.truncate R) = ListModelsByType R"
  "ModelExists (ReadStore.truncate R) = ModelExists R"
  by (simp_all add: ReadStore.defs)

lemma mem_good_specs:
  assumes "mem_good s"
  shows "mem_inv s" and "users_of s i = Some u \<Longrightarrow> good_user u"
    and "models_of s i = Some m \<Longrightarrow> good_model m"
  using assms by (auto simp: mem_good_def catalog_good_def ran_def)

sublocale memory_orders \<subseteq> good: good_store "ReadStore.truncate (Memory uord mord)" mem_good
  users_of models_of
  by (unfold_locales, unfold truncate_read)
     (blast dest: mem_good_specs(1) intro: GetUser_found GetUser_missing UserExists_eq ListUsers_eq
       GetModel_found GetModel_missing ModelExists_eq ListModels_eq ListModelsByType_eq
       mem_good_specs(2,3) | blast dest: mem_good_specs(1) user_key model_key)+

interpretation mem: memory_orders id id
  by unfold_locales simp_all

section \<open>Runs\<close>

text \<open>The calls that change the state do not range over a map.\<close>

lemma store_run_orders: "store_run (Memory uord mord) xs = store_run (Memory uord' mord') xs"
proof (induction xs)
  case (Cons x xs)
  have "store_step (Memory uord mord) x = store_step (Memory uord' mord') x"
    by (cases x) (auto simp: Memory_def)
  with Cons show ?case by (simp add: fun_eq_iff)
qed (simp add: fun_eq_iff)

lemma Memory_run_refines:
  "list_all op_wf xs \<Longrightarrow>
     \<exists>es s. store_run (Memory uord mord) xs New = Some (es, s) \<and> mem_inv s
       \<and> (users_of s, models_of s) = fold catalog_step xs (Map.empty, Map.empty)
       \<and> map (\<lambda>e. e \<noteq> None) es = map op_fails xs"
  using mem.run_refines [OF mem_inv_New(1)]
  by (simp add: mem_inv_New store_run_orders [of uord mord _ id id])

lemma Memory_lists_type:
  assumes "range_order mord" and inv: "mem_inv s"
  shows "\<exists>ms. Memory_ListModelsByType mord s t = Some (Inr ms) \<and> distinct (map m_Id ms)
     \<and> (\<forall>m. m \<in> set ms \<longleftrightarrow> m_Type m = t \<and> models_of s (m_Id m) = Some m)"
proof -
  from inv have "ptr_map m_Id wf_model (mem_models s)" by (simp add: mem_inv_def)
  from copy_all_entries [OF this assms(1), of ModelSpec_DeepCopyInto "\<lambda>m. m_Type m = t"]
  obtain ms where ms: "Memory_ListModelsByType mord s t = Some (Inr ms)" "distinct (map m_Id ms)"
      "set ms = {m \<in> ran (models_of s). m_Type m = t}"
    by (auto simp: Memory_ListModelsByType_def models_of_def)
  have "m \<in> ran (models_of s) \<longleftrightarrow> models_of s (m_Id m) = Some m" for m
    using mem_lookup(4) [OF inv] unfolding ran_def by blast
  with ms show ?thesis by auto
qed

lemma Memory_run_lookup:
  assumes "list_all op_wf xs" and "store_run (Memory uord mord) xs New = Some (es, s)"
  shows "Memory_GetUser s i = Some (case latest (op_user i) None (rev xs) of
           Some u \<Rightarrow> Inr (Some u) | None \<Rightarrow> Inl (Errorf (''user not found: '' @ i)))"
    and "Memory_GetModel s i = Some (case latest (op_model i) None (rev xs) of
           Some m \<Rightarrow> Inr (Some m) | None \<Rightarrow> Inl (Errorf (''model not found: '' @ i)))"
    and "models_of s i = latest (op_model i) None (rev xs)" and "mem_inv s"
proof -
  from Memory_run_refines [OF assms(1), of uord mord] assms(2)
  have inv: "mem_inv s" and eq: "(users_of s, models_of s) = fold catalog_step xs (Map.empty, Map.empty)"
    by auto
  have u: "users_of s i = latest (op_user i) None (rev xs)"
    using fold_catalog_lookup(1) [of xs "(Map.empty, Map.empty)" i] by (simp add: eq [symmetric])
  have m: "models_of s i = latest (op_model i) None (rev xs)"
    using fold_catalog_lookup(2) [of xs "(Map.empty, Map.empty)" i] by (simp add: eq [symmetric])
  show "models_of s i = latest (op_model i) None (rev xs)" by (rule m)
  show "mem_inv s" by (rule inv)
  show "Memory_GetUser s i = Some (case latest (op_user i) None (rev xs) of
           Some u \<Rightarrow> Inr (Some u) | None \<Rightarrow> Inl (Errorf (''user not found: '' @ i)))"
    using mem_lookup(1,3) [OF inv, of i] u
    by (auto simp: Memory_GetUser_def split: option.split)
  show "Memory_GetModel s i = Some (case latest (op_model i) None (rev xs) of
           Some m \<Rightarrow> Inr (Some m) | None \<Rightarrow> Inl (Errorf (''model not found: '' @ i)))"
    using mem_lookup(2,4) [OF inv, of i] m
    by (auto simp: Memory_GetModel_def split: option.split)
qed

end
