(* ===== verification/Controller.thy ===== *)
theory Controller
  imports MemoryStore
begin

text \<open>
  \<open>pkg/controller\<close>: the reconcilers that keep the store in step with the custom resources. The
  two are the same code up to the type and the store methods, so \<open>reconcile\<close> takes what
  differs. The Kubernetes client and the finalizer helpers are arguments (\<open>kube\<close>), over the
  state \<open>'k\<close> of the cluster; \<open>kube_conforms\<close> states what their documentation says. A
  reconciliation passes on the cluster, the store and the flag \<open>Synced\<close> of the readiness check.
\<close>

section \<open>The client\<close>

record ('k, 'x) kube =
  kube_Get :: "'k \<Rightarrow> string \<Rightarrow> 'x result"
  kube_Update :: "'k \<Rightarrow> 'x \<Rightarrow> goerror option \<times> 'x \<times> 'k"
  IsNotFound :: "goerror \<Rightarrow> bool"
  GetDeletionTimestamp :: "'x \<Rightarrow> int option"
  ContainsFinalizer :: "'x \<Rightarrow> string \<Rightarrow> bool"
  AddFinalizer :: "'x \<Rightarrow> string \<Rightarrow> 'x"
  RemoveFinalizer :: "'x \<Rightarrow> string \<Rightarrow> 'x"

definition userFinalizer :: string where
  "userFinalizer = ''user.accesscontrol.llm-d.io/finalizer''"

definition modelFinalizer :: string where
  "modelFinalizer = ''model.accesscontrol.llm-d.io/finalizer''"

section \<open>Reconciling\<close>

type_synonym ('k, 's) world = "'k \<times> 's \<times> bool"

definition reconcile ::
    "('k, 'x) kube \<Rightarrow> string \<Rightarrow> ('s \<Rightarrow> 'x \<Rightarrow> (goerror option \<times> 's) outcome)
      \<Rightarrow> ('s \<Rightarrow> 'x \<Rightarrow> (goerror option \<times> 's) outcome) \<Rightarrow> string
      \<Rightarrow> string \<Rightarrow> ('k, 's) world \<Rightarrow> (goerror option \<times> ('k, 's) world) outcome"
where
  "reconcile K finalizer del sync what name w =
     (case w of (k, s, synced) \<Rightarrow>
        case kube_Get K k name of
          Inl err \<Rightarrow> Some (if IsNotFound K err then None else Some err, (k, s, synced))
        | Inr x \<Rightarrow>
            let isMarkedForDeletion = GetDeletionTimestamp K x \<noteq> None
            in if isMarkedForDeletion then
                 if ContainsFinalizer K x finalizer then
                   do { (err, s1) \<leftarrow> del s x;
                        case err of
                          Some e \<Rightarrow> Some (Some (Wrap (''failed to delete '' @ what @ '': '') e), (k, s1, synced))
                        | None \<Rightarrow>
                            (case kube_Update K k (RemoveFinalizer K x finalizer) of
                               (err, _, k1) \<Rightarrow> Some (err, (k1, s1, synced))) }
                 else Some (None, (k, s, synced))
               else
                 (case (if \<not> ContainsFinalizer K x finalizer
                        then kube_Update K k (AddFinalizer K x finalizer) else (None, x, k)) of
                    (Some err, _, k1) \<Rightarrow> Some (Some err, (k1, s, synced))
                  | (None, x1, k1) \<Rightarrow>
                      do { (err, s1) \<leftarrow> sync s x1;
                           case err of
                             Some e \<Rightarrow> Some (Some (Wrap (''failed to sync '' @ what @ '': '') e), (k1, s1, synced))
                           | None \<Rightarrow> Some (None, (k1, s1, True)) }))"

definition User_Reconcile ::
    "('k, ('t, 'o) User) kube \<Rightarrow> 's Store \<Rightarrow> string \<Rightarrow> ('k, 's) world
      \<Rightarrow> (goerror option \<times> ('k, 's) world) outcome" where
  "User_Reconcile K S =
     reconcile K userFinalizer (\<lambda>s user. DeleteUser S s (u_Id (usr_Spec user)))
       (\<lambda>s user. SyncUser S s (Some (usr_Spec user))) ''user''"

definition Model_Reconcile ::
    "('k, ('t, 'o) Model) kube \<Rightarrow> 's Store \<Rightarrow> string \<Rightarrow> ('k, 's) world
      \<Rightarrow> (goerror option \<times> ('k, 's) world) outcome" where
  "Model_Reconcile K S =
     reconcile K modelFinalizer (\<lambda>s model. DeleteModel S s (m_Id (mod_Spec model)))
       (\<lambda>s model. SyncModel S s (Some (mod_Spec model))) ''model''"

text \<open>
  After a start the controller is handed every resource of its kind, in some order: one
  reconciliation for each name of a list.
\<close>

primrec reconcile_all ::
    "(string \<Rightarrow> 'w \<Rightarrow> (goerror option \<times> 'w) outcome) \<Rightarrow> string list \<Rightarrow> 'w \<Rightarrow> (goerror option list \<times> 'w) outcome"
where
  "reconcile_all rec [] w = Some ([], w)"
| "reconcile_all rec (n # ns) w =
     do { (e, w1) \<leftarrow> rec n w; (es, w2) \<leftarrow> reconcile_all rec ns w1; Some (e # es, w2) }"

text \<open>The readiness check of the process.\<close>

definition readyz :: "('k, 's) world \<Rightarrow> goerror option" where
  "readyz w = (if snd (snd w) then None else Some (Errorf ''policy engine not synced''))"

section \<open>What Kubernetes documents\<close>

text \<open>
  \<open>objs k\<close> are the objects of the cluster by name. Reading returns the object, a not-found
  error when there is none, or another error. The finalizer helpers change nothing but the finalizers. An update that succeeds stores
  the object under its name, with the finalizers and the spec it was given and its deletion mark as it was, or removes it when
  it is marked for deletion and its last finalizer is gone; one that fails changes nothing.
\<close>

definition finalizer_laws :: "('k, 'x) kube \<Rightarrow> ('x \<Rightarrow> 'c) \<Rightarrow> bool" where
  "finalizer_laws K content \<longleftrightarrow>
     (\<forall>x f g. ContainsFinalizer K (AddFinalizer K x f) g = (g = f \<or> ContainsFinalizer K x g))
     \<and> (\<forall>x f g. ContainsFinalizer K (RemoveFinalizer K x f) g = (g \<noteq> f \<and> ContainsFinalizer K x g))
     \<and> (\<forall>x f. content (AddFinalizer K x f) = content x \<and> content (RemoveFinalizer K x f) = content x)"

definition update_laws ::
    "('k, 'x) kube \<Rightarrow> ('x \<Rightarrow> string) \<Rightarrow> ('x \<Rightarrow> 'c) \<Rightarrow> ('k \<Rightarrow> string \<rightharpoonup> 'x) \<Rightarrow> bool" where
  "update_laws K name content objs \<longleftrightarrow>
     (\<forall>k x e x' k'. kube_Update K k x = (e, x', k') \<longrightarrow>
        (if e \<noteq> None then objs k' = objs k
         else content x' = content x \<and> name x' = name x
           \<and> GetDeletionTimestamp K x' = GetDeletionTimestamp K x
           \<and> (\<forall>f. ContainsFinalizer K x' f = ContainsFinalizer K x f)
           \<and> (objs k' = (objs k)(name x \<mapsto> x')
              \<or> GetDeletionTimestamp K x \<noteq> None \<and> objs k' = (objs k)(name x := None))))"

definition kube_conforms ::
    "('k, 'x) kube \<Rightarrow> ('x \<Rightarrow> string) \<Rightarrow> ('x \<Rightarrow> 'c) \<Rightarrow> ('k \<Rightarrow> string \<rightharpoonup> 'x) \<Rightarrow> bool" where
  "kube_conforms K name content objs \<longleftrightarrow>
     (\<forall>k n x. kube_Get K k n = Inr x \<longrightarrow> objs k n = Some x \<and> name x = n)
     \<and> (\<forall>k n e. kube_Get K k n = Inl e \<longrightarrow> IsNotFound K e \<longrightarrow> objs k n = None)
     \<and> (\<forall>x f. name (AddFinalizer K x f) = name x \<and> name (RemoveFinalizer K x f) = name x
          \<and> GetDeletionTimestamp K (AddFinalizer K x f) = GetDeletionTimestamp K x
          \<and> GetDeletionTimestamp K (RemoveFinalizer K x f) = GetDeletionTimestamp K x)
     \<and> finalizer_laws K content \<and> update_laws K name content objs"

lemma kube_conforms_Get:
  assumes "kube_conforms K name content objs"
  shows "kube_Get K k n = Inr x \<Longrightarrow> objs k n = Some x \<and> name x = n"
    and "kube_Get K k n = Inl e \<Longrightarrow> IsNotFound K e \<Longrightarrow> objs k n = None"
  using assms unfolding kube_conforms_def by blast+

lemma kube_conforms_Update:
  assumes "kube_conforms K name content objs" and "kube_Update K k x = (e, x', k')"
  shows "e \<noteq> None \<Longrightarrow> objs k' = objs k"
    and "e = None \<Longrightarrow> content x' = content x \<and> name x' = name x
      \<and> GetDeletionTimestamp K x' = GetDeletionTimestamp K x
      \<and> (\<forall>f. ContainsFinalizer K x' f = ContainsFinalizer K x f)
      \<and> (objs k' = (objs k)(name x \<mapsto> x')
         \<or> GetDeletionTimestamp K x \<noteq> None \<and> objs k' = (objs k)(name x := None))"
proof -
  have "if e \<noteq> None then objs k' = objs k
      else content x' = content x \<and> name x' = name x
        \<and> GetDeletionTimestamp K x' = GetDeletionTimestamp K x
        \<and> (\<forall>f. ContainsFinalizer K x' f = ContainsFinalizer K x f)
        \<and> (objs k' = (objs k)(name x \<mapsto> x')
           \<or> GetDeletionTimestamp K x \<noteq> None \<and> objs k' = (objs k)(name x := None))"
    using assms unfolding kube_conforms_def update_laws_def by blast
  then show "e \<noteq> None \<Longrightarrow> objs k' = objs k"
    and "e = None \<Longrightarrow> content x' = content x \<and> name x' = name x
      \<and> GetDeletionTimestamp K x' = GetDeletionTimestamp K x
      \<and> (\<forall>f. ContainsFinalizer K x' f = ContainsFinalizer K x f)
      \<and> (objs k' = (objs k)(name x \<mapsto> x')
         \<or> GetDeletionTimestamp K x \<noteq> None \<and> objs k' = (objs k)(name x := None))"
    by (simp_all split: if_splits)
qed

lemma kube_conforms_finalizers:
  assumes "kube_conforms K name content objs"
  shows "ContainsFinalizer K (AddFinalizer K x f) g = (g = f \<or> ContainsFinalizer K x g)"
    and "ContainsFinalizer K (RemoveFinalizer K x f) g = (g \<noteq> f \<and> ContainsFinalizer K x g)"
    and "content (AddFinalizer K x f) = content x" "content (RemoveFinalizer K x f) = content x"
    and "name (AddFinalizer K x f) = name x" "name (RemoveFinalizer K x f) = name x"
    and "GetDeletionTimestamp K (AddFinalizer K x f) = GetDeletionTimestamp K x"
      "GetDeletionTimestamp K (RemoveFinalizer K x f) = GetDeletionTimestamp K x"
  using assms unfolding kube_conforms_def finalizer_laws_def by auto

section \<open>Reconciling against a store\<close>

text \<open>
  What the reconcilers need of the store: the invariant \<open>I\<close>, the specs it holds by id, and
  deletion and syncing of one spec.
\<close>

locale reconciled_store =
  fixes I :: "'s \<Rightarrow> bool" and specs :: "'s \<Rightarrow> string \<rightharpoonup> 'c" and ident :: "'c \<Rightarrow> string"
    and good :: "'c \<Rightarrow> bool"
    and del :: "'s \<Rightarrow> 'c \<Rightarrow> (goerror option \<times> 's) outcome"
    and sync :: "'s \<Rightarrow> 'c \<Rightarrow> (goerror option \<times> 's) outcome"
  assumes del_eq: "I s \<Longrightarrow> \<exists>s'. del s c = Some (None, s') \<and> I s' \<and> specs s' = (specs s)(ident c := None)"
    and sync_eq: "I s \<Longrightarrow> good c \<Longrightarrow> ident c \<noteq> [] \<Longrightarrow>
        \<exists>s'. sync s c = Some (None, s') \<and> I s' \<and> specs s' = (specs s)(ident c \<mapsto> c)"
    and sync_err: "I s \<Longrightarrow> ident c = [] \<Longrightarrow> \<exists>e. sync s c = Some (Some e, s)"
begin

text \<open>Every spec in the store belongs to an object that carries the finalizer.\<close>

definition backed ::
    "('k, 'x) kube \<Rightarrow> string \<Rightarrow> ('x \<Rightarrow> 'c) \<Rightarrow> (string \<rightharpoonup> 'x) \<Rightarrow> 's \<Rightarrow> bool" where
  "backed K finalizer content os s \<longleftrightarrow>
     (\<forall>i. specs s i \<noteq> None \<longrightarrow>
        (\<exists>n x. os n = Some x \<and> ContainsFinalizer K x finalizer \<and> ident (content x) = i))"

text \<open>The object with the finalizer, added if it was not there.\<close>

lemma finalizer_added:
  assumes K: "kube_conforms K name content objs"
    and x: "objs k n = Some x" "name x = n" "GetDeletionTimestamp K x = None"
    and up: "(if \<not> ContainsFinalizer K x finalizer
              then kube_Update K k (AddFinalizer K x finalizer) else (None, x, k)) = (e1, x1, k1)"
  shows "e1 \<noteq> None \<Longrightarrow> objs k1 = objs k"
    and "e1 = None \<Longrightarrow> content x1 = content x \<and> ContainsFinalizer K x1 finalizer
       \<and> objs k1 = (objs k)(n \<mapsto> x1) \<and> GetDeletionTimestamp K x1 = None"
proof -
  show "e1 \<noteq> None \<Longrightarrow> objs k1 = objs k"
    using up kube_conforms_Update(1) [OF K] by (auto split: if_splits)
  assume e1: "e1 = None"
  show "content x1 = content x \<and> ContainsFinalizer K x1 finalizer
       \<and> objs k1 = (objs k)(n \<mapsto> x1) \<and> GetDeletionTimestamp K x1 = None"
  proof (cases "ContainsFinalizer K x finalizer")
    case True
    with up x e1 show ?thesis by (auto simp: fun_upd_idem)
  next
    case False
    with up e1 have "kube_Update K k (AddFinalizer K x finalizer) = (None, x1, k1)" by simp
    from kube_conforms_Update(2) [OF K this] kube_conforms_finalizers [OF K] x show ?thesis by auto
  qed
qed

text \<open>The branch that syncs, and the one that cleans up.\<close>

lemma reconcile_sync:
  assumes K: "kube_conforms K name content objs"
    and I: "I s" and good: "\<forall>n x. objs k n = Some x \<longrightarrow> good (content x)"
    and get: "kube_Get K k n = Inr x" and live: "GetDeletionTimestamp K x = None"
    and run: "reconcile K finalizer (\<lambda>s x. del s (content x)) (\<lambda>s x. sync s (content x)) what n
        (k, s, b) = Some (e, (k', s', b'))"
  shows "e \<noteq> None \<and> s' = s \<and> b' = b \<and> objs k' = objs k
     \<or> (\<exists>x'. content x' = content x \<and> ContainsFinalizer K x' finalizer \<and> objs k' = (objs k)(n \<mapsto> x')
          \<and> GetDeletionTimestamp K x' = None
          \<and> (if ident (content x) = [] then e \<noteq> None \<and> s' = s \<and> b' = b
             else e = None \<and> I s' \<and> specs s' = (specs s)(ident (content x) \<mapsto> content x) \<and> b'))"
proof -
  from kube_conforms_Get(1) [OF K get] have x: "objs k n = Some x" "name x = n" by auto
  let ?up = "if \<not> ContainsFinalizer K x finalizer
             then kube_Update K k (AddFinalizer K x finalizer) else (None, x, k)"
  obtain e1 x1 k1 where up: "?up = (e1, x1, k1)" by (cases ?up) auto
  note added = finalizer_added [OF K x live up]
  have run': "Some (e, (k', s', b')) = (case e1 of
        Some err \<Rightarrow> Some (Some err, (k1, s, b))
      | None \<Rightarrow> do { (err, s1) \<leftarrow> sync s (content x1);
                    case err of
                      Some e \<Rightarrow> Some (Some (Wrap (''failed to sync '' @ what @ '': '') e), (k1, s1, b))
                    | None \<Rightarrow> Some (None, (k1, s1, True)) })"
    using run get live up by (auto simp: reconcile_def split: option.splits)
  show ?thesis
  proof (cases e1)
    case (Some err)
    with run' added(1) show ?thesis by auto
  next
    case e1: None
    with added(2) have x1: "content x1 = content x" "ContainsFinalizer K x1 finalizer"
        "objs k1 = (objs k)(n \<mapsto> x1)" "GetDeletionTimestamp K x1 = None" by auto
    show ?thesis
    proof (cases "ident (content x) = []")
      case True
      then obtain e2 where "sync s (content x1) = Some (Some e2, s)" using sync_err [OF I] x1(1) by metis
      with run' e1 True x1 show ?thesis by (intro disjI2 exI [of _ x1]) auto
    next
      case False
      obtain s1 where "sync s (content x1) = Some (None, s1)" "I s1"
          "specs s1 = (specs s)(ident (content x) \<mapsto> content x)"
        using sync_eq [OF I good [rule_format, OF x(1)] False] x1(1) by metis
      with run' e1 False x1 show ?thesis by (intro disjI2 exI [of _ x1]) auto
    qed
  qed
qed

lemma reconcile_cleanup:
  assumes K: "kube_conforms K name content objs" and I: "I s"
    and get: "kube_Get K k n = Inr x" and marked: "GetDeletionTimestamp K x \<noteq> None"
    and fin: "ContainsFinalizer K x finalizer"
    and run: "reconcile K finalizer (\<lambda>s x. del s (content x)) (\<lambda>s x. sync s (content x)) what n
        (k, s, b) = Some (e, (k', s', b'))"
  shows "I s'" "specs s' = (specs s)(ident (content x) := None)" "b' = b" "m \<noteq> n \<Longrightarrow> objs k' m = objs k m"
    "case objs k' n of None \<Rightarrow> True
       | Some x' \<Rightarrow> content x' = content x \<and> GetDeletionTimestamp K x' = GetDeletionTimestamp K x"
    "e = None \<Longrightarrow> case objs k' n of None \<Rightarrow> True | Some x' \<Rightarrow> \<not> ContainsFinalizer K x' finalizer"
proof -
  from kube_conforms_Get(1) [OF K get] have x: "objs k n = Some x" "name x = n" by auto
  note fin' = kube_conforms_finalizers [OF K]
  obtain s1 where s1: "del s (content x) = Some (None, s1)" "I s1"
      "specs s1 = (specs s)(ident (content x) := None)" using del_eq [OF I] by blast
  obtain x1 where up: "kube_Update K k (RemoveFinalizer K x finalizer) = (e, x1, k')"
      and eqs: "s' = s1" "b' = b"
    using run get marked fin s1(1) by (auto simp: reconcile_def split: prod.splits)
  note upd = kube_conforms_Update [OF K up]
  show "I s'" "specs s' = (specs s)(ident (content x) := None)" "b' = b" using s1 eqs by simp_all
  show "m \<noteq> n \<Longrightarrow> objs k' m = objs k m" using upd x fin' by (cases e) auto
  show "case objs k' n of None \<Rightarrow> True
      | Some x' \<Rightarrow> content x' = content x \<and> GetDeletionTimestamp K x' = GetDeletionTimestamp K x"
    using upd x fin' by (cases e) auto
  show "case objs k' n of None \<Rightarrow> True | Some x' \<Rightarrow> \<not> ContainsFinalizer K x' finalizer" if "e = None"
    using upd(2) [OF that] x fin' by auto
qed

text \<open>The branches of a reconciliation: what it returns and what it leaves.\<close>

lemma reconcile_cases:
  assumes K: "kube_conforms K name content objs"
    and I: "I s" and good: "\<forall>n x. objs k n = Some x \<longrightarrow> good (content x)"
    and run: "reconcile K finalizer (\<lambda>s x. del s (content x)) (\<lambda>s x. sync s (content x)) what n
        (k, s, b) = Some (e, (k', s', b'))"
  obtains (untouched) "s' = s" "b' = b" "objs k' = objs k"
      "e = None \<Longrightarrow> case objs k n of None \<Rightarrow> True
         | Some x \<Rightarrow> GetDeletionTimestamp K x \<noteq> None \<and> \<not> ContainsFinalizer K x finalizer"
  | (refused) x x' where "objs k n = Some x" "GetDeletionTimestamp K x = None" "e \<noteq> None"
      "s' = s" "b' = b" "ident (content x) = []" "content x' = content x"
      "ContainsFinalizer K x' finalizer" "objs k' = (objs k)(n \<mapsto> x')"
  | (deleted) x where "objs k n = Some x" "GetDeletionTimestamp K x \<noteq> None"
      "ContainsFinalizer K x finalizer" "I s'" "specs s' = (specs s)(ident (content x) := None)" "b' = b"
      "\<And>m. m \<noteq> n \<Longrightarrow> objs k' m = objs k m"
      "case objs k' n of None \<Rightarrow> True
         | Some x' \<Rightarrow> content x' = content x \<and> GetDeletionTimestamp K x' = GetDeletionTimestamp K x"
      "e = None \<Longrightarrow> case objs k' n of None \<Rightarrow> True | Some x' \<Rightarrow> \<not> ContainsFinalizer K x' finalizer"
  | (synced) x x' where "objs k n = Some x" "GetDeletionTimestamp K x = None" "e = None"
      "I s'" "specs s' = (specs s)(ident (content x) \<mapsto> content x)" "b' = True"
      "content x' = content x" "ContainsFinalizer K x' finalizer" "objs k' = (objs k)(n \<mapsto> x')"
      "GetDeletionTimestamp K x' = None"
proof (cases "kube_Get K k n")
  case (Inl err)
  have "e = None \<Longrightarrow> objs k n = None"
    using run Inl kube_conforms_Get(2) [OF K Inl] by (auto simp: reconcile_def split: if_splits)
  moreover have "s' = s" "b' = b" "k' = k" using run Inl by (auto simp: reconcile_def)
  ultimately show ?thesis using untouched by simp
next
  case (Inr x)
  from kube_conforms_Get(1) [OF K Inr] have x: "objs k n = Some x" by auto
  consider "GetDeletionTimestamp K x = None" | "GetDeletionTimestamp K x \<noteq> None" "ContainsFinalizer K x finalizer"
    | "GetDeletionTimestamp K x \<noteq> None" "\<not> ContainsFinalizer K x finalizer" by blast
  then show ?thesis
  proof cases
    case 1
    from reconcile_sync [OF K I good Inr 1 run] x 1 show ?thesis
      using untouched refused synced by (auto split: if_splits)
  next
    case 2
    from reconcile_cleanup [OF K I Inr 2 run] x 2 show ?thesis using deleted by blast
  next
    case 3
    then have "s' = s" "b' = b" "k' = k" using run Inr by (auto simp: reconcile_def)
    with x 3 show ?thesis using untouched by simp
  qed
qed

lemma reconcile_total:
  assumes K: "kube_conforms K name content objs"
    and I: "I s" and good: "\<forall>n x. objs k n = Some x \<longrightarrow> good (content x)"
  shows "\<exists>e w. reconcile K finalizer (\<lambda>s x. del s (content x)) (\<lambda>s x. sync s (content x)) what n
        (k, s, b) = Some (e, w)"
proof (cases "kube_Get K k n")
  case (Inl err)
  then show ?thesis by (simp add: reconcile_def)
next
  case (Inr x)
  have x: "objs k n = Some x" using kube_conforms_Get(1) [OF K Inr] by simp
  obtain s1 where s1: "del s (content x) = Some (None, s1)" using del_eq [OF I] by blast
  obtain e1 x1 k1 where up: "(if \<not> ContainsFinalizer K x finalizer
      then kube_Update K k (AddFinalizer K x finalizer) else (None, x, k)) = (e1, x1, k1)"
    using prod_cases3 by blast
  have "content x1 = content x" if "e1 = None"
    using up that kube_conforms_Update(2) [OF K] kube_conforms_finalizers(3) [OF K]
    by (auto split: if_splits)
  then have "\<exists>e2 s2. sync s (content x1) = Some (e2, s2)" if "e1 = None"
    using that sync_eq [OF I good [rule_format, OF x]] sync_err [OF I, of "content x"]
    by (cases "ident (content x) = []") fastforce+
  then show ?thesis
    using Inr s1 up
    by (cases e1) (auto simp: reconcile_def Let_def split: option.splits prod.splits)
qed

lemma backed_update:
  assumes b: "backed K finalizer content os s" and x: "os n = Some x" "content x' = content x"
    and f: "ContainsFinalizer K x' finalizer"
  shows "backed K finalizer content (os(n \<mapsto> x')) s"
  unfolding backed_def
proof (intro allI impI)
  fix i
  assume "specs s i \<noteq> None"
  with b obtain m y where y: "os m = Some y" "ContainsFinalizer K y finalizer" "ident (content y) = i"
    unfolding backed_def by blast
  show "\<exists>m y. (os(n \<mapsto> x')) m = Some y \<and> ContainsFinalizer K y finalizer \<and> ident (content y) = i"
  proof (cases "m = n")
    case True
    with x y f have "(os(n \<mapsto> x')) n = Some x'" "ident (content x') = i" by auto
    with f show ?thesis by blast
  next
    case False
    with y have "(os(n \<mapsto> x')) m = Some y" by simp
    with y show ?thesis by blast
  qed
qed

lemma backed_insert:
  assumes "backed K finalizer content os s" and "specs s' = (specs s)(ident (content x) \<mapsto> c)"
    and "os n = Some x" and "ContainsFinalizer K x finalizer"
  shows "backed K finalizer content os s'"
  using assms unfolding backed_def by (metis fun_upd_apply)

text \<open>A reconciliation keeps the specs in the store backed by objects with the finalizer.\<close>

lemma reconcile_backed:
  assumes K: "kube_conforms K name content objs"
    and I: "I s" and good: "\<forall>n x. objs k n = Some x \<longrightarrow> good (content x)"
    and run: "reconcile K finalizer (\<lambda>s x. del s (content x)) (\<lambda>s x. sync s (content x)) what n
        (k, s, b) = Some (e, (k', s', b'))"
    and b: "backed K finalizer content (objs k) s"
  shows "I s'" and "backed K finalizer content (objs k') s'"
proof -
  have "I s' \<and> backed K finalizer content (objs k') s'"
  proof (cases rule: reconcile_cases [OF K I good run, case_names untouched refused deleted synced])
    case untouched
    with I b show ?thesis by simp
  next
    case (refused x x')
    have "backed K finalizer content (objs k') s"
      unfolding refused(9) by (rule backed_update [OF b refused(1,7,8)])
    with I refused(4) show ?thesis by simp
  next
    case (deleted x)
    have "\<exists>n' x'. objs k' n' = Some x' \<and> ContainsFinalizer K x' finalizer \<and> ident (content x') = i"
      if "specs s' i \<noteq> None" for i
    proof -
      from that deleted(5) have i: "specs s i \<noteq> None" "i \<noteq> ident (content x)"
        by (auto split: if_splits)
      with b obtain n' x' where n': "objs k n' = Some x'" "ContainsFinalizer K x' finalizer"
          "ident (content x') = i" by (auto simp: backed_def)
      with i deleted(1) have "n' \<noteq> n" by auto
      with n' deleted(7) [of n'] show ?thesis by auto
    qed
    with deleted(4) show ?thesis by (auto simp: backed_def)
  next
    case (synced x x')
    have "backed K finalizer content (objs k') s"
      unfolding synced(9) by (rule backed_update [OF b synced(1,7,8)])
    then have "backed K finalizer content (objs k') s'"
      by (rule backed_insert [where x = x' and n = n]) (use synced in simp_all)
    with synced(4) show ?thesis by simp
  qed
  then show "I s'" and "backed K finalizer content (objs k') s'" by auto
qed

text \<open>
  It keeps the store's invariant, leaves an id alone that the object does not have, and brings
  no content to the cluster that was not there.
\<close>

lemma reconcile_frame:
  assumes K: "kube_conforms K name content objs"
    and I: "I s" and good: "\<forall>n x. objs k n = Some x \<longrightarrow> good (content x)"
    and run: "reconcile K finalizer (\<lambda>s x. del s (content x)) (\<lambda>s x. sync s (content x)) what n
        (k, s, b) = Some (e, (k', s', b'))"
  shows "I s'"
    and "\<forall>x. objs k n = Some x \<longrightarrow> ident (content x) \<noteq> i \<Longrightarrow> specs s' i = specs s i"
    and "objs k' m = Some x' \<Longrightarrow> \<exists>x. objs k m = Some x \<and> content x = content x'"
proof -
  have "I s' \<and> ((\<forall>x. objs k n = Some x \<longrightarrow> ident (content x) \<noteq> i) \<longrightarrow> specs s' i = specs s i)
    \<and> (objs k' m = Some x' \<longrightarrow> (\<exists>x. objs k m = Some x \<and> content x = content x'))"
  proof (cases rule: reconcile_cases [OF K I good run, case_names untouched refused deleted synced])
    case untouched
    with I show ?thesis by simp
  next
    case (refused x y)
    with I show ?thesis by (cases "m = n") auto
  next
    case (deleted x)
    then show ?thesis by (cases "m = n") (auto split: option.splits)
  next
    case (synced x y)
    then show ?thesis by (cases "m = n") auto
  qed
  then show "I s'"
    and "\<forall>x. objs k n = Some x \<longrightarrow> ident (content x) \<noteq> i \<Longrightarrow> specs s' i = specs s i"
    and "objs k' m = Some x' \<Longrightarrow> \<exists>x. objs k m = Some x \<and> content x = content x'" by blast+
qed

end

end
