(* ===== verification/Deployment.thy ===== *)
theory Deployment
  imports Controller
begin

text \<open>
  The reconcilers at work on the memory store of one process: a transition system of the
  cluster, the store and the readiness flag, in which reconciliations and changes from outside
  happen in any order. Its invariant is what finalizers are for: every user and model in the
  store still has its custom resource. The last section is a cluster that conforms.
\<close>

section \<open>The two reconcilers on the memory store\<close>

interpretation user_store: reconciled_store "\<lambda>s. mem_good s \<and> models_of s = M" users_of u_Id good_user
  "\<lambda>s c. Memory_DeleteUser s (u_Id c)" "\<lambda>s c. Memory_SyncUser s (Some c)" for M
proof (unfold_locales, goal_cases)
  case (1 s c)
  then have "mem_inv s" by (simp add: mem_good_def)
  from Memory_step [OF this, of "OpDeleteUser (u_Id c)" id id]
    mem_good_step [of s "OpDeleteUser (u_Id c)" id id] 1
  show ?case by (auto simp: Memory_def)
next
  case (2 s c)
  then have "mem_inv s" by (simp add: mem_good_def)
  from Memory_step [OF this, of "OpSyncUser (Some c)" id id]
    mem_good_step [of s "OpSyncUser (Some c)" id id] 2
  show ?case by (auto simp: Memory_def put_spec_def good_user_wf)
next
  case (3 s c)
  then show ?case by (simp add: Memory_SyncUser_def)
qed

interpretation model_store: reconciled_store "\<lambda>s. mem_good s \<and> users_of s = U" models_of m_Id good_model
  "\<lambda>s c. Memory_DeleteModel s (m_Id c)" "\<lambda>s c. Memory_SyncModel s (Some c)" for U
proof (unfold_locales, goal_cases)
  case (1 s c)
  then have "mem_inv s" by (simp add: mem_good_def)
  from Memory_step [OF this, of "OpDeleteModel (m_Id c)" id id]
    mem_good_step [of s "OpDeleteModel (m_Id c)" id id] 1
  show ?case by (auto simp: Memory_def)
next
  case (2 s c)
  then have "mem_inv s" by (simp add: mem_good_def)
  from Memory_step [OF this, of "OpSyncModel (Some c)" id id]
    mem_good_step [of s "OpSyncModel (Some c)" id id] 2
  show ?case by (auto simp: Memory_def put_spec_def good_model_wf)
next
  case (3 s c)
  then show ?case by (simp add: Memory_SyncModel_def)
qed

lemma User_Reconcile_memory:
  "User_Reconcile K (Memory uord mord) =
     reconcile K userFinalizer (\<lambda>s x. Memory_DeleteUser s (u_Id (usr_Spec x)))
       (\<lambda>s x. Memory_SyncUser s (Some (usr_Spec x))) ''user''"
  by (simp add: User_Reconcile_def Memory_def)

lemma Model_Reconcile_memory:
  "Model_Reconcile K (Memory uord mord) =
     reconcile K modelFinalizer (\<lambda>s x. Memory_DeleteModel s (m_Id (mod_Spec x)))
       (\<lambda>s x. Memory_SyncModel s (Some (mod_Spec x))) ''model''"
  by (simp add: Model_Reconcile_def Memory_def)

section \<open>The cluster\<close>

text \<open>
  Both clients conform, an update of one kind of object leaves the other kind alone, and the API
  server only stores admitted specs.
\<close>

record ('k, 't, 'o, 't1, 'o1) cluster =
  cl_users :: "('k, ('t, 'o) User) kube"
  cl_models :: "('k, ('t1, 'o1) Model) kube"
  cl_uname :: "('t, 'o) User \<Rightarrow> string"
  cl_mname :: "('t1, 'o1) Model \<Rightarrow> string"
  cl_uobjs :: "'k \<Rightarrow> string \<rightharpoonup> ('t, 'o) User"
  cl_mobjs :: "'k \<Rightarrow> string \<rightharpoonup> ('t1, 'o1) Model"

definition cluster_conforms :: "('k, 't, 'o, 't1, 'o1) cluster \<Rightarrow> bool" where
  "cluster_conforms c \<longleftrightarrow>
     kube_conforms (cl_users c) (cl_uname c) usr_Spec (cl_uobjs c)
     \<and> kube_conforms (cl_models c) (cl_mname c) mod_Spec (cl_mobjs c)
     \<and> (\<forall>k x e x' k'. kube_Update (cl_users c) k x = (e, x', k') \<longrightarrow> cl_mobjs c k' = cl_mobjs c k)
     \<and> (\<forall>k x e x' k'. kube_Update (cl_models c) k x = (e, x', k') \<longrightarrow> cl_uobjs c k' = cl_uobjs c k)
     \<and> (\<forall>k n x. cl_uobjs c k n = Some x \<longrightarrow> good_user (usr_Spec x))
     \<and> (\<forall>k n x. cl_mobjs c k n = Some x \<longrightarrow> good_model (mod_Spec x))"

text \<open>
  A change from outside: an object with the finalizer is not removed (deletion only marks it),
  keeps the finalizer and its id; anything else may happen.
\<close>

definition keeps_finalized ::
    "('k, 'x) kube \<Rightarrow> string \<Rightarrow> ('x \<Rightarrow> string) \<Rightarrow> (string \<rightharpoonup> 'x) \<Rightarrow> (string \<rightharpoonup> 'x) \<Rightarrow> bool" where
  "keeps_finalized K finalizer ident os os' \<longleftrightarrow>
     (\<forall>n x. os n = Some x \<longrightarrow> ContainsFinalizer K x finalizer \<longrightarrow>
        (\<exists>x'. os' n = Some x' \<and> ContainsFinalizer K x' finalizer \<and> ident x' = ident x))"

definition outside :: "('k, 't, 'o, 't1, 'o1) cluster \<Rightarrow> 'k \<Rightarrow> 'k \<Rightarrow> bool" where
  "outside c k k' \<longleftrightarrow>
     keeps_finalized (cl_users c) userFinalizer (\<lambda>x. u_Id (usr_Spec x)) (cl_uobjs c k) (cl_uobjs c k')
     \<and> keeps_finalized (cl_models c) modelFinalizer (\<lambda>x. m_Id (mod_Spec x)) (cl_mobjs c k) (cl_mobjs c k')"

section \<open>One process\<close>

text \<open>
  The states that a process may reach, from its start with an empty store, when everybody else
  changes the cluster by steps of \<open>others\<close>, at any moments; the names of the two queues come in any
  order. \<open>process\<close> is the case in which the others make changes from \<open>outside\<close>.
\<close>

inductive process_among ::
    "('k, 't, 'o, 't1, 'o1) cluster \<Rightarrow> ('k \<Rightarrow> 'k \<Rightarrow> bool) \<Rightarrow> ('k, memory) world \<Rightarrow> bool" for c others where
  start: "process_among c others (k, New, False)"
| change: "process_among c others (k, s, b) \<Longrightarrow> others k k' \<Longrightarrow> process_among c others (k', s, b)"
| user: "process_among c others w \<Longrightarrow>
     User_Reconcile (cl_users c) (Memory id id) n w = Some (e, w') \<Longrightarrow> process_among c others w'"
| model: "process_among c others w \<Longrightarrow>
     Model_Reconcile (cl_models c) (Memory id id) n w = Some (e, w') \<Longrightarrow> process_among c others w'"

abbreviation process :: "('k, 't, 'o, 't1, 'o1) cluster \<Rightarrow> ('k, memory) world \<Rightarrow> bool" where
  "process c \<equiv> process_among c (outside c)"

lemma process_among_mono:
  assumes "\<forall>k k'. others k k' \<longrightarrow> others' k k'"
  shows "process_among c others w \<Longrightarrow> process_among c others' w"
proof (induction rule: process_among.induct)
  case (change k s b k')
  then show ?case using assms process_among.change by metis
qed (auto intro: process_among.intros)

definition users_backed :: "('k, 't, 'o, 't1, 'o1) cluster \<Rightarrow> 'k \<Rightarrow> memory \<Rightarrow> bool" where
  "users_backed c k s \<longleftrightarrow>
     (\<forall>i. users_of s i \<noteq> None \<longrightarrow>
        (\<exists>n x. cl_uobjs c k n = Some x \<and> ContainsFinalizer (cl_users c) x userFinalizer
           \<and> u_Id (usr_Spec x) = i))"

definition models_backed :: "('k, 't, 'o, 't1, 'o1) cluster \<Rightarrow> 'k \<Rightarrow> memory \<Rightarrow> bool" where
  "models_backed c k s \<longleftrightarrow>
     (\<forall>i. models_of s i \<noteq> None \<longrightarrow>
        (\<exists>n x. cl_mobjs c k n = Some x \<and> ContainsFinalizer (cl_models c) x modelFinalizer
           \<and> m_Id (mod_Spec x) = i))"

lemma users_backed_iff:
  "users_backed c k s \<longleftrightarrow> user_store.backed (cl_users c) userFinalizer usr_Spec (cl_uobjs c k) s"
  by (simp add: users_backed_def user_store.backed_def)

lemma models_backed_iff:
  "models_backed c k s \<longleftrightarrow> model_store.backed (cl_models c) modelFinalizer mod_Spec (cl_mobjs c k) s"
  by (simp add: models_backed_def model_store.backed_def)

lemma keeps_finalized_backed:
  assumes "keeps_finalized K f ident os os'" and "\<forall>i. P i \<longrightarrow>
     (\<exists>n x. os n = Some x \<and> ContainsFinalizer K x f \<and> ident x = i)"
  shows "\<forall>i. P i \<longrightarrow> (\<exists>n x. os' n = Some x \<and> ContainsFinalizer K x f \<and> ident x = i)"
  using assms unfolding keeps_finalized_def by metis

text \<open>A reconciliation of a user does not touch the models, nor the other way round.\<close>

lemma reconcile_cluster:
  assumes run: "reconcile K f del sync what n (k, s, b) = Some (e, (k', s', b'))"
  shows "k' = k \<or> (\<exists>x e' x'. kube_Update K k x = (e', x', k'))"
proof (cases "kube_Get K k n")
  case (Inl err)
  with run show ?thesis by (simp add: reconcile_def)
next
  case (Inr x)
  show ?thesis
  proof (cases "GetDeletionTimestamp K x = None")
    case True
    show ?thesis
    proof (cases "ContainsFinalizer K x f")
      case True
      with run Inr \<open>GetDeletionTimestamp K x = None\<close> show ?thesis
        by (auto simp: reconcile_def bind_eq_Some_conv split: option.splits)
    next
      case False
      obtain e1 x1 k1 where up: "kube_Update K k (AddFinalizer K x f) = (e1, x1, k1)"
        using prod_cases3 by blast
      with run Inr False \<open>GetDeletionTimestamp K x = None\<close> have "k' = k1"
        by (auto simp: reconcile_def bind_eq_Some_conv split: option.splits)
      with up show ?thesis by blast
    qed
  next
    case False
    obtain e1 x1 k1 where up: "kube_Update K k (RemoveFinalizer K x f) = (e1, x1, k1)"
      using prod_cases3 by blast
    with run Inr False have "k' = k \<or> k' = k1"
      by (auto simp: reconcile_def bind_eq_Some_conv split: option.splits if_splits)
    with up show ?thesis by blast
  qed
qed

lemma reconcile_objs_other:
  assumes "\<forall>k x e x' k'. kube_Update K k x = (e, x', k') \<longrightarrow> other k' = other k"
    and "reconcile K f del sync what n (k, s, b) = Some (e, (k', s', b'))"
  shows "other k' = other k"
  using reconcile_cluster [OF assms(2)] assms(1) by metis

lemma process_inv:
  assumes c: "cluster_conforms c"
  shows "process c w \<Longrightarrow>
    (case w of (k, s, b) \<Rightarrow> mem_good s \<and> users_backed c k s \<and> models_backed c k s)"
proof (induction rule: process_among.induct)
  case (start k)
  then show ?case
    by (simp add: mem_good_New users_backed_def models_backed_def mem_inv_New)
next
  case (change k s b k')
  then have IH: "mem_good s" "users_backed c k s" "models_backed c k s"
    and out: "outside c k k'" by simp_all
  from out have u: "keeps_finalized (cl_users c) userFinalizer (\<lambda>x. u_Id (usr_Spec x)) (cl_uobjs c k) (cl_uobjs c k')"
    and m: "keeps_finalized (cl_models c) modelFinalizer (\<lambda>x. m_Id (mod_Spec x)) (cl_mobjs c k) (cl_mobjs c k')"
    by (simp_all add: outside_def)
  have "users_backed c k' s"
    using keeps_finalized_backed [OF u IH(2) [unfolded users_backed_def]] unfolding users_backed_def .
  moreover have "models_backed c k' s"
    using keeps_finalized_backed [OF m IH(3) [unfolded models_backed_def]] unfolding models_backed_def .
  ultimately show ?case using IH(1) by simp
next
  case (user w n e w')
  obtain k s b where w: "w = (k, s, b)" by (cases w)
  obtain k' s' b' where w': "w' = (k', s', b')" by (cases w')
  have K: "kube_conforms (cl_users c) (cl_uname c) usr_Spec (cl_uobjs c)"
    and adm: "\<forall>n x. cl_uobjs c k n = Some x \<longrightarrow> good_user (usr_Spec x)"
    using c by (simp_all add: cluster_conforms_def)
  note run = user.hyps(2) [unfolded w w' User_Reconcile_memory]
  from user.IH w have I: "mem_good s \<and> models_of s = models_of s" and ub: "users_backed c k s"
    and mb: "models_backed c k s" by auto
  note r = user_store.reconcile_backed [OF K I adm run ub [unfolded users_backed_iff]]
  have "cl_mobjs c k' = cl_mobjs c k"
    by (rule reconcile_objs_other [OF _ run]) (use c in \<open>simp add: cluster_conforms_def\<close>)
  with r mb show ?case by (simp add: w' users_backed_iff models_backed_def)
next
  case (model w n e w')
  obtain k s b where w: "w = (k, s, b)" by (cases w)
  obtain k' s' b' where w': "w' = (k', s', b')" by (cases w')
  have K: "kube_conforms (cl_models c) (cl_mname c) mod_Spec (cl_mobjs c)"
    and adm: "\<forall>n x. cl_mobjs c k n = Some x \<longrightarrow> good_model (mod_Spec x)"
    using c by (simp_all add: cluster_conforms_def)
  note run = model.hyps(2) [unfolded w w' Model_Reconcile_memory]
  from model.IH w have I: "mem_good s \<and> users_of s = users_of s" and ub: "users_backed c k s"
    and mb: "models_backed c k s" by auto
  note r = model_store.reconcile_backed [OF K I adm run mb [unfolded models_backed_iff]]
  have "cl_uobjs c k' = cl_uobjs c k"
    by (rule reconcile_objs_other [OF _ run]) (use c in \<open>simp add: cluster_conforms_def\<close>)
  with r ub show ?case by (simp add: w' models_backed_iff users_backed_def)
qed

section \<open>One reconciliation\<close>

lemma user_reconcile_result:
  assumes c: "cluster_conforms c" and s: "mem_good s"
    and run: "User_Reconcile (cl_users c) (Memory uord mord) n (k, s, b) = Some (None, (k', s', b'))"
  shows "\<forall>x. cl_uobjs c k n = Some x \<longrightarrow> GetDeletionTimestamp (cl_users c) x = None \<longrightarrow>
     users_of s' = (users_of s)(u_Id (usr_Spec x) \<mapsto> usr_Spec x) \<and> models_of s' = models_of s \<and> b'
     \<and> (\<exists>x'. cl_uobjs c k' n = Some x' \<and> usr_Spec x' = usr_Spec x
           \<and> ContainsFinalizer (cl_users c) x' userFinalizer)"
proof -
  have K: "kube_conforms (cl_users c) (cl_uname c) usr_Spec (cl_uobjs c)"
    and adm: "\<forall>n x. cl_uobjs c k n = Some x \<longrightarrow> good_user (usr_Spec x)"
    using c by (simp_all add: cluster_conforms_def)
  have I: "mem_good s \<and> models_of s = models_of s" using s by simp
  show ?thesis
    by (cases rule: user_store.reconcile_cases [OF K I adm run [unfolded User_Reconcile_memory]])
       auto
qed

lemma model_reconcile_result:
  assumes c: "cluster_conforms c" and s: "mem_good s"
    and x: "kube_Get (cl_models c) k n = Inr x" "GetDeletionTimestamp (cl_models c) x \<noteq> None"
      "ContainsFinalizer (cl_models c) x modelFinalizer"
    and run: "Model_Reconcile (cl_models c) (Memory uord mord) n (k, s, b) = Some (e, (k', s', b'))"
  shows "models_of s' = (models_of s)(m_Id (mod_Spec x) := None)" and "users_of s' = users_of s"
    and "e = None \<Longrightarrow> (case cl_mobjs c k' n of None \<Rightarrow> True
          | Some x' \<Rightarrow> \<not> ContainsFinalizer (cl_models c) x' modelFinalizer)"
proof -
  have K: "kube_conforms (cl_models c) (cl_mname c) mod_Spec (cl_mobjs c)"
    using c by (simp_all add: cluster_conforms_def)
  obtain s1 where s1: "Memory_DeleteModel s (m_Id (mod_Spec x)) = Some (None, s1)"
      "users_of s1 = users_of s" "models_of s1 = (models_of s)(m_Id (mod_Spec x) := None)"
    using model_store.del_eq [of s "users_of s" "mod_Spec x"] s by auto
  obtain x1 where up: "kube_Update (cl_models c) k (RemoveFinalizer (cl_models c) x modelFinalizer)
      = (e, x1, k')" and eq: "s' = s1"
    using run x s1(1) by (auto simp: Model_Reconcile_memory reconcile_def split: prod.splits)
  show "models_of s' = (models_of s)(m_Id (mod_Spec x) := None)" "users_of s' = users_of s"
    using s1 eq by simp_all
  show "case cl_mobjs c k' n of None \<Rightarrow> True
          | Some x' \<Rightarrow> \<not> ContainsFinalizer (cl_models c) x' modelFinalizer" if "e = None"
    using kube_conforms_Update(2) [OF K up that] kube_conforms_finalizers [OF K]
      kube_conforms_Get(1) [OF K x(1)]
    by auto
qed

text \<open>Reconciling a user when no resource has the id \<open>i\<close> leaves \<open>i\<close> alone, and adds no id.\<close>

lemma user_reconcile_frame:
  assumes c: "cluster_conforms c" and s: "mem_good s"
    and run: "User_Reconcile (cl_users c) (Memory uord mord) n (k, s, b) = Some (e, (k', s', b'))"
  shows "mem_good s'" and "models_of s' = models_of s"
    and "\<forall>x. cl_uobjs c k n = Some x \<longrightarrow> u_Id (usr_Spec x) \<noteq> i \<Longrightarrow> users_of s' i = users_of s i"
proof -
  have K: "kube_conforms (cl_users c) (cl_uname c) usr_Spec (cl_uobjs c)"
    and adm: "\<forall>n x. cl_uobjs c k n = Some x \<longrightarrow> good_user (usr_Spec x)"
    using c by (simp_all add: cluster_conforms_def)
  have I: "mem_good s \<and> models_of s = models_of s" using s by simp
  note r = user_store.reconcile_frame [OF K I adm run [unfolded User_Reconcile_memory]]
  from r(1) show "mem_good s'" "models_of s' = models_of s" by blast+
  show "\<forall>x. cl_uobjs c k n = Some x \<longrightarrow> u_Id (usr_Spec x) \<noteq> i \<Longrightarrow> users_of s' i = users_of s i"
    by (rule r(2))
qed

lemma model_reconcile_frame:
  assumes c: "cluster_conforms c" and s: "mem_good s"
    and run: "Model_Reconcile (cl_models c) (Memory uord mord) n (k, s, b) = Some (e, (k', s', b'))"
  shows "mem_good s'" and "users_of s' = users_of s"
proof -
  have K: "kube_conforms (cl_models c) (cl_mname c) mod_Spec (cl_mobjs c)"
    and adm: "\<forall>n x. cl_mobjs c k n = Some x \<longrightarrow> good_model (mod_Spec x)"
    using c by (simp_all add: cluster_conforms_def)
  have I: "mem_good s \<and> users_of s = users_of s" using s by simp
  from model_store.reconcile_frame(1) [OF K I adm run [unfolded Model_Reconcile_memory]]
  show "mem_good s'" "users_of s' = users_of s" by blast+
qed

end
