(* ===== verification/Startup.thy ===== *)
theory Startup
  imports ServerLaws Deployment
begin

text \<open>
  The store factory and \<open>cmd/secure-inference/main.go\<close>: from the configuration to the server.
  Logging is left out, and the manager of the controller runtime is an argument (the flags are in
  \<open>Flags\<close>); a failure anywhere
  ends the process with status 1 (\<open>Inl\<close>). The locale at the end is the server as it is deployed,
  an instance of the laws of \<open>ServerLaws\<close>.
\<close>

section \<open>The factory and the start\<close>

definition NewStoreFromConfig ::
    "UserSpec ptr order \<Rightarrow> ModelSpec ptr order \<Rightarrow> ComponentConfig \<Rightarrow> (memory Store \<times> memory) result"
where
  "NewStoreFromConfig uord mord cfg =
     (if cc_Type cfg = ''memory'' \<or> cc_Type cfg = [] then Inr (Memory uord mord, New)
      else Inl (Errorf (''unknown store type: '' @ cc_Type cfg @ '' (valid options: memory)'')))"

text \<open>What the start takes from its surroundings, the manager's answers among them.\<close>

record 'k env = "'k crypto" +
  env_golib :: golib
  env_isprint :: "nat \<Rightarrow> bool"
  env_yaml :: "string \<Rightarrow> SecureInferenceConfig \<Rightarrow> SecureInferenceConfig result"
  env_prepare :: opa_prepare
  env_http :: http_client
  env_uord :: "UserSpec ptr order"
  env_mord :: "ModelSpec ptr order"
  mgr_New :: "goerror option"
  mgr_SetupUser :: "goerror option"
  mgr_SetupModel :: "goerror option"
  mgr_AddServer :: "goerror option"
  mgr_AddHealthz :: "goerror option"
  mgr_AddReadyz :: "goerror option"

definition first_error :: "goerror option list \<Rightarrow> goerror option" where
  "first_error es = (case filter (\<lambda>e. e \<noteq> None) es of [] \<Rightarrow> None | e # _ \<Rightarrow> e)"

definition load :: "'k env \<Rightarrow> string \<Rightarrow> SecureInferenceConfig result" where
  "load V configPath =
     (if configPath \<noteq> [] then LoadConfig (ReadFile V) (env_yaml V) configPath else Inr DefaultConfig)"

definition startup :: "'k env \<Rightarrow> string \<Rightarrow> (memory ExtAuthzServer \<times> memory) result" where
  "startup V configPath =
     (case load V configPath of
        Inl err \<Rightarrow> Inl err
      | Inr cfg \<Rightarrow>
     (case Validate (ParseFloat (env_golib V)) (env_isprint V) cfg of
        Some err \<Rightarrow> Inl err
      | None \<Rightarrow>
     (case NewStoreFromConfig (env_uord V) (env_mord V) (cfg_DataStore cfg) of
        Inl err \<Rightarrow> Inl err
      | Inr (dataStore, s0) \<Rightarrow>
     (case NewPolicyEngineFromConfig (env_prepare V) (cfg_PolicyEngine cfg) of
        Inl err \<Rightarrow> Inl err
      | Inr engine \<Rightarrow>
     (case first_error [mgr_New V, mgr_SetupUser V, mgr_SetupModel V] of
        Some err \<Rightarrow> Inl err
      | None \<Rightarrow>
     (case NewAdapterSelectionFromConfig (env_golib V) (env_isprint V) (env_http V)
             (cfg_AdapterSelection cfg) of
        Inl err \<Rightarrow> Inl err
      | Inr sel \<Rightarrow>
     (case NewAuthenticatorFromConfig V (cfg_Auth cfg) of
        Inl err \<Rightarrow> Inl err
      | Inr authn \<Rightarrow>
     (let authServer = NewExtAuthzServer engine (ReadStore.truncate dataStore) authn sel
                         (as_AlwaysActive (cfg_AdapterSelection cfg))
      in case first_error [mgr_AddServer V, mgr_AddHealthz V, mgr_AddReadyz V] of
           Some err \<Rightarrow> Inl err
         | None \<Rightarrow> Inr (authServer, s0)))))))))"

section \<open>What is started\<close>

lemma NewOPAEngine_engine:
  "NewPolicyEngineFromConfig prepare cfg = Inr E \<Longrightarrow>
     \<exists>e. NewOPAEngine prepare = Inr e \<and> E = OPA_PolicyEngine e"
  by (auto simp: NewPolicyEngineFromConfig_def opa_New_def split: if_splits sum.splits)

lemma NewAuthenticator_key:
  "NewAuthenticatorFromConfig C cfg = Inr A \<Longrightarrow>
     \<exists>k. LoadPublicKey C (param cfg ''publicKeyPath'') = Inr k \<and> A = JWT_Authenticator C k"
  by (auto simp: NewAuthenticatorFromConfig_def jwt_New_def Let_def split: if_splits sum.splits)

lemma NewAdapterSelection_selector:
  assumes "NewAdapterSelectionFromConfig L isprint H cfg = Inr (Some S)"
  shows "\<exists>s. S = Semantic_Selector L H s" and "selector S"
proof -
  show "\<exists>s. S = Semantic_Selector L H s"
    using assms by (auto simp: NewAdapterSelectionFromConfig_def Let_def split: if_splits sum.splits)
  then show "selector S" using semantic.selector_axioms by blast
qed

lemma startup_server:
  assumes "startup V configPath = Inr (srv, s0)"
  shows "\<exists>cfg e k sel. load V configPath = Inr cfg
     \<and> NewOPAEngine (env_prepare V) = Inr e
     \<and> LoadPublicKey V (param (cfg_Auth cfg) ''publicKeyPath'') = Inr k
     \<and> NewAdapterSelectionFromConfig (env_golib V) (env_isprint V) (env_http V)
          (cfg_AdapterSelection cfg) = Inr sel
     \<and> srv = NewExtAuthzServer (OPA_PolicyEngine e) (ReadStore.truncate (Memory (env_uord V) (env_mord V)))
               (JWT_Authenticator V k) sel (as_AlwaysActive (cfg_AdapterSelection cfg))
     \<and> s0 = New"
proof -
  from assms obtain cfg E sel A where
      "load V configPath = Inr cfg"
      "NewPolicyEngineFromConfig (env_prepare V) (cfg_PolicyEngine cfg) = Inr E"
      "NewAdapterSelectionFromConfig (env_golib V) (env_isprint V) (env_http V)
          (cfg_AdapterSelection cfg) = Inr sel"
      "NewAuthenticatorFromConfig V (cfg_Auth cfg) = Inr A"
      "srv = NewExtAuthzServer E (ReadStore.truncate (Memory (env_uord V) (env_mord V))) A sel
         (as_AlwaysActive (cfg_AdapterSelection cfg))" "s0 = New"
    by (auto simp: startup_def NewStoreFromConfig_def Let_def
        split: sum.splits option.splits prod.splits if_splits)
  with NewOPAEngine_engine NewAuthenticator_key show ?thesis by blast
qed

lemma startup_validated:
  assumes "load V configPath = Inr cfg"
    and "Validate (ParseFloat (env_golib V)) (env_isprint V) cfg = None"
    and "cc_Type (cfg_Auth cfg) = ''jwt''"
    and thr: "glookup (cc_Parameters (as_ComponentConfig (cfg_AdapterSelection cfg)))
           ''similarityThreshold'' \<noteq> Some []"
    and "LoadPublicKey V (param (cfg_Auth cfg) ''publicKeyPath'') = Inr k"
    and "NewOPAEngine (env_prepare V) = Inr e"
    and "first_error [mgr_New V, mgr_SetupUser V, mgr_SetupModel V] = None"
    and "first_error [mgr_AddServer V, mgr_AddHealthz V, mgr_AddReadyz V] = None"
  shows "\<exists>srv. startup V configPath = Inr (srv, New)"
proof -
  note v = assms(2) [unfolded Validate_None_iff]
  from v have "NewStoreFromConfig (env_uord V) (env_mord V) (cfg_DataStore cfg)
      = Inr (Memory (env_uord V) (env_mord V), New)"
    by (auto simp: NewStoreFromConfig_def)
  moreover from v have "NewPolicyEngineFromConfig (env_prepare V) (cfg_PolicyEngine cfg)
      = Inr (OPA_PolicyEngine e)"
    by (auto simp: NewPolicyEngineFromConfig_def opa_New_def assms(6))
  moreover from v assms(3) have "NewAuthenticatorFromConfig V (cfg_Auth cfg)
      = Inr (JWT_Authenticator V k)"
    by (auto simp: NewAuthenticatorFromConfig_def jwt_New_def assms(5))
  moreover have "\<exists>sel. NewAdapterSelectionFromConfig (env_golib V) (env_isprint V) (env_http V)
      (cfg_AdapterSelection cfg) = Inr sel"
  proof -
    let ?c = "as_ComponentConfig (cfg_AdapterSelection cfg)"
    from v have "cc_Type ?c = [] \<or> cc_Type ?c = ''semantic'' \<and> param ?c ''url'' \<noteq> []
        \<and> (param ?c ''similarityThreshold'' = []
           \<or> is_ok (ParseFloat (env_golib V) (param ?c ''similarityThreshold'')))"
      by (simp add: Let_def)
    moreover from thr have "param ?c ''similarityThreshold'' = [] \<longleftrightarrow>
        glookup (cc_Parameters ?c) ''similarityThreshold'' = None"
      by (auto simp: param_def gget_def split: option.splits)
    ultimately show ?thesis
      by (auto simp: NewAdapterSelectionFromConfig_def semantic_New_def Let_def is_ok_iff param_def
          gget_def split: option.splits)
  qed
  ultimately show ?thesis
    using assms(1,2,7,8) by (auto simp: startup_def Let_def)
qed

section \<open>The deployed server\<close>

locale deployment = memory_orders uord mord + opa_library scalar prepare e + jwt_library F C k
  for uord mord scalar prepare e and F :: "'k jwt_facts" and C :: "('k, 'z) crypto_scheme" and k +
  fixes L :: golib and sel :: "Selector ptr" and alwaysActive :: bool
  assumes sel_contract: "\<And>S. sel = Some S \<Longrightarrow> selector S"

sublocale deployment \<subseteq> ext_authz "ReadStore.truncate (Memory uord mord)" mem_good users_of models_of
  "OPA_PolicyEngine e" abac "JWT_Authenticator C k" "bearer_identity F k" L sel alwaysActive
  by unfold_locales
     (use sel_contract in \<open>blast dest: selector.Pick_total\<close>, use sel_contract selector.Pick_member in metis)

context deployment
begin

lemma authz: "ext_authz (ReadStore.truncate (Memory uord mord)) mem_good users_of models_of
  (OPA_PolicyEngine e) abac (JWT_Authenticator C k) (bearer_identity F k) sel"
  by (rule ext_authz_axioms)

end

text \<open>Whatever starts is an instance of the deployed server.\<close>

lemma started_deployment:
  assumes "startup V configPath = Inr (srv, s0)" and "load V configPath = Inr cfg"
    and "range_order (env_uord V)" and "range_order (env_mord V)"
    and "opa_conforms scalar (env_prepare V)" and "gojwt_conforms F V"
  obtains e k sel where
      "ext_authz (ReadStore.truncate (Memory (env_uord V) (env_mord V))) mem_good users_of models_of
         (OPA_PolicyEngine e) abac (JWT_Authenticator V k) (bearer_identity F k) sel"
      "LoadPublicKey V (param (cfg_Auth cfg) ''publicKeyPath'') = Inr k"
      "NewAdapterSelectionFromConfig (env_golib V) (env_isprint V) (env_http V)
          (cfg_AdapterSelection cfg) = Inr sel"
      "srv = NewExtAuthzServer (OPA_PolicyEngine e)
         (ReadStore.truncate (Memory (env_uord V) (env_mord V)))
         (JWT_Authenticator V k) sel (as_AlwaysActive (cfg_AdapterSelection cfg))"
proof -
  from startup_server [OF assms(1)] assms(2) obtain e k sel where *:
      "NewOPAEngine (env_prepare V) = Inr e"
      "LoadPublicKey V (param (cfg_Auth cfg) ''publicKeyPath'') = Inr k"
      "NewAdapterSelectionFromConfig (env_golib V) (env_isprint V) (env_http V)
          (cfg_AdapterSelection cfg) = Inr sel"
      "srv = NewExtAuthzServer (OPA_PolicyEngine e)
         (ReadStore.truncate (Memory (env_uord V) (env_mord V)))
         (JWT_Authenticator V k) sel (as_AlwaysActive (cfg_AdapterSelection cfg))"
    by auto
  have "deployment (env_uord V) (env_mord V) scalar (env_prepare V) e F V sel"
    by (intro deployment.intro memory_orders.intro opa_library.intro jwt_library.intro
        deployment_axioms.intro assms * )
       (use * (3) NewAdapterSelection_selector(2) in blast)
  from deployment.authz [OF this] show ?thesis using that * by blast
qed

text \<open>What the started server decides, in terms of the meaning of a header.\<close>

lemma started_server_decides:
  assumes "startup V configPath = Inr (srv, s0)" and "load V configPath = Inr cfg"
    and "range_order (env_uord V)" and "range_order (env_mord V)"
    and "opa_conforms scalar (env_prepare V)" and "gojwt_conforms F V"
    and "\<forall>n. mem_good (sigma n)"
    and "ParseCheckRequest (env_golib V) request = Inr ir" and "ir_Type ir \<noteq> RequestTypeUnknown"
  obtains k resp where "LoadPublicKey V (param (cfg_Auth cfg) ''publicKeyPath'') = Inr k"
    "Check (env_golib V) srv sigma request = Some (Inr resp)"
    "is_allowed resp \<longleftrightarrow>
       (\<exists>i. bearer_identity F k (ir_Headers ir) i \<and> users_of (sigma 0) i \<noteq> None
          \<and> (ir_Type ir = RequestTypeListModels \<or>
             (\<exists>u m. users_of (sigma 1) i = Some u \<and> models_of (sigma 2) (ir_ModelID ir) = Some m
                \<and> abac u m)))"
proof (rule started_deployment [OF assms(1-6)])
  fix e k sel
  assume D: "ext_authz (ReadStore.truncate (Memory (env_uord V) (env_mord V))) mem_good users_of
      models_of (OPA_PolicyEngine e) abac (JWT_Authenticator V k) (bearer_identity F k) sel"
    and k: "LoadPublicKey V (param (cfg_Auth cfg) ''publicKeyPath'') = Inr k"
    and srv: "srv = NewExtAuthzServer (OPA_PolicyEngine e)
         (ReadStore.truncate (Memory (env_uord V) (env_mord V)))
         (JWT_Authenticator V k) sel (as_AlwaysActive (cfg_AdapterSelection cfg))"
  from ext_authz.Check_decides [OF D assms(7-9)] obtain resp where
      "Check (env_golib V) srv sigma request = Some (Inr resp)"
      "is_allowed resp \<longleftrightarrow> ext_authz.authorized users_of models_of abac (bearer_identity F k) sigma ir"
    unfolding srv by blast
  with k show thesis using that unfolding ext_authz.authorized_def [OF D] by blast
qed

end
