(* ===== verification/Sidecar.thy ===== *)
theory Sidecar
  imports Selector
begin

text \<open>
  \<open>sidecar/adapter-selection-fastembed\<close>: the service at the other end of the semantic selector's
  exchange. It embeds the prompt and the descriptions, keeps the embeddings in a cache, and answers
  with the candidate of the most similar description. The embedding model, the arrays of numpy and
  the web framework are arguments. Requests are taken one at a time.
\<close>

section \<open>Embedding\<close>

text \<open>
  \<open>TextEmbedding.embed\<close>, \<open>np.linalg.norm\<close>, the division of an array by a number, and the product of
  two arrays.
\<close>

record 'v embedder =
  emb_embed :: "string list \<Rightarrow> 'v list"
  emb_norm :: "'v \<Rightarrow> float64"
  emb_scale :: "'v \<Rightarrow> float64 \<Rightarrow> 'v"
  emb_dot :: "'v \<Rightarrow> 'v \<Rightarrow> float64"

text \<open>A function of the service leaves a cache also when it raises an exception, \<open>None\<close>.\<close>

type_synonym 'v embedding_cache = "string \<rightharpoonup> 'v"

definition normalized :: "'v embedder \<Rightarrow> 'v \<Rightarrow> 'v" where
  "normalized M emb =
     (let norm = emb_norm M emb in if F_Fin 0 < norm then emb_scale M emb norm else emb)"

text \<open>The loop over \<open>zip\<close>, which is strict: it raises an exception after the shorter list.\<close>

definition learn :: "'v embedder \<Rightarrow> (string \<times> 'v) list \<Rightarrow> 'v embedding_cache \<Rightarrow> 'v embedding_cache" where
  "learn M pairs cache = fold (\<lambda>(text, emb) c. c(text \<mapsto> normalized M emb)) pairs cache"

definition embed_texts ::
    "'v embedder \<Rightarrow> string list \<Rightarrow> 'v embedding_cache \<Rightarrow> 'v list option \<times> 'v embedding_cache" where
  "embed_texts M texts cache =
     (let uncached_texts = filter (\<lambda>t. cache t = None) texts
      in if uncached_texts \<noteq> [] then
           (let new_embeddings = emb_embed M uncached_texts;
                cache' = learn M (zip uncached_texts new_embeddings) cache
            in (if length uncached_texts = length new_embeddings then those (map cache' texts) else None, cache'))
         else (those (map cache texts), cache))"

section \<open>The best candidate\<close>

text \<open>\<open>np.max\<close>: an error on an empty array, and NaN if there is one.\<close>

definition float_max :: "float64 \<Rightarrow> float64 \<Rightarrow> float64" where
  "float_max y m = (if m = F_NaN \<or> y = F_NaN then F_NaN else if m < y then y else m)"

definition np_max :: "float64 list \<Rightarrow> float64 option" where
  "np_max xs = (case xs of [] \<Rightarrow> None | x # ys \<Rightarrow> Some (fold float_max ys x))"

record Candidate =
  model_id :: string
  descriptions :: "string list"

primrec pick_loop ::
    "'v embedder \<Rightarrow> 'v \<Rightarrow> Candidate list \<Rightarrow> string option \<times> float64 \<Rightarrow> 'v embedding_cache
      \<Rightarrow> (string option \<times> float64) option \<times> 'v embedding_cache" where
  "pick_loop M prompt_emb [] best cache = (Some best, cache)"
| "pick_loop M prompt_emb (cand # cands) best cache =
     (if descriptions cand = [] then pick_loop M prompt_emb cands best cache
      else (case embed_texts M (descriptions cand) cache of
              (None, cache) \<Rightarrow> (None, cache)
            | (Some desc_embs, cache) \<Rightarrow>
                (case np_max (map (\<lambda>d. emb_dot M d prompt_emb) desc_embs) of
                   None \<Rightarrow> (None, cache)
                 | Some max_sim \<Rightarrow>
                     pick_loop M prompt_emb cands
                       (if snd best < max_sim then (Some (model_id cand), max_sim) else best) cache)))"

definition pick_best ::
    "'v embedder \<Rightarrow> string \<Rightarrow> Candidate list \<Rightarrow> 'v embedding_cache
      \<Rightarrow> (string option \<times> float64) option \<times> 'v embedding_cache" where
  "pick_best M prompt cands cache =
     (if cands = [] then (Some (None, F_Fin 0), cache)
      else (case embed_texts M [prompt] cache of
              (None, cache) \<Rightarrow> (None, cache)
            | (Some embs, cache) \<Rightarrow> pick_loop M (hd embs) cands (None, F_Fin (- 1)) cache))"

text \<open>The endpoint: without a model, the id is empty.\<close>

definition pick ::
    "'v embedder \<Rightarrow> string \<Rightarrow> Candidate list \<Rightarrow> 'v embedding_cache
      \<Rightarrow> (string \<times> float64) option \<times> 'v embedding_cache" where
  "pick M prompt cands cache =
     (case pick_best M prompt cands cache of
        (None, cache) \<Rightarrow> (None, cache)
      | (Some (best, score), cache) \<Rightarrow> (Some (case best of None \<Rightarrow> [] | Some i \<Rightarrow> i, score), cache))"

section \<open>The web service\<close>

text \<open>The request classes, on a JSON document; the last of several members of a name counts.\<close>

definition json_str :: "json \<Rightarrow> string option" where
  "json_str j = (case j of JStr s \<Rightarrow> Some s | _ \<Rightarrow> None)"

definition json_list :: "(json \<Rightarrow> 'a option) \<Rightarrow> json \<Rightarrow> 'a list option" where
  "json_list f j = (case j of JArr vs \<Rightarrow> those (map f vs) | _ \<Rightarrow> None)"

definition json_member :: "(json \<Rightarrow> 'a option) \<Rightarrow> string \<Rightarrow> json \<Rightarrow> 'a option" where
  "json_member f k j =
     (case j of JObj kvs \<Rightarrow> (case map_of (rev kvs) k of None \<Rightarrow> None | Some v \<Rightarrow> f v) | _ \<Rightarrow> None)"

definition Candidate_of_json :: "json \<Rightarrow> Candidate option" where
  "Candidate_of_json j =
     do { i \<leftarrow> json_member json_str ''model_id'' j;
          ds \<leftarrow> json_member (json_list json_str) ''descriptions'' j;
          Some \<lparr>model_id = i, descriptions = ds\<rparr> }"

definition PickRequest_of_json :: "json \<Rightarrow> (string \<times> Candidate list) option" where
  "PickRequest_of_json j =
     do { prompt \<leftarrow> json_member json_str ''prompt'' j;
          cands \<leftarrow> json_member (json_list Candidate_of_json) ''candidates'' j;
          Some (prompt, cands) }"

text \<open>
  The framework reads the body as JSON, refuses what is not a request with 422, turns an exception
  into 500, and writes the answer as JSON.
\<close>

record web =
  web_parse :: "string \<Rightarrow> json option"
  web_render :: "string \<Rightarrow> float64 \<Rightarrow> string"
  web_error :: "nat \<Rightarrow> string"

definition web_response :: "nat \<Rightarrow> string \<Rightarrow> http_response" where
  "web_response code body = \<lparr>rs_StatusCode = code, rs_Body = body, rs_ReadError = None\<rparr>"

definition post_pick ::
    "web \<Rightarrow> 'v embedder \<Rightarrow> string \<Rightarrow> 'v embedding_cache \<Rightarrow> http_response \<times> 'v embedding_cache" where
  "post_pick W M body cache =
     (case web_parse W body \<bind> PickRequest_of_json of
        None \<Rightarrow> (web_response 422 (web_error W 422), cache)
      | Some (prompt, cands) \<Rightarrow>
          (case pick M prompt cands cache of
             (None, cache) \<Rightarrow> (web_response 500 (web_error W 500), cache)
           | (Some (i, score), cache) \<Rightarrow> (web_response 200 (web_render W i score), cache)))"

text \<open>The caches that the service comes to have, from its start on.\<close>

inductive sidecar_runs :: "web \<Rightarrow> 'v embedder \<Rightarrow> 'v embedding_cache \<Rightarrow> bool" for W M where
  starts: "sidecar_runs W M Map.empty"
| answers: "sidecar_runs W M cache \<Longrightarrow> post_pick W M body cache = (resp, cache') \<Longrightarrow> sidecar_runs W M cache'"

section \<open>The cache\<close>

text \<open>
  The embedding model embeds each text by itself. The cache is right when it holds the normalized
  embeddings of its texts; then what is computed does not depend on it.
\<close>

definition embeds :: "'v embedder \<Rightarrow> (string \<Rightarrow> 'v) \<Rightarrow> bool" where
  "embeds M e \<longleftrightarrow> (\<forall>ts. emb_embed M ts = map e ts)"

definition cache_right :: "'v embedder \<Rightarrow> (string \<Rightarrow> 'v) \<Rightarrow> 'v embedding_cache \<Rightarrow> bool" where
  "cache_right M e cache \<longleftrightarrow> (\<forall>t v. cache t = Some v \<longrightarrow> v = normalized M (e t))"

definition cache_grows ::
    "'v embedder \<Rightarrow> (string \<Rightarrow> 'v) \<Rightarrow> string set \<Rightarrow> 'v embedding_cache \<Rightarrow> 'v embedding_cache \<Rightarrow> bool" where
  "cache_grows M e T cache cache' \<longleftrightarrow> cache_right M e cache' \<and> dom cache' = dom cache \<union> T"

lemma learn_grows:
  "cache_right M e cache \<Longrightarrow> cache_grows M e (set ts) cache (learn M (zip ts (map e ts)) cache)"
proof (induction ts arbitrary: cache)
  case Nil
  then show ?case by (simp add: learn_def cache_grows_def)
next
  case (Cons t ts)
  then have "cache_right M e (cache(t \<mapsto> normalized M (e t)))" by (simp add: cache_right_def)
  note IH = Cons.IH [OF this]
  have "learn M (zip (t # ts) (map e (t # ts))) cache = learn M (zip ts (map e ts)) (cache(t \<mapsto> normalized M (e t)))"
    by (simp add: learn_def)
  with IH show ?case by (simp only: cache_grows_def dom_fun_upd) simp
qed

lemma those_cached:
  assumes "cache_right M e cache" and "set ts \<subseteq> dom cache"
  shows "those (map cache ts) = Some (map (\<lambda>t. normalized M (e t)) ts)"
  using assms(2)
proof (induction ts)
  case (Cons t ts)
  then obtain v where "cache t = Some v" by auto
  with assms(1) have "cache t = Some (normalized M (e t))" by (auto simp: cache_right_def)
  with Cons show ?case by simp
qed simp

lemma embed_texts_result:
  assumes M: "embeds M e" and c: "cache_right M e cache"
  obtains cache' where "embed_texts M ts cache = (Some (map (\<lambda>t. normalized M (e t)) ts), cache')"
    "cache_grows M e (set ts) cache cache'"
proof -
  let ?us = "filter (\<lambda>t. cache t = None) ts"
  let ?c = "learn M (zip ?us (map e ?us)) cache"
  have g: "cache_grows M e (set ?us) cache ?c" by (rule learn_grows [OF c])
  then have d: "dom ?c = dom cache \<union> set ts" and r: "cache_right M e ?c" by (auto simp: cache_grows_def)
  then have t: "those (map ?c ts) = Some (map (\<lambda>t. normalized M (e t)) ts)" by (intro those_cached) auto
  have "embed_texts M ts cache = (those (map ?c ts), ?c)"
    using M by (simp add: embed_texts_def embeds_def Let_def learn_def)
  with t that d r show ?thesis by (simp add: cache_grows_def)
qed

section \<open>What picking yields\<close>

text \<open>The similarity of two texts; that of a prompt and a candidate; the best of a list.\<close>

definition similarity :: "'v embedder \<Rightarrow> (string \<Rightarrow> 'v) \<Rightarrow> string \<Rightarrow> string \<Rightarrow> float64" where
  "similarity M e prompt d = emb_dot M (normalized M (e d)) (normalized M (e prompt))"

definition candidate_score :: "'v embedder \<Rightarrow> (string \<Rightarrow> 'v) \<Rightarrow> string \<Rightarrow> Candidate \<Rightarrow> float64" where
  "candidate_score M e prompt cand = the (np_max (map (similarity M e prompt) (descriptions cand)))"

definition better ::
    "'v embedder \<Rightarrow> (string \<Rightarrow> 'v) \<Rightarrow> string \<Rightarrow> Candidate \<Rightarrow> string option \<times> float64 \<Rightarrow> string option \<times> float64" where
  "better M e prompt cand best =
     (if descriptions cand \<noteq> [] \<and> snd best < candidate_score M e prompt cand
      then (Some (model_id cand), candidate_score M e prompt cand) else best)"

lemma pick_loop_result:
  assumes M: "embeds M e" and c: "cache_right M e cache"
  shows "\<exists>cache'. pick_loop M (normalized M (e prompt)) cands best cache
        = (Some (fold (better M e prompt) cands best), cache')
     \<and> cache_grows M e (\<Union>cand \<in> set cands. set (descriptions cand)) cache cache'"
  using c
proof (induction cands arbitrary: best cache)
  case Nil
  then show ?case by (simp add: cache_grows_def)
next
  case (Cons cand cands)
  show ?case
  proof (cases "descriptions cand = []")
    case True
    with Cons.IH [OF Cons.prems, of best] show ?thesis by (simp add: better_def)
  next
    case False
    from embed_texts_result [OF M Cons.prems, of "descriptions cand"] obtain c1 where
        c1: "embed_texts M (descriptions cand) cache
               = (Some (map (\<lambda>t. normalized M (e t)) (descriptions cand)), c1)"
          "cache_grows M e (set (descriptions cand)) cache c1" .
    have "np_max (map (\<lambda>d. emb_dot M d (normalized M (e prompt))) (map (\<lambda>t. normalized M (e t)) (descriptions cand)))
        = Some (candidate_score M e prompt cand)"
      using False by (cases "descriptions cand") (simp_all add: candidate_score_def similarity_def [abs_def] np_max_def comp_def)
    then have step: "pick_loop M (normalized M (e prompt)) (cand # cands) best cache
        = pick_loop M (normalized M (e prompt)) cands (better M e prompt cand best) c1"
      using False c1(1) by (simp add: better_def)
    have r: "cache_right M e c1" using c1(2) by (simp add: cache_grows_def)
    from Cons.IH [OF r, of "better M e prompt cand best"] obtain c2 where
        c2: "pick_loop M (normalized M (e prompt)) cands (better M e prompt cand best) c1
               = (Some (fold (better M e prompt) cands (better M e prompt cand best)), c2)"
          "cache_grows M e (\<Union>cand \<in> set cands. set (descriptions cand)) c1 c2" by blast
    have "cache_grows M e (\<Union>cand \<in> set (cand # cands). set (descriptions cand)) cache c2"
      using c1(2) c2(2) by (auto simp: cache_grows_def)
    with step c2(1) show ?thesis by simp
  qed
qed

text \<open>The answer to a request, whatever is cached.\<close>

definition best_pick :: "'v embedder \<Rightarrow> (string \<Rightarrow> 'v) \<Rightarrow> string \<Rightarrow> Candidate list \<Rightarrow> string option \<times> float64" where
  "best_pick M e prompt cands =
     (if cands = [] then (None, F_Fin 0) else fold (better M e prompt) cands (None, F_Fin (- 1)))"

lemma pick_best_result:
  assumes M: "embeds M e" and c: "cache_right M e cache"
  shows "\<exists>cache' T. pick_best M prompt cands cache = (Some (best_pick M e prompt cands), cache')
     \<and> cache_grows M e T cache cache' \<and> (cands \<noteq> [] \<longrightarrow> prompt \<in> T)"
proof (cases "cands = []")
  case True
  with c show ?thesis by (intro exI [of _ cache] exI [of _ "{}"]) (simp add: pick_best_def best_pick_def cache_grows_def)
next
  case False
  from embed_texts_result [OF M c, of "[prompt]"] obtain c1 where
      c1: "embed_texts M [prompt] cache = (Some [normalized M (e prompt)], c1)" "cache_grows M e {prompt} cache c1"
    by auto
  then have "cache_right M e c1" by (simp add: cache_grows_def)
  from pick_loop_result [OF M this, of prompt cands "(None, F_Fin (- 1))"] obtain c2 where
      c2: "pick_loop M (normalized M (e prompt)) cands (None, F_Fin (- 1)) c1
             = (Some (fold (better M e prompt) cands (None, F_Fin (- 1))), c2)"
        "cache_grows M e (\<Union>cand \<in> set cands. set (descriptions cand)) c1 c2" by blast
  have "cache_grows M e ({prompt} \<union> (\<Union>cand \<in> set cands. set (descriptions cand))) cache c2"
    using c1(2) c2(2) by (auto simp: cache_grows_def)
  moreover have "pick_best M prompt cands cache = (Some (best_pick M e prompt cands), c2)"
    using False c1(1) c2(1) by (simp add: pick_best_def best_pick_def)
  ultimately show ?thesis by blast
qed

text \<open>Nothing is ever removed from the cache, and every prompt that comes with candidates is added.\<close>

lemma cache_keeps_prompts:
  assumes "embeds M e" and "cache_right M e cache" and "pick_best M prompt cands cache = (r, cache')"
  shows "dom cache \<subseteq> dom cache'" and "cands \<noteq> [] \<Longrightarrow> prompt \<in> dom cache'"
  using pick_best_result [OF assms(1,2), of prompt cands] assms(3) by (auto simp: cache_grows_def)

lemma sidecar_cache_right:
  assumes "embeds M e"
  shows "sidecar_runs W M cache \<Longrightarrow> cache_right M e cache"
proof (induction rule: sidecar_runs.induct)
  case starts
  then show ?case by (simp add: cache_right_def)
next
  case (answers cache body resp cache')
  show ?case
  proof (cases "web_parse W body \<bind> PickRequest_of_json")
    case None
    with answers show ?thesis by (simp add: post_pick_def)
  next
    case (Some req)
    with pick_best_result [OF assms answers.IH, of "fst req" "snd req"] answers.hyps(2)
    show ?thesis by (cases req) (auto simp: post_pick_def pick_def cache_grows_def split: prod.splits)
  qed
qed

section \<open>The best candidate is the best\<close>

lemma float64_less_trans: "x < y \<Longrightarrow> y < z \<Longrightarrow> x < (z :: float64)"
  by (cases x; cases y; cases z) (simp_all add: less_float64_def)

lemma float64_not_less_trans: "y \<noteq> F_NaN \<Longrightarrow> \<not> x < y \<Longrightarrow> \<not> y < z \<Longrightarrow> \<not> x < (z :: float64)"
  by (cases x; cases y; cases z) (simp_all add: less_float64_def)

lemma float64_less_below: "y \<noteq> F_NaN \<Longrightarrow> \<not> x < y \<Longrightarrow> x < z \<Longrightarrow> y < (z :: float64)"
  by (cases x; cases y; cases z) (simp_all add: less_float64_def)

lemma fold_float_max:
  "F_NaN \<notin> set (x # ys) \<Longrightarrow> fold float_max ys x \<in> set (x # ys) \<and> (\<forall>z \<in> set (x # ys). \<not> fold float_max ys x < z)"
proof (induction ys arbitrary: x)
  case Nil
  then show ?case by (cases x) simp_all
next
  case (Cons y ys)
  let ?m = "float_max y x" and ?r = "fold float_max (y # ys) x"
  have m: "?m = (if x < y then y else x)" using Cons.prems by (auto simp: float_max_def)
  then have "F_NaN \<notin> set (?m # ys)" using Cons.prems by auto
  from Cons.IH [OF this] have r: "?r \<in> set (?m # ys)" "\<forall>z \<in> set (?m # ys). \<not> ?r < z" by simp_all
  have "\<not> ?r < x \<and> \<not> ?r < y"
  proof (cases "x < y")
    case True
    with m r(2) have "\<not> ?r < y" by simp
    with True float64_less_trans show ?thesis by blast
  next
    case False
    with m r(2) have "\<not> ?r < x" by simp
    moreover from Cons.prems have "x \<noteq> F_NaN" by auto
    ultimately show ?thesis using False float64_not_less_trans by blast
  qed
  with r m show ?case by (auto split: if_splits)
qed

lemma candidate_score_max:
  assumes "\<forall>t u. similarity M e t u \<noteq> F_NaN" and "descriptions cand \<noteq> []"
  shows "\<exists>d \<in> set (descriptions cand). candidate_score M e prompt cand = similarity M e prompt d"
    and "d \<in> set (descriptions cand) \<Longrightarrow> \<not> candidate_score M e prompt cand < similarity M e prompt d"
proof -
  obtain a ds where c: "descriptions cand = a # ds" using assms(2) by (cases "descriptions cand") auto
  let ?f = "similarity M e prompt"
  have "F_NaN \<notin> set (?f a # map ?f ds)" using assms(1) by (auto simp: image_iff) metis+
  from fold_float_max [OF this]
  have "candidate_score M e prompt cand \<in> ?f ` set (descriptions cand)
      \<and> (\<forall>d \<in> set (descriptions cand). \<not> candidate_score M e prompt cand < ?f d)"
    by (simp add: candidate_score_def np_max_def c)
  then show "\<exists>d \<in> set (descriptions cand). candidate_score M e prompt cand = ?f d"
    and "d \<in> set (descriptions cand) \<Longrightarrow> \<not> candidate_score M e prompt cand < ?f d" by auto
qed

text \<open>Where the best comes from, and that no candidate beats it; also when some scores are NaN.\<close>

lemma fold_better:
  assumes "fold (better M e prompt) cands best = (i, s)"
  shows "(i, s) = best \<or> (\<exists>cand \<in> set cands. descriptions cand \<noteq> [] \<and> i = Some (model_id cand)
          \<and> s = candidate_score M e prompt cand \<and> snd best < s)"
    and "cand \<in> set cands \<Longrightarrow> descriptions cand \<noteq> [] \<Longrightarrow> \<not> s < candidate_score M e prompt cand"
proof -
  have "((i, s) = best \<or> (\<exists>cand \<in> set cands. descriptions cand \<noteq> [] \<and> i = Some (model_id cand)
          \<and> s = candidate_score M e prompt cand \<and> snd best < s))
      \<and> (\<forall>cand \<in> set cands. descriptions cand \<noteq> [] \<longrightarrow> \<not> s < candidate_score M e prompt cand)"
    using assms
  proof (induction cands arbitrary: i s rule: rev_induct)
    case (snoc cand cands)
    obtain i0 s0 where b: "fold (better M e prompt) cands best = (i0, s0)" by fastforce
    note IH = snoc.IH [OF b]
    from snoc.prems b have step: "better M e prompt cand (i0, s0) = (i, s)" by simp
    show ?case
    proof (cases "descriptions cand \<noteq> [] \<and> s0 < candidate_score M e prompt cand")
      case True
      with step have new: "i = Some (model_id cand)" "s = candidate_score M e prompt cand"
        by (simp_all add: better_def)
      have "snd best < s" using IH True new(2) float64_less_trans by fastforce
      moreover have "\<not> s < candidate_score M e prompt c" if "c \<in> set cands" "descriptions c \<noteq> []" for c
        using IH that True new(2) float64_less_trans by blast
      moreover have "\<not> s < s" by (cases s) simp_all
      ultimately show ?thesis using True new by auto
    next
      case False
      with step have "i = i0" "s = s0" by (auto simp: better_def split: if_splits)
      with IH False show ?thesis by auto
    qed
  qed simp
  then show "(i, s) = best \<or> (\<exists>cand \<in> set cands. descriptions cand \<noteq> [] \<and> i = Some (model_id cand)
          \<and> s = candidate_score M e prompt cand \<and> snd best < s)"
    and "cand \<in> set cands \<Longrightarrow> descriptions cand \<noteq> [] \<Longrightarrow> \<not> s < candidate_score M e prompt cand" by blast+
qed

section \<open>The exchange with the selector\<close>

text \<open>
  The framework reads the documents that a Go program prints, and writes an answer that a JSON
  decoder reads back: the scores are among the numbers \<open>S\<close>, which do not include NaN.
\<close>

definition web_conforms :: "golib \<Rightarrow> web \<Rightarrow> float64 set \<Rightarrow> bool" where
  "web_conforms L W S \<longleftrightarrow>
     (\<forall>v. json_ok 4 v \<longrightarrow> web_parse W (print_json v) = Some v)
     \<and> (\<forall>i x. valid_utf8 i \<longrightarrow> x \<in> S \<longrightarrow>
          (\<exists>t. ParseFloat L t = Inr x
             \<and> decode_stream (web_render W i x) (None :: goerror option) = Some (JObj [(''model_id'', JStr i), (''score'', JNum t)])))"

definition scores_in :: "'v embedder \<Rightarrow> (string \<Rightarrow> 'v) \<Rightarrow> float64 set \<Rightarrow> bool" where
  "scores_in M e S \<longleftrightarrow> F_NaN \<notin> S \<and> F_Fin (- 1) \<in> S \<and> (\<forall>t u. similarity M e t u \<in> S)"

text \<open>The selector's client reaches the service, in whatever state that is.\<close>

definition connected :: "http_client \<Rightarrow> string \<Rightarrow> web \<Rightarrow> 'v embedder \<Rightarrow> bool" where
  "connected H url W M \<longleftrightarrow> (\<forall>body. NewRequest H url body = None
     \<and> (\<exists>cache. sidecar_runs W M cache \<and> Do H url body = Inr (fst (post_pick W M body cache))))"

text \<open>The request as it arrives.\<close>

definition sent :: "candidate \<Rightarrow> Candidate" where
  "sent c = \<lparr>model_id = ca_ModelID c, descriptions = elems (ca_Descriptions c)\<rparr>"

lemma those_map_some: "\<forall>x \<in> set xs. f x = Some (g x) \<Longrightarrow> those (map f xs) = Some (map g xs)"
  by (induction xs) simp_all

lemma json_strings: "json_list json_str (JArr (map JStr ds)) = Some ds"
  using those_map_some [of ds "\<lambda>d. json_str (JStr d)" "\<lambda>d. d"] by (simp add: json_list_def json_str_def comp_def)

lemma candidate_arrives:
  assumes "candidate_utf8 c" and "ca_Descriptions c \<noteq> NilSlice"
  shows "Candidate_of_json (candidate_json c) = Some (sent c)"
proof -
  obtain ds where ds: "ca_Descriptions c = Slice ds" using assms(2) by (cases "ca_Descriptions c") auto
  with assms(1) have "\<forall>d \<in> set ds. valid_utf8 d" "valid_utf8 (ca_ModelID c)" by (auto simp: candidate_utf8_def)
  then have "candidate_json c = JObj [(''model_id'', JStr (ca_ModelID c)), (''descriptions'', JArr (map JStr ds))]"
    by (simp add: candidate_json_def string_json_def slice_json_def ds)
  then show ?thesis
    by (simp add: Candidate_of_json_def json_member_def json_strings sent_def ds) (simp add: json_str_def)
qed

lemma request_arrives:
  assumes "valid_utf8 prompt" and "\<forall>c \<in> set cands. candidate_utf8 c \<and> ca_Descriptions c \<noteq> NilSlice"
  shows "PickRequest_of_json (pickRequest_json prompt cands) = Some (prompt, map sent cands)"
proof -
  have "those (map (\<lambda>c. Candidate_of_json (candidate_json c)) cands) = Some (map sent cands)"
    by (rule those_map_some) (use candidate_arrives assms(2) in blast)
  with assms(1) show ?thesis
    by (simp add: PickRequest_of_json_def pickRequest_json_def json_member_def json_list_def comp_def
        string_json_def json_str_def)
qed

lemma those_map_none: "x \<in> set xs \<Longrightarrow> f x = None \<Longrightarrow> those (map f xs) = None"
  by (induction xs) (auto split: option.split)

lemma request_refused:
  assumes "c \<in> set cands" and "ca_Descriptions c = NilSlice"
  shows "PickRequest_of_json (pickRequest_json prompt cands) = None"
proof -
  have "Candidate_of_json (candidate_json c) = None"
    by (simp add: Candidate_of_json_def candidate_json_def json_member_def json_list_def slice_json_def assms(2)
        bind_eq_None_conv)
  with assms(1) have "those (map (\<lambda>c. Candidate_of_json (candidate_json c)) cands) = None"
    by (rule those_map_none)
  then show ?thesis
    by (simp add: PickRequest_of_json_def pickRequest_json_def json_member_def json_list_def comp_def bind_eq_None_conv)
qed

lemma answer_decoded:
  assumes "decode_stream body (None :: goerror option) = Some (JObj [(''model_id'', JStr i), (''score'', JNum t)])"
    and "ParseFloat L t = Inr x"
  shows "decode_pickResponse L (web_response 200 body) = Some \<lparr>pr_ModelID = i, pr_Score = x\<rparr>"
  using assms
  by (simp add: decode_pickResponse_def web_response_def decode_member_def fold_name_def runes.simps
      DecodeRune_def byte_def fold_rune_def)

lemma best_pick_answer:
  assumes S: "scores_in M e S" and "cands \<noteq> []" and utf8: "\<forall>c \<in> set cands. valid_utf8 (model_id c)"
    and b: "best_pick M e prompt cands = (i, s)"
  shows "s \<in> S" and "valid_utf8 (case i of None \<Rightarrow> [] | Some j \<Rightarrow> j)"
proof -
  have f: "fold (better M e prompt) cands (None, F_Fin (- 1)) = (i, s)"
    using b assms(2) by (simp add: best_pick_def)
  have sim: "similarity M e t u \<in> S" "similarity M e t u \<noteq> F_NaN" for t u
    using S by (auto simp: scores_in_def) metis
  have "candidate_score M e prompt c \<in> S" if "descriptions c \<noteq> []" for c
    using candidate_score_max(1) [of M e c prompt] that sim by fastforce
  with fold_better(1) [OF f] S show "s \<in> S" by (auto simp: scores_in_def)
  have "valid_utf8 []" by (simp add: ascii_valid_utf8 ascii_def)
  with fold_better(1) [OF f] utf8 show "valid_utf8 (case i of None \<Rightarrow> [] | Some j \<Rightarrow> j)"
    by (auto split: option.split)
qed

text \<open>What the selector gets for the body it posts.\<close>

lemma sidecar_answers:
  assumes M: "embeds M e" and W: "web_conforms L W S" and S: "scores_in M e S"
    and H: "connected H (sel_url s @ pickEndpoint) W M"
    and cands: "cands \<noteq> []" "\<forall>c \<in> set cands. candidate_utf8 c \<and> ca_Descriptions c \<noteq> NilSlice"
    and prompt: "valid_utf8 prompt" and b: "best_pick M e prompt (map sent cands) = (i, x)"
  shows "sidecar_answer L H s (pick_body prompt cands)
       = Some \<lparr>pr_ModelID = (case i of None \<Rightarrow> [] | Some j \<Rightarrow> j), pr_Score = x\<rparr>"
proof -
  let ?j = "case i of None \<Rightarrow> [] | Some j \<Rightarrow> j" and ?body = "pick_body prompt cands"
  from H obtain cache where c: "sidecar_runs W M cache"
      "Do H (sel_url s @ pickEndpoint) ?body = Inr (fst (post_pick W M ?body cache))"
      "NewRequest H (sel_url s @ pickEndpoint) ?body = None"
    unfolding connected_def by blast
  have "list_all candidate_utf8 cands" using cands(2) by (simp add: list_all_iff)
  from pickRequest_json_ok [OF prompt this] W
  have parse: "web_parse W ?body = Some (pickRequest_json prompt cands)"
    by (simp add: web_conforms_def pick_body_def)
  from pick_best_result [OF M sidecar_cache_right [OF M c(1)], of prompt "map sent cands"] b obtain cache' where
      pick: "pick_best M prompt (map sent cands) cache = (Some (i, x), cache')" by auto
  have resp: "fst (post_pick W M ?body cache) = web_response 200 (web_render W ?j x)"
    by (simp add: post_pick_def parse request_arrives [OF prompt cands(2)] pick_def pick)
  have "\<forall>c \<in> set (map sent cands). valid_utf8 (model_id c)"
    using cands(2) by (auto simp: sent_def candidate_utf8_def)
  from best_pick_answer [OF S _ this b] cands(1) have "x \<in> S" "valid_utf8 ?j" by simp_all
  from W [unfolded web_conforms_def, THEN conjunct2, rule_format, OF this(2,1)] obtain t where
      "ParseFloat L t = Inr x"
      "decode_stream (web_render W ?j x) (None :: goerror option)
         = Some (JObj [(''model_id'', JStr ?j), (''score'', JNum t)])" by blast
  from answer_decoded [OF this(2,1)] show ?thesis
    by (simp add: sidecar_answer_def c(2,3) resp) (simp add: web_response_def)
qed

end
