(* ===== verification/SidecarLaws.thy ===== *)
theory SidecarLaws
  imports Sidecar
begin

text \<open>The semantic selector with its sidecar: which of the offered adapters is selected.\<close>

section \<open>The most similar adapter\<close>

lemma best_pick_similar:
  assumes sim: "\<forall>t u. similarity M e t u \<noteq> F_NaN" and b: "best_pick M e prompt cands = (i, x)" "cands \<noteq> []"
    and ne: "\<forall>c \<in> set cands. descriptions c \<noteq> []"
  shows "i = None \<and> x = F_Fin (- 1)
      \<or> (\<exists>c \<in> set cands. i = Some (model_id c) \<and> (\<exists>d \<in> set (descriptions c). x = similarity M e prompt d))"
    and "c \<in> set cands \<Longrightarrow> d \<in> set (descriptions c) \<Longrightarrow> \<not> x < similarity M e prompt d"
proof -
  have f: "fold (better M e prompt) cands (None, F_Fin (- 1)) = (i, x)" using b by (simp add: best_pick_def)
  show "i = None \<and> x = F_Fin (- 1)
      \<or> (\<exists>c \<in> set cands. i = Some (model_id c) \<and> (\<exists>d \<in> set (descriptions c). x = similarity M e prompt d))"
    using fold_better(1) [OF f] candidate_score_max(1) [OF sim, of _ prompt] by auto
  assume c: "c \<in> set cands" and d: "d \<in> set (descriptions c)"
  then have "\<not> x < candidate_score M e prompt c" using fold_better(2) [OF f] ne by blast
  moreover have "\<not> candidate_score M e prompt c < similarity M e prompt d"
    using candidate_score_max(2) [OF sim _ d] c ne by blast
  moreover have "candidate_score M e prompt c \<noteq> F_NaN"
    using candidate_score_max(1) [OF sim, of c prompt] ne c sim by metis
  ultimately show "\<not> x < similarity M e prompt d" using float64_not_less_trans by blast
qed

lemma sent_candidate:
  "model_id (sent (candidate_of m)) = m_Id m"
  "descriptions (sent (candidate_of m)) = elems (sp_Descriptions (m_SelectionPolicy m))"
  by (simp_all add: sent_def candidate_of_def)

text \<open>
  What follows when a model is selected exactly if it is the best and not below the threshold.
\<close>

lemma selected_similar:
  fixes es :: "ModelSpec list" and prompt :: string
  defines "descs \<equiv> \<lambda>m. set (elems (sp_Descriptions (m_SelectionPolicy m)))"
  assumes sim: "\<forall>t u. similarity M e t u \<noteq> F_NaN" and es: "es \<noteq> []" "\<forall>m \<in> set es. descs m \<noteq> {} \<and> m_Id m \<noteq> []"
    and ids: "inj_on m_Id (set es)"
    and b: "best_pick M e prompt (map sent (map candidate_of es)) = (i, x)"
    and p: "\<forall>m. p = Some m \<longleftrightarrow> m \<in> set es \<and> \<not> x < thr \<and> (case i of None \<Rightarrow> [] | Some j \<Rightarrow> j) = m_Id m"
  shows "p = Some m \<Longrightarrow> m \<in> set es \<and> (\<exists>d \<in> descs m. \<not> similarity M e prompt d < thr
           \<and> (\<forall>m' \<in> set es. \<forall>d' \<in> descs m'. \<not> similarity M e prompt d < similarity M e prompt d'))"
    and "p = None \<Longrightarrow> \<forall>m \<in> set es. \<forall>d \<in> descs m. similarity M e prompt d < thr \<or> \<not> F_Fin (- 1) < similarity M e prompt d"
proof -
  let ?sim = "similarity M e prompt"
  have ne: "\<forall>c \<in> set (map sent (map candidate_of es)). descriptions c \<noteq> []"
    using es(2) by (auto simp: sent_candidate descs_def)
  from es(1) have "map sent (map candidate_of es) \<noteq> []" by simp
  note best = best_pick_similar [OF sim b this ne]
  have most: "\<not> x < ?sim d" if "m \<in> set es" "d \<in> descs m" for m d
    using best(2) [of "sent (candidate_of m)" d] that by (force simp: sent_candidate descs_def)
  from best(1) consider "i = None" "x = F_Fin (- 1)"
    | m0 d0 where "m0 \<in> set es" "i = Some (m_Id m0)" "d0 \<in> descs m0" "x = ?sim d0"
    by (auto simp: sent_candidate descs_def)
  then have "(p = Some m \<longrightarrow> m \<in> set es \<and> (\<exists>d \<in> descs m. \<not> ?sim d < thr
           \<and> (\<forall>m' \<in> set es. \<forall>d' \<in> descs m'. \<not> ?sim d < ?sim d')))
      \<and> (p = None \<longrightarrow> (\<forall>m \<in> set es. \<forall>d \<in> descs m. ?sim d < thr \<or> \<not> F_Fin (- 1) < ?sim d))"
  proof cases
    case 1
    with p es(2) most show ?thesis by auto
  next
    case 2
    have same: "m = m0" if "m \<in> set es" "m_Id m = m_Id m0"
      using that 2(1) ids by (auto simp: inj_on_def)
    have nan: "?sim d \<noteq> F_NaN" for d using sim by blast
    have below: "?sim d < thr" if "m \<in> set es" "d \<in> descs m" "x < thr" for m d
      by (rule float64_less_below [OF nan most [OF that(1,2)] that(3)])
    have none: "x < thr" if "p = None" using p [THEN spec, of m0] 2(1,2) that by simp
    have some: "m = m0 \<and> \<not> x < thr" if "p = Some m"
    proof -
      from p [THEN spec, of m, THEN iffD1, OF that] 2(2) have "m \<in> set es" "\<not> x < thr" "m_Id m = m_Id m0" by simp_all
      with same show ?thesis by blast
    qed
    show ?thesis
    proof (intro conjI impI)
      show "m \<in> set es" if "p = Some m" using some [OF that] 2(1) by blast
      show "\<exists>d \<in> descs m. \<not> ?sim d < thr \<and> (\<forall>m' \<in> set es. \<forall>d' \<in> descs m'. \<not> ?sim d < ?sim d')"
        if "p = Some m" using some [OF that] 2(3,4) most by (intro bexI [of _ d0]) auto
      show "\<forall>m \<in> set es. \<forall>d \<in> descs m. ?sim d < thr \<or> \<not> F_Fin (- 1) < ?sim d" if "p = None"
        using below none [OF that] by blast
    qed
  qed
  then show "p = Some m \<Longrightarrow> m \<in> set es \<and> (\<exists>d \<in> descs m. \<not> ?sim d < thr
           \<and> (\<forall>m' \<in> set es. \<forall>d' \<in> descs m'. \<not> ?sim d < ?sim d'))"
    and "p = None \<Longrightarrow> \<forall>m \<in> set es. \<forall>d \<in> descs m. ?sim d < thr \<or> \<not> F_Fin (- 1) < ?sim d" by blast+
qed

text \<open>The offered adapter that is selected, with distinct ids and the sidecar at the other end.\<close>

lemma Semantic_Pick_similar:
  fixes prompt :: string
  defines "descs \<equiv> \<lambda>m. set (elems (sp_Descriptions (m_SelectionPolicy m)))"
  assumes "embeds M e" and "web_conforms L W S" and "scores_in M e S"
    and "connected H (sel_url s @ pickEndpoint) W M"
    and "distinct (map m_Id ms)" and "\<forall>m \<in> set ms. m_Id m \<noteq> [] \<and> candidate_utf8 (candidate_of m)"
    and "valid_utf8 (PromptText ir)" and "es = filter (eligible (ir_ModelID ir)) ms" and "prompt = PromptText ir"
  obtains p where "Semantic_Pick L H s ir (map Some ms) = Some (p, p \<noteq> None)"
    "\<And>m. p = Some m \<Longrightarrow> m \<in> set es \<and> (\<exists>d \<in> descs m. \<not> similarity M e prompt d < sel_threshold s
       \<and> (\<forall>m' \<in> set es. \<forall>d' \<in> descs m'. \<not> similarity M e prompt d < similarity M e prompt d'))"
    "p = None \<Longrightarrow> prompt = [] \<or> (\<forall>m \<in> set es. \<forall>d \<in> descs m. similarity M e prompt d < sel_threshold s
       \<or> \<not> F_Fin (- 1) < similarity M e prompt d)"
proof -
  let ?cands = "map candidate_of es"
  have sim: "\<forall>t u. similarity M e t u \<noteq> F_NaN" using assms(4) by (metis scores_in_def)
  have es: "\<forall>m \<in> set es. descs m \<noteq> {} \<and> m_Id m \<noteq> []"
    and ids: "inj_on m_Id (set es)"
    using assms(6,7) by (auto simp: assms(9) descs_def eligible_def distinct_map inj_on_def)
  obtain p where p: "Semantic_Pick L H s ir (map Some ms) = Some (p, p \<noteq> None)"
    using Semantic_Pick_shape [of L H s ir ms] by auto
  have matched: "p = Some m \<longleftrightarrow> prompt \<noteq> [] \<and> m \<in> set es
      \<and> (\<exists>r. sidecar_answer L H s (pick_body prompt ?cands) = Some r
          \<and> \<not> pr_Score r < sel_threshold s \<and> pr_ModelID r = m_Id m)" for m
    using Semantic_Pick_iff [OF assms(6), of L H s ir m] p by (auto simp: assms(9,10))
  show thesis
  proof (cases "prompt = [] \<or> es = []")
    case True
    then have "\<forall>m. p \<noteq> Some m" using matched by auto
    then have "p = None" by simp
    with p True that show ?thesis by auto
  next
    case False
    obtain i x where b: "best_pick M e prompt (map sent ?cands) = (i, x)" by fastforce
    have "\<forall>c \<in> set ?cands. candidate_utf8 c \<and> ca_Descriptions c \<noteq> NilSlice"
      using assms(7) es by (auto simp: assms(9) descs_def candidate_of_def)
    from sidecar_answers [OF assms(2-5) _ this _ b] False assms(8)
    have "\<forall>m. p = Some m \<longleftrightarrow> m \<in> set es \<and> \<not> x < sel_threshold s \<and> (case i of None \<Rightarrow> [] | Some j \<Rightarrow> j) = m_Id m"
      using matched by (auto simp: assms(10))
    note best = selected_similar [OF sim _ es [unfolded descs_def] ids b this]
    from False show ?thesis
      by (intro that [OF p]; unfold descs_def) (simp_all add: best)
  qed
qed

end
