(* ===== verification/Demo.thy ===== *)
theory Demo
  imports Startup SidecarLaws
begin

text \<open>
  Concrete inputs on which the definitions run: a small catalog, a request, a sidecar, a
  cluster. They are the inputs of the witnesses and show that the hypotheses the laws make on
  libraries can hold together.
\<close>

section \<open>A catalog\<close>

definition alice :: UserSpec where
  "alice = \<lparr>u_Id = ''alice'', u_Attributes = GoMap [(''role'', ''admin'')]\<rparr>"

definition bob :: UserSpec where
  "bob = \<lparr>u_Id = ''bob'', u_Attributes = GoMap [(''role'', ''guest'')]\<rparr>"

definition llama :: ModelSpec where
  "llama = \<lparr>m_Id = ''llama'', m_Type = ModelTypeBase, m_BaseModelId = [],
     m_AccessPolicy = \<lparr>ap_UserAttributes = GoMap [(''role'', Slice [''admin'', ''user''])]\<rparr>,
     m_SelectionPolicy = \<lparr>sp_KeyWords = NilSlice, sp_Descriptions = NilSlice\<rparr>\<rparr>"

definition medlora :: ModelSpec where
  "medlora = \<lparr>m_Id = ''med'', m_Type = ModelTypeLora, m_BaseModelId = ''llama'',
     m_AccessPolicy = \<lparr>ap_UserAttributes = GoMap [(''role'', Slice [''admin''])]\<rparr>,
     m_SelectionPolicy = \<lparr>sp_KeyWords = NilSlice, sp_Descriptions = Slice [''medicine'']\<rparr>\<rparr>"

definition demo_ops :: "store_op list" where
  "demo_ops = [OpSyncUser (Some alice), OpSyncUser (Some bob), OpSyncModel (Some llama),
               OpSyncModel (Some medlora)]"

definition demo_store :: memory where
  "demo_store =
     \<lparr>mem_users = GoMap [(''alice'', Some alice), (''bob'', Some bob)],
      mem_models = GoMap [(''llama'', Some llama), (''med'', Some medlora)]\<rparr>"

lemmas demo_specs = alice_def bob_def llama_def medlora_def

lemma ascii_literal: "list_all (\<lambda>c. byte c < 128) s \<Longrightarrow> valid_utf8 s"
  by (auto intro!: ascii_valid_utf8 simp: ascii_def list_all_iff)

lemma good_demo [simp]: "good_user alice" "good_user bob" "good_model llama" "good_model medlora"
  by (simp_all add: good_user_def good_model_def wf_user_def wf_model_def wf_access_def gwf_def
      demo_specs user_utf8_def policy_utf8_def ascii_literal byte_def)

lemma demo_abac [simp]:
  "abac alice llama" "abac alice medlora" "\<not> abac bob llama" "\<not> abac bob medlora"
  by (simp_all add: abac_def demo_specs glookup_def)

lemma demo_ids [simp]: "u_Id alice = ''alice''" "u_Id bob = ''bob''" "m_Id llama = ''llama''" "m_Id medlora = ''med''"
  by (simp_all add: demo_specs)

lemma demo_run: "store_run (Memory id id) demo_ops New = Some ([None, None, None, None], demo_store)"
  by (simp add: demo_ops_def New_def Memory_def Memory_SyncUser_def Memory_SyncModel_def gmake_def
      demo_store_def good_user_wf good_model_wf)

lemma demo_lookup:
  "users_of demo_store = [''alice'' \<mapsto> alice, ''bob'' \<mapsto> bob]"
  "models_of demo_store = [''llama'' \<mapsto> llama, ''med'' \<mapsto> medlora]"
  by (auto simp: users_of_def models_of_def ptr_abs_def demo_store_def glookup_def fun_eq_iff)

lemma demo_store_good: "mem_good demo_store"
proof -
  have "list_all op_wf demo_ops"
    by (simp add: demo_ops_def good_user_wf good_model_wf)
  from mem.run_from_empty(1) [OF this demo_run] show ?thesis
    by (auto simp: mem_good_def catalog_good_def demo_lookup ran_def split: if_splits)
qed

section \<open>Libraries\<close>

definition demo_lib :: golib where
  "demo_lib =
     \<lparr>ParseFloat = (\<lambda>s. if s = ''NaN'' then Inr F_NaN else if s = ''0'' then Inr (F_Fin 0)
                      else if s = ''1'' then Inr (F_Fin 1)
                      else if s = ''-1'' then Inr (F_Fin (- 1)) else Inl (Errorf ''invalid syntax'')),
      JsonError = (\<lambda>s. Errorf ''invalid JSON'')\<rparr>"

lemma demo_lib_documented: "parse_float_documented (ParseFloat demo_lib)"
  by (simp add: parse_float_documented_def demo_lib_def)

text \<open>
  A sidecar with an embedding of texts as numbers: 1 for the texts about medicine, 0 for the others. The scores are
  written as digits.
\<close>

definition demo_embedding :: "string \<Rightarrow> rat" where
  "demo_embedding t = (if t = ''hi'' \<or> t = ''medicine'' then 1 else 0)"

definition demo_embedder :: "rat embedder" where
  "demo_embedder =
     \<lparr>emb_embed = map demo_embedding,
      emb_norm = (\<lambda>v. F_Fin (abs v)), emb_scale = (\<lambda>v n. v), emb_dot = (\<lambda>v w. F_Fin (v * w))\<rparr>"

definition demo_scores :: "float64 set" where
  "demo_scores = {F_Fin 0, F_Fin 1, F_Fin (- 1)}"

definition score_text :: "float64 \<Rightarrow> string" where
  "score_text x = (if x = F_Fin 0 then ''0'' else if x = F_Fin 1 then ''1'' else ''-1'')"

definition answer_json :: "string \<Rightarrow> float64 \<Rightarrow> json" where
  "answer_json i x = JObj [(''model_id'', JStr i), (''score'', JNum (score_text x))]"

definition demo_web :: web where
  "demo_web = \<lparr>web_parse = parse_json, web_render = (\<lambda>i x. print_json (answer_json i x)), web_error = (\<lambda>code. [])\<rparr>"

definition demo_http :: http_client where
  "demo_http = \<lparr>NewRequest = (\<lambda>_ _. None),
     Do = (\<lambda>_ body. Inr (fst (post_pick demo_web demo_embedder body Map.empty)))\<rparr>"

definition demo_selector :: SemanticSelector where
  "demo_selector = \<lparr>sel_url = ''http://localhost:8001'', sel_threshold = F_Fin 0\<rparr>"

interpretation demo: deployment id id "\<lambda>_. True" rego_opa rego_engine demo_facts demo_crypto 1
  demo_lib "Some (Semantic_Selector demo_lib demo_http demo_selector)" True
  by unfold_locales (use semantic.Pick_total semantic.Pick_member in fastforce)+

definition demo_cfg :: SecureInferenceConfig where
  "demo_cfg = DefaultConfig\<lparr>cfg_AdapterSelection :=
     \<lparr>as_ComponentConfig = \<lparr>cc_Type = ''semantic'',
        cc_Parameters = GoMap [(''url'', ''http://localhost:8001''), (''similarityThreshold'', ''0'')]\<rparr>,
      as_AlwaysActive = True\<rparr>\<rparr>"

definition demo_env :: "nat env" where
  "demo_env = crypto.extend demo_crypto
     \<lparr>env_golib = demo_lib, env_isprint = (\<lambda>_. True), env_yaml = (\<lambda>_ _. Inr demo_cfg),
      env_prepare = rego_opa, env_http = demo_http, env_uord = id, env_mord = id,
      mgr_New = None, mgr_SetupUser = None, mgr_SetupModel = None, mgr_AddServer = None,
      mgr_AddHealthz = None, mgr_AddReadyz = None\<rparr>"

definition demo_srv :: "memory ExtAuthzServer" where
  "demo_srv = NewExtAuthzServer (OPA_PolicyEngine rego_engine) (ReadStore.truncate (Memory id id))
     (JWT_Authenticator demo_env 1) (Some (Semantic_Selector demo_lib demo_http demo_selector)) True"

lemma demo_env_fields [simp]:
  "ReadFile demo_env = ReadFile demo_crypto" "pem_Decode demo_env = pem_Decode demo_crypto"
  "ParseCertificate demo_env = ParseCertificate demo_crypto"
  "ParsePKIXPublicKey demo_env = ParsePKIXPublicKey demo_crypto"
  "ParseWithClaims demo_env = ParseWithClaims demo_crypto"
  "env_golib demo_env = demo_lib" "env_isprint demo_env = (\<lambda>_. True)"
  "env_yaml demo_env = (\<lambda>_ _. Inr demo_cfg)"
  "env_prepare demo_env = rego_opa" "env_http demo_env = demo_http"
  "env_uord demo_env = id" "env_mord demo_env = id"
  "mgr_New demo_env = None" "mgr_SetupUser demo_env = None" "mgr_SetupModel demo_env = None"
  "mgr_AddServer demo_env = None" "mgr_AddHealthz demo_env = None" "mgr_AddReadyz demo_env = None"
  by (simp_all add: demo_env_def crypto.defs)

lemma demo_env_conforms: "gojwt_conforms demo_facts demo_env"
  using demo_conforms by (simp add: gojwt_conforms_def)

lemma demo_key: "LoadPublicKey demo_env ''/etc/ssl/certs/llm-d-ca.pem'' = Inr 1"
  by (simp add: LoadPublicKey_def demo_crypto_def)

lemma demo_cfg_key: "param (cfg_Auth demo_cfg) ''publicKeyPath'' = ''/etc/ssl/certs/llm-d-ca.pem''"
  by (simp add: demo_cfg_def DefaultConfig_def param_def gget_def glookup_def)

lemma demo_load: "load demo_env ''/etc/secure-inference/config.yaml'' = Inr demo_cfg"
  by (simp add: load_def LoadConfig_def demo_crypto_def)

lemma demo_startup: "startup demo_env ''/etc/secure-inference/config.yaml'' = Inr (demo_srv, New)"
proof -
  have v: "Validate (ParseFloat demo_lib) (\<lambda>_. True) demo_cfg = None"
    by (simp add: Validate_None_iff demo_cfg_def DefaultConfig_def param_def gget_def glookup_def
        Let_def demo_lib_def)
  have a: "NewAuthenticatorFromConfig demo_env (cfg_Auth demo_cfg) = Inr (JWT_Authenticator demo_env 1)"
    using demo_key demo_cfg_key
    by (simp add: NewAuthenticatorFromConfig_def jwt_New_def demo_cfg_def DefaultConfig_def)
  have s: "NewAdapterSelectionFromConfig demo_lib (\<lambda>_. True) demo_http (cfg_AdapterSelection demo_cfg)
      = Inr (Some (Semantic_Selector demo_lib demo_http demo_selector))"
    by (simp add: NewAdapterSelectionFromConfig_def demo_cfg_def semantic_New_def param_def gget_def
        glookup_def Let_def demo_lib_def demo_selector_def)
  have e: "NewPolicyEngineFromConfig rego_opa (cfg_PolicyEngine demo_cfg) = Inr (OPA_PolicyEngine rego_engine)"
    by (simp add: NewPolicyEngineFromConfig_def demo_cfg_def DefaultConfig_def opa_New_def
        rego_engine_made)
  show ?thesis
    by (simp add: startup_def demo_load v a s e first_error_def demo_srv_def NewStoreFromConfig_def)
       (simp add: demo_cfg_def DefaultConfig_def)
qed

section \<open>A request\<close>

definition http_request :: "string \<Rightarrow> string \<Rightarrow> string \<Rightarrow> CheckRequest ptr" where
  "http_request path authorization body =
     Some (Some (Some (Some \<lparr>hr_Headers = GoMap [('':path'', path), (''authorization'', authorization)],
       hr_Body = body, hr_Host = ''localhost'', hr_Path = path\<rparr>)))"

definition demo_body :: json where
  "demo_body = JObj [(''model'', JStr ''llama''), (''prompt'', JStr ''hi'')]"

definition demo_request :: "CheckRequest ptr" where
  "demo_request = http_request ''/v1/completions'' ''Bearer salice'' (print_json demo_body)"

definition demo_ir :: InferenceRequest where
  "demo_ir = \<lparr>ir_Path = ''/v1/completions'', ir_Type = RequestTypeCompletion, ir_ModelID = ''llama'',
     ir_Headers = GoMap [('':path'', ''/v1/completions''), (''authorization'', ''Bearer salice'')],
     ir_Completion = Some \<lparr>cb_Model = ''llama'', cb_Prompt = ''hi''\<rparr>, ir_ChatCompletion = None\<rparr>"

lemma demo_parse: "ParseCheckRequest demo_lib demo_request = Inr demo_ir"
proof -
  have "json_ok 1 demo_body"
    by (simp add: demo_body_def ascii_literal byte_def)
  then have "json_Unmarshal_map demo_lib (print_json demo_body)
      = Inr (GoMap [(''model'', JStr ''llama''), (''prompt'', JStr ''hi'')])"
    unfolding demo_body_def by (rule Unmarshal_print) (simp_all add: maxNestingDepth_def)
  then show ?thesis
    by (simp add: ParseCheckRequest_def demo_request_def http_request_def GetHttp_def GetHeaders_def
        GetBody_def glookup_def headerPath_def request_type_def pathCompletions_def
        string_member_def as_string_def demo_ir_def)
qed

lemma demo_fields: "Fields ''Bearer salice'' = [''Bearer'', ''salice'']"
  by (simp add: Fields_def runes.simps DecodeRune_def byte_def IsSpace_def)

lemma demo_identity: "bearer_identity demo_facts 1 (ir_Headers demo_ir) ''alice''"
  by (simp add: bearer_identity_def demo_ir_def glookup_def demo_fields bearer_def admin_token_def
      demo_facts_def demo_claims_def)

lemma demo_authenticated: "JWT_Authenticate demo_env 1 demo_ir = Inr \<lparr>ar_UserID = ''alice''\<rparr>"
  using demo_identity by (simp add: JWT_Authenticate_iff [OF demo_env_conforms])

lemma answer_json_ok: "valid_utf8 i \<Longrightarrow> json_ok 1 (answer_json i x)"
  by (simp add: answer_json_def score_text_def ascii_literal byte_def num_lit_def nstart_def nstep_def isDigit_def
      nfinal_def)

lemma demo_web_conforms: "web_conforms demo_lib demo_web demo_scores"
  unfolding web_conforms_def
proof (intro conjI allI impI)
  fix v
  assume "json_ok 4 v"
  then have "parse_json (print_json v) = Some v" by (rule parse_print) (simp add: maxNestingDepth_def)
  then show "web_parse demo_web (print_json v) = Some v" by (simp add: demo_web_def)
next
  fix i x
  assume "valid_utf8 i" and x: "x \<in> demo_scores"
  from answer_json_ok [OF this(1), of x]
  have "decode_stream (print_json (answer_json i x)) (None :: goerror option) = Some (answer_json i x)"
    by (rule decode_stream_print) (simp_all add: maxNestingDepth_def answer_json_def closed_value_def)
  moreover have "ParseFloat demo_lib (score_text x) = Inr x"
    using x by (auto simp: demo_scores_def score_text_def demo_lib_def)
  ultimately show "\<exists>t. ParseFloat demo_lib t = Inr x \<and> decode_stream (web_render demo_web i x) (None :: goerror option)
      = Some (JObj [(''model_id'', JStr i), (''score'', JNum t)])"
    by (auto simp: demo_web_def answer_json_def)
qed

lemma demo_embeds: "embeds demo_embedder demo_embedding"
  by (simp add: embeds_def demo_embedder_def)

lemma demo_scores_in: "scores_in demo_embedder demo_embedding demo_scores"
  by (auto simp: scores_in_def demo_scores_def similarity_def normalized_def demo_embedder_def
      demo_embedding_def Let_def)

lemma demo_similarity: "similarity demo_embedder demo_embedding ''hi'' ''medicine'' = F_Fin 1"
  by (simp add: similarity_def normalized_def demo_embedder_def demo_embedding_def Let_def)

lemma demo_connected: "connected demo_http (sel_url demo_selector @ pickEndpoint) demo_web demo_embedder"
  unfolding connected_def demo_http_def using sidecar_runs.starts by fastforce

lemma demo_prompt: "PromptText demo_ir = ''hi''" "ir_ModelID demo_ir = ''llama''" "valid_utf8 (PromptText demo_ir)"
  by (simp_all add: PromptText_def demo_ir_def ascii_literal byte_def)

lemma demo_candidate: "m_Id medlora \<noteq> []" "candidate_utf8 (candidate_of medlora)" "eligible ''llama'' medlora"
  "elems (sp_Descriptions (m_SelectionPolicy medlora)) = [''medicine'']"
  by (simp_all add: medlora_def candidate_utf8_def candidate_of_def eligible_def ascii_literal byte_def)

lemma demo_pick:
  "Semantic_Pick demo_lib demo_http demo_selector demo_ir (map Some [medlora]) = Some (Some medlora, True)"
proof (rule Semantic_Pick_similar [OF demo_embeds demo_web_conforms demo_scores_in demo_connected])
  show "distinct (map m_Id [medlora])" by simp
  show "\<forall>m \<in> set [medlora]. m_Id m \<noteq> [] \<and> candidate_utf8 (candidate_of m)" using demo_candidate by simp
  show "valid_utf8 (PromptText demo_ir)" by (rule demo_prompt)
  have es: "[medlora] = filter (eligible (ir_ModelID demo_ir)) [medlora]"
    by (simp add: demo_candidate demo_prompt)
  show "[medlora] = filter (eligible (ir_ModelID demo_ir)) [medlora]" by (rule es)
  show "''hi'' = PromptText demo_ir" by (simp add: demo_prompt)
  fix p
  assume "Semantic_Pick demo_lib demo_http demo_selector demo_ir (map Some [medlora]) = Some (p, p \<noteq> None)"
    and "\<And>m. p = Some m \<Longrightarrow> m \<in> set [medlora] \<and> (\<exists>d \<in> set (elems (sp_Descriptions (m_SelectionPolicy m))).
       \<not> similarity demo_embedder demo_embedding ''hi'' d < sel_threshold demo_selector
       \<and> (\<forall>m' \<in> set [medlora]. \<forall>d' \<in> set (elems (sp_Descriptions (m_SelectionPolicy m'))).
            \<not> similarity demo_embedder demo_embedding ''hi'' d < similarity demo_embedder demo_embedding ''hi'' d'))"
    and "p = None \<Longrightarrow> ''hi'' = [] \<or> (\<forall>m \<in> set [medlora]. \<forall>d \<in> set (elems (sp_Descriptions (m_SelectionPolicy m))).
       similarity demo_embedder demo_embedding ''hi'' d < sel_threshold demo_selector
       \<or> \<not> F_Fin (- 1) < similarity demo_embedder demo_embedding ''hi'' d)"
  then show "Semantic_Pick demo_lib demo_http demo_selector demo_ir (map Some [medlora]) = Some (Some medlora, True)"
    by (cases p) (auto simp: demo_candidate demo_selector_def demo_similarity)
qed

lemma demo_check:
  "Check demo_lib demo_srv (\<lambda>_. demo_store) demo_request = Some (Inr (allowWithModelRewrite ''med''))"
proof -
  note ab = demo_abac
  have loras: "Memory_ListModelsByType id demo_store ModelTypeLora = Some (Inr [medlora])"
    by (simp add: Memory_ListModelsByType_def demo_store_def good_model_wf)
       (simp add: demo_specs ModelTypeBase_def ModelTypeLora_def)
  have al: "Engine_GetAllowedModels rego_engine (Some alice) [Some medlora] = Some (Inr [Some medlora])"
    using rego.allowed_eq [of alice "[medlora]"] ab by simp
  have base: "m_BaseModelId medlora = ir_ModelID demo_ir" "m_Type llama = ModelTypeBase" "m_Id medlora = ''med''"
    by (simp_all add: demo_specs demo_ir_def)
  have prompt: "PromptText demo_ir \<noteq> []" by (simp add: PromptText_def demo_ir_def)
  have early: "try_adapter demo_srv demo_store demo_ir (Some alice) = Some (Some (allowWithModelRewrite ''med''))"
    using demo_pick prompt
    by (simp add: try_adapter_def demo_srv_def shouldSelect_def Memory_def loras base OPA_PolicyEngine_def
        al Semantic_Selector_def)
  have look: "glookup (mem_users demo_store) ''alice'' = Some (Some alice)"
      "glookup (mem_models demo_store) (ir_ModelID demo_ir) = Some (Some llama)"
    by (simp_all add: demo_store_def glookup_def demo_ir_def)
  have "check_access demo_srv (\<lambda>_. demo_store) demo_ir ''alice'' = Some (allowWithModelRewrite ''med'')"
    using rego.check_eq [of alice llama] ab early
    by (simp add: check_access_def Memory_def Memory_GetUser_def Memory_GetModel_def look good_user_wf
        good_model_wf OPA_PolicyEngine_def base demo_srv_def)
  then show ?thesis
    using demo_authenticated
    by (simp add: Check_def demo_parse Memory_def Memory_UserExists_def look JWT_Authenticator_def
        demo_srv_def) (simp add: demo_ir_def)
qed

section \<open>A cluster\<close>

record meta =
  mt_Name :: string
  mt_DeletionTimestamp :: "int option"
  mt_Finalizers :: "string list"

type_synonym demo_user = "(unit, meta) User"
type_synonym demo_model = "(unit, meta) Model"
type_synonym demo_cluster = "(string \<rightharpoonup> demo_user) \<times> (string \<rightharpoonup> demo_model)"

text \<open>
  The objects of one kind the API server serves: those it admitted, each under its own name.
  Writing an object that does not exist, or that is not admitted, is an error.
\<close>

definition demo_objs :: "('x \<Rightarrow> meta) \<Rightarrow> ('x \<Rightarrow> bool) \<Rightarrow> (string \<rightharpoonup> 'x) \<Rightarrow> string \<rightharpoonup> 'x" where
  "demo_objs mt ok os n =
     (case os n of None \<Rightarrow> None | Some x \<Rightarrow> if ok x \<and> mt_Name (mt x) = n then Some x else None)"

definition demo_put ::
    "('x \<Rightarrow> meta) \<Rightarrow> ('x \<Rightarrow> bool) \<Rightarrow> 'x \<Rightarrow> (string \<rightharpoonup> 'x) \<Rightarrow> (string \<rightharpoonup> 'x) option" where
  "demo_put mt ok x os =
     (if demo_objs mt ok os (mt_Name (mt x)) = None \<or> \<not> ok x then None
      else if mt_DeletionTimestamp (mt x) \<noteq> None \<and> mt_Finalizers (mt x) = []
      then Some (os(mt_Name (mt x) := None)) else Some (os(mt_Name (mt x) \<mapsto> x)))"

definition demo_get :: "('x \<Rightarrow> meta) \<Rightarrow> ('x \<Rightarrow> bool) \<Rightarrow> (string \<rightharpoonup> 'x) \<Rightarrow> string \<Rightarrow> 'x result" where
  "demo_get mt ok os n =
     (case demo_objs mt ok os n of None \<Rightarrow> Inl (Errorf ''not found'') | Some x \<Rightarrow> Inr x)"

definition add_finalizer :: "string \<Rightarrow> 'z meta_scheme \<Rightarrow> 'z meta_scheme" where
  "add_finalizer f m = (if f \<in> set (mt_Finalizers m) then m
                        else m\<lparr>mt_Finalizers := mt_Finalizers m @ [f]\<rparr>)"

definition remove_finalizer :: "string \<Rightarrow> 'z meta_scheme \<Rightarrow> 'z meta_scheme" where
  "remove_finalizer f m = m\<lparr>mt_Finalizers := filter (\<lambda>g. g \<noteq> f) (mt_Finalizers m)\<rparr>"

lemma finalizer_functions [simp]:
  "g \<in> set (mt_Finalizers (add_finalizer f m)) \<longleftrightarrow> g = f \<or> g \<in> set (mt_Finalizers m)"
  "g \<in> set (mt_Finalizers (remove_finalizer f m)) \<longleftrightarrow> g \<noteq> f \<and> g \<in> set (mt_Finalizers m)"
  "mt_Name (add_finalizer f m) = mt_Name m" "mt_Name (remove_finalizer f m) = mt_Name m"
  "mt_DeletionTimestamp (add_finalizer f m) = mt_DeletionTimestamp m"
  "mt_DeletionTimestamp (remove_finalizer f m) = mt_DeletionTimestamp m"
  by (auto simp: add_finalizer_def remove_finalizer_def)

definition user_ok :: "demo_user \<Rightarrow> bool" where
  "user_ok x = good_user (usr_Spec x)"

definition model_ok :: "demo_model \<Rightarrow> bool" where
  "model_ok x = good_model (mod_Spec x)"

definition demo_users_kube :: "(demo_cluster, demo_user) kube" where
  "demo_users_kube =
     \<lparr>kube_Get = (\<lambda>k n. demo_get usr_ObjectMeta user_ok (fst k) n),
      kube_Update = (\<lambda>k x. case demo_put usr_ObjectMeta user_ok x (fst k) of
          None \<Rightarrow> (Some (Errorf ''conflict''), x, k) | Some os \<Rightarrow> (None, x, (os, snd k))),
      IsNotFound = (\<lambda>e. e = Errorf ''not found''),
      GetDeletionTimestamp = (\<lambda>x. mt_DeletionTimestamp (usr_ObjectMeta x)),
      ContainsFinalizer = (\<lambda>x f. f \<in> set (mt_Finalizers (usr_ObjectMeta x))),
      AddFinalizer = (\<lambda>x f. x\<lparr>usr_ObjectMeta := add_finalizer f (usr_ObjectMeta x)\<rparr>),
      RemoveFinalizer = (\<lambda>x f. x\<lparr>usr_ObjectMeta := remove_finalizer f (usr_ObjectMeta x)\<rparr>)\<rparr>"

definition demo_models_kube :: "(demo_cluster, demo_model) kube" where
  "demo_models_kube =
     \<lparr>kube_Get = (\<lambda>k n. demo_get mod_ObjectMeta model_ok (snd k) n),
      kube_Update = (\<lambda>k x. case demo_put mod_ObjectMeta model_ok x (snd k) of
          None \<Rightarrow> (Some (Errorf ''conflict''), x, k) | Some os \<Rightarrow> (None, x, (fst k, os))),
      IsNotFound = (\<lambda>e. e = Errorf ''not found''),
      GetDeletionTimestamp = (\<lambda>x. mt_DeletionTimestamp (mod_ObjectMeta x)),
      ContainsFinalizer = (\<lambda>x f. f \<in> set (mt_Finalizers (mod_ObjectMeta x))),
      AddFinalizer = (\<lambda>x f. x\<lparr>mod_ObjectMeta := add_finalizer f (mod_ObjectMeta x)\<rparr>),
      RemoveFinalizer = (\<lambda>x f. x\<lparr>mod_ObjectMeta := remove_finalizer f (mod_ObjectMeta x)\<rparr>)\<rparr>"

definition demo_kube :: "(demo_cluster, unit, meta, unit, meta) cluster" where
  "demo_kube =
     \<lparr>cl_users = demo_users_kube, cl_models = demo_models_kube,
      cl_uname = (\<lambda>x. mt_Name (usr_ObjectMeta x)), cl_mname = (\<lambda>x. mt_Name (mod_ObjectMeta x)),
      cl_uobjs = (\<lambda>k. demo_objs usr_ObjectMeta user_ok (fst k)),
      cl_mobjs = (\<lambda>k. demo_objs mod_ObjectMeta model_ok (snd k))\<rparr>"

lemma demo_objs_some: "demo_objs mt ok os n = Some x \<Longrightarrow> ok x \<and> mt_Name (mt x) = n"
  by (auto simp: demo_objs_def split: option.splits if_splits)

lemma demo_objs_upd:
  "ok x \<Longrightarrow> demo_objs mt ok (os(mt_Name (mt x) \<mapsto> x)) = (demo_objs mt ok os)(mt_Name (mt x) \<mapsto> x)"
  "demo_objs mt ok (os(n := None)) = (demo_objs mt ok os)(n := None)"
  by (auto simp: demo_objs_def fun_eq_iff)

lemma demo_put_some:
  assumes "demo_put mt ok x os = Some os'"
  shows "demo_objs mt ok os' = (demo_objs mt ok os)(mt_Name (mt x) \<mapsto> x)
    \<or> mt_DeletionTimestamp (mt x) \<noteq> None
       \<and> demo_objs mt ok os' = (demo_objs mt ok os)(mt_Name (mt x) := None)"
  using assms demo_objs_upd [where ok = ok and mt = mt and os = os] by (auto simp: demo_put_def split: if_splits)

lemma demo_get_eqs:
  "demo_get mt ok os n = Inr x \<longleftrightarrow> demo_objs mt ok os n = Some x"
  "demo_get mt ok os n = Inl e \<Longrightarrow> demo_objs mt ok os n = None"
  by (auto simp: demo_get_def split: option.splits)

lemma demo_users_conform:
  "kube_conforms demo_users_kube (\<lambda>x. mt_Name (usr_ObjectMeta x)) usr_Spec
     (\<lambda>k. demo_objs usr_ObjectMeta user_ok (fst k))"
  unfolding kube_conforms_def
proof (intro conjI)
  show "update_laws demo_users_kube (\<lambda>x. mt_Name (usr_ObjectMeta x)) usr_Spec
     (\<lambda>k. demo_objs usr_ObjectMeta user_ok (fst k))"
    using demo_put_some
    by (force simp: update_laws_def demo_users_kube_def split: option.splits)
qed (auto simp: demo_users_kube_def finalizer_laws_def demo_get_eqs dest: demo_objs_some)

lemma demo_models_conform:
  "kube_conforms demo_models_kube (\<lambda>x. mt_Name (mod_ObjectMeta x)) mod_Spec
     (\<lambda>k. demo_objs mod_ObjectMeta model_ok (snd k))"
  unfolding kube_conforms_def
proof (intro conjI)
  show "update_laws demo_models_kube (\<lambda>x. mt_Name (mod_ObjectMeta x)) mod_Spec
     (\<lambda>k. demo_objs mod_ObjectMeta model_ok (snd k))"
    using demo_put_some
    by (force simp: update_laws_def demo_models_kube_def split: option.splits)
qed (auto simp: demo_models_kube_def finalizer_laws_def demo_get_eqs dest: demo_objs_some)

lemma demo_cluster_conforms: "cluster_conforms demo_kube"
  unfolding cluster_conforms_def demo_kube_def cluster.select_convs
proof (intro conjI demo_users_conform demo_models_conform)
qed (auto simp: demo_users_kube_def demo_models_kube_def user_ok_def model_ok_def
     split: option.splits dest: demo_objs_some)

text \<open>Alice's resource, new, and marked for deletion with the finalizer.\<close>

definition alice_cr :: "string list \<Rightarrow> int option \<Rightarrow> demo_user" where
  "alice_cr fs ts = \<lparr>usr_TypeMeta = (), usr_ObjectMeta = \<lparr>mt_Name = ''alice-cr'',
     mt_DeletionTimestamp = ts, mt_Finalizers = fs\<rparr>, usr_Spec = alice, usr_Status = ()\<rparr>"

definition with_alice :: "string list \<Rightarrow> int option \<Rightarrow> demo_cluster" where
  "with_alice fs ts = ([''alice-cr'' \<mapsto> alice_cr fs ts], Map.empty)"

definition med_cr :: "string list \<Rightarrow> int option \<Rightarrow> demo_model" where
  "med_cr fs ts = \<lparr>mod_TypeMeta = (), mod_ObjectMeta = \<lparr>mt_Name = ''med-cr'',
     mt_DeletionTimestamp = ts, mt_Finalizers = fs\<rparr>, mod_Spec = medlora, mod_Status = ()\<rparr>"

definition with_med :: "string list \<Rightarrow> int option \<Rightarrow> demo_cluster" where
  "with_med fs ts = (Map.empty, [''med-cr'' \<mapsto> med_cr fs ts])"

definition alice_store :: memory where
  "alice_store = \<lparr>mem_users = GoMap [(''alice'', Some alice)], mem_models = GoMap []\<rparr>"

lemmas demo_kube_defs = demo_users_kube_def demo_models_kube_def demo_get_def demo_put_def
  demo_objs_def with_alice_def alice_cr_def with_med_def med_cr_def user_ok_def model_ok_def
  add_finalizer_def remove_finalizer_def

text \<open>Syncing a new resource; cleaning up a deleted one; a second replica after that.\<close>

lemma demo_sync_run:
  "User_Reconcile demo_users_kube (Memory id id) ''alice-cr'' (with_alice [] None, New, False)
     = Some (None, (with_alice [userFinalizer] None, alice_store, True))"
  by (simp add: User_Reconcile_memory reconcile_def demo_kube_defs Memory_SyncUser_def good_user_wf
      New_def gmake_def alice_store_def)

lemma demo_cleanup_run:
  "User_Reconcile demo_users_kube (Memory id id) ''alice-cr'' (with_alice [userFinalizer] (Some 1), s, b)
     = Some (None, ((Map.empty, Map.empty), s\<lparr>mem_users := gdelete ''alice'' (mem_users s)\<rparr>, b))"
  by (simp add: User_Reconcile_memory reconcile_def demo_kube_defs Memory_DeleteUser_def)

lemma demo_missing_run:
  "User_Reconcile demo_users_kube (Memory id id) n ((Map.empty, Map.empty), s, b)
     = Some (None, ((Map.empty, Map.empty), s, b))"
  by (simp add: User_Reconcile_memory reconcile_def demo_kube_defs)

lemma demo_model_cleanup_run:
  "Model_Reconcile demo_models_kube (Memory id id) ''med-cr'' (with_med [modelFinalizer] (Some 1), s, b)
     = Some (None, ((Map.empty, Map.empty), s\<lparr>mem_models := gdelete ''med'' (mem_models s)\<rparr>, b))"
  by (simp add: Model_Reconcile_memory reconcile_def demo_kube_defs Memory_DeleteModel_def)

lemma alice_store_users [simp]: "users_of alice_store = [''alice'' \<mapsto> alice]" "models_of alice_store = Map.empty"
  by (auto simp: alice_store_def users_of_def models_of_def ptr_abs_def glookup_def fun_eq_iff)

lemma demo_kube_sel [simp]:
  "cl_users demo_kube = demo_users_kube" "cl_models demo_kube = demo_models_kube"
  by (simp_all add: demo_kube_def)

end
