(* ===== verification/Properties.thy ===== *)
theory Properties
  imports Demo
begin

text \<open>
  The properties of single components, each with a witness on the inputs of \<open>Demo\<close>. The
  properties that span components are in the root theory.
\<close>

section \<open>Responses and the bypass\<close>

text \<open>
  C24. Whatever the components do, a check that returns anything returns a response without an
  error, and a response that does not allow is a Forbidden (403) with code PermissionDenied,
  a body that starts with ''Denied: '' and the header that says so; one that allows has code OK
  and carries the result header.
\<close>

theorem response_shape:
  assumes "Check L s sigma request = Some r"
  shows "\<exists>resp. r = Inr resp \<and>
     (if is_allowed resp
      then resp_Status resp = 0 \<and> map hv_Key (response_headers resp)
             \<in> {[resultHeader], [resultHeader, modelRewriteHeader]}
      else \<exists>reason. resp = \<lparr>resp_HttpResponse = DeniedResponse
             \<lparr>dr_Status = 403, dr_Body = ''Denied: '' @ reason,
              dr_Headers = [\<lparr>hv_Key = resultHeader, hv_Value = ''denied''\<rparr>]\<rparr>, resp_Status = 7\<rparr>)"
proof -
  from Check_responses [OF assms] obtain resp where r: "r = Inr resp"
    and shapes: "resp = allow \<or> resp = allowWithoutClaims
      \<or> (\<exists>i. resp = allowWithModelRewrite i) \<or> (\<exists>reason. resp = deny reason)"
    by blast
  show ?thesis
    by (rule exI [of _ resp], use shapes in \<open>auto simp: r response_headers_def allow_def allowWithoutClaims_def allowWithModelRewrite_def
        deny_def header_def is_allowed_def Let_def codes_OK_def codes_PermissionDenied_def
        StatusCode_Forbidden_def resultDenied_def split: if_splits\<close>)
qed

lemma response_shape_witness:
  "\<exists>resp. Check demo_lib demo_srv (\<lambda>_. demo_store) demo_request = Some (Inr resp)
     \<and> resp_Status resp = 0"
  using response_shape [OF demo_check] demo_check by simp

text \<open>
  C23. Only the exact paths are protected: a request gets the response ''not-applicable'', without
  any authentication, if its path header is any other text, and otherwise never, whatever the
  components are.
\<close>

theorem bypass_iff_other_path:
  "Check L s sigma request = Some (Inr allowWithoutClaims) \<longleftrightarrow>
     (\<exists>path. glookup (GetHeaders (GetHttp request)) '':path'' = Some path \<and>
        path \<notin> {''/v1/completions'', ''/v1/chat/completions'', ''/v1/models''})"
  using Check_bypass_iff [of L s sigma request]
  by (simp add: headerPath_def pathCompletions_def pathChatCompletions_def pathModels_def)

text \<open>
  The path header is Envoy's, and includes the query string: appending one to a protected
  path turns the request into an unprotected one, whoever sends it.
\<close>

lemma query_string_bypasses_authorization:
  "Check L s sigma (http_request (''/v1/completions?'' @ query) authorization body)
     = Some (Inr allowWithoutClaims)
   \<and> Check L s sigma (http_request (''/v1/chat/completions?'' @ query) authorization body)
     = Some (Inr allowWithoutClaims)
   \<and> Check L s sigma (http_request (''/v1/models?'' @ query) authorization body)
     = Some (Inr allowWithoutClaims)"
  by (simp add: Check_bypass_iff http_request_def GetHttp_def GetHeaders_def glookup_def headerPath_def
      pathCompletions_def pathChatCompletions_def pathModels_def)

text \<open>
  Without the header \<open>x-adapter-selection: true\<close>, and unless selection is always active, no
  response rewrites the model.
\<close>

lemma no_rewrite_without_header:
  assumes "\<not> srv_alwaysActive s"
    and "glookup (GetHeaders (GetHttp request)) ''x-adapter-selection'' \<noteq> Some ''true''"
    and "Check L s sigma request = Some (Inr resp)"
  shows "rewrite_of resp = None"
proof (cases "ParseCheckRequest L request")
  case (Inl e)
  with assms(3) show ?thesis by (auto simp: Check_def)
next
  case (Inr ir)
  have no: "\<not> shouldSelect s ir"
    using assms(1,2) ParseCheckRequest_fields(1) [OF Inr] by (simp add: shouldSelect_def)
  show ?thesis
  proof (cases "ir_Type ir = RequestTypeUnknown")
    case True
    with assms(3) Inr show ?thesis by (auto simp: Check_def)
  next
    case False
    from pred_optionD [OF Check_protected [OF Inr this] assms(3)] no show ?thesis
      by (auto simp: check_response_def access_response_def)
  qed
qed

section \<open>Requests\<close>

text \<open>
  C25. A body printed by a client decodes to what the client meant: the members \<open>model\<close> and
  \<open>prompt\<close> of a completion request become the model id and the prompt text.
\<close>

theorem completion_round_trip:
  assumes "json_ok d (JObj kvs)" and "d \<le> maxNestingDepth" and "numbers_ok (ParseFloat L) (JObj kvs)"
    and "distinct (map fst kvs)"
    and "map_of kvs ''model'' = Some (JStr m)" and "map_of kvs ''prompt'' = Some (JStr p)"
  shows "\<exists>ir. ParseCheckRequest L (http_request ''/v1/completions'' authorization (print_json (JObj kvs)))
       = Inr ir \<and> ir_Type ir = RequestTypeCompletion \<and> ir_ModelID ir = m \<and> PromptText ir = p"
  using Unmarshal_print [OF assms(1-4)] assms(5,6)
  by (simp add: ParseCheckRequest_def http_request_def GetHttp_def GetHeaders_def GetBody_def
      glookup_def headerPath_def request_type_def pathCompletions_def string_member_def
      as_string_def PromptText_def del: print_json.simps)

lemma completion_round_trip_witness:
  "\<exists>ir. ParseCheckRequest demo_lib (http_request ''/v1/completions'' [] (print_json
      (JObj [(''model'', JStr ''llama''), (''prompt'', JStr ''hi'')]))) = Inr ir
     \<and> ir_ModelID ir = ''llama'' \<and> PromptText ir = ''hi''"
proof -
  have "json_ok 1 (JObj [(''model'', JStr ''llama''), (''prompt'', JStr ''hi'')])"
    by (simp add: ascii_literal byte_def)
  from completion_round_trip [OF this, of demo_lib "''llama''" "''hi''" "[]"] show ?thesis
    by (auto simp: maxNestingDepth_def simp del: print_json.simps)
qed

definition message_json :: "ChatMessage \<Rightarrow> json" where
  "message_json m = JObj [(''role'', JStr (cm_Role m)), (''content'', JStr (cm_Content m))]"

lemma chat_messages_json: "chat_messages (map message_json ms) acc = acc @ ms"
proof (induction ms arbitrary: acc)
  case (Cons m ms)
  then show ?case
    by (cases m) (simp add: message_json_def string_member_def as_string_def glookup_def)
qed simp

text \<open>
  C26. For a chat request the prompt text is the content of the last message whose role is
  \<open>user\<close>, and empty when there is none.
\<close>

theorem chat_prompt_is_last_user_message:
  assumes "json_ok d (JObj kvs)" and "d \<le> maxNestingDepth" and "numbers_ok (ParseFloat L) (JObj kvs)"
    and "distinct (map fst kvs)"
    and "map_of kvs ''model'' = Some (JStr m)"
    and "map_of kvs ''messages'' = Some (JArr (map message_json msgs))"
  shows "\<exists>ir. ParseCheckRequest L (http_request ''/v1/chat/completions'' authorization (print_json (JObj kvs)))
       = Inr ir \<and> ir_Type ir = RequestTypeChatCompletion \<and> ir_ModelID ir = m \<and>
         PromptText ir = (case rev (filter (\<lambda>m. cm_Role m = ''user'') msgs) of
           [] \<Rightarrow> [] | m # _ \<Rightarrow> cm_Content m)"
  using Unmarshal_print [OF assms(1-4)] assms(5,6) last_user_spec [of "length msgs" msgs]
  by (simp add: ParseCheckRequest_def http_request_def GetHttp_def GetHeaders_def GetBody_def
      glookup_def headerPath_def request_type_def pathCompletions_def pathChatCompletions_def
      string_member_def as_string_def PromptText_def chat_messages_json del: print_json.simps)

definition demo_chat :: "ChatMessage list" where
  "demo_chat = [\<lparr>cm_Role = ''user'', cm_Content = ''a''\<rparr>, \<lparr>cm_Role = ''user'', cm_Content = ''b''\<rparr>,
                \<lparr>cm_Role = ''assistant'', cm_Content = ''c''\<rparr>]"

lemma chat_prompt_is_last_user_message_witness:
  "\<exists>ir. ParseCheckRequest demo_lib (http_request ''/v1/chat/completions'' [] (print_json
      (JObj [(''model'', JStr ''llama''), (''messages'', JArr (map message_json demo_chat))]))) = Inr ir
     \<and> PromptText ir = ''b''"
proof -
  let ?kvs = "[(''model'', JStr ''llama''), (''messages'', JArr (map message_json demo_chat))]"
  have "json_ok 3 (JObj ?kvs)"
    by (simp add: ascii_literal byte_def message_json_def eval_nat_numeral demo_chat_def)
  moreover have "numbers_ok (ParseFloat demo_lib) (JObj ?kvs)"
    by (simp add: message_json_def demo_chat_def)
  ultimately obtain ir where "ParseCheckRequest demo_lib
      (http_request ''/v1/chat/completions'' [] (print_json (JObj ?kvs))) = Inr ir"
      "PromptText ir = (case rev (filter (\<lambda>m. cm_Role m = ''user'') demo_chat) of
           [] \<Rightarrow> [] | m # _ \<Rightarrow> cm_Content m)"
    using chat_prompt_is_last_user_message [of 3 ?kvs demo_lib "''llama''" demo_chat "[]"]
    by (auto simp: maxNestingDepth_def simp del: print_json.simps json_ok.simps numbers_ok.simps)
  then show ?thesis by (simp add: demo_chat_def del: print_json.simps)
qed

section \<open>Authentication\<close>

text \<open>
  C13. Authentication succeeds exactly for a header of two words, the first \<open>Bearer\<close> and the
  second a token that decodes with an RSA method, is signed by the server's key, is within its
  times and was issued by the admin; the user is the token's user name.
\<close>

theorem authenticate_iff_admin_token:
  assumes "gojwt_conforms F C"
  shows "JWT_Authenticate C k ir = Inr \<lparr>ar_UserID = user\<rparr> \<longleftrightarrow>
     (\<exists>auth tok c a. glookup (ir_Headers ir) ''authorization'' = Some auth
        \<and> Fields auth = [''Bearer'', tok]
        \<and> jf_decode F tok = Some (SigningMethodRSA a, c) \<and> jf_verify F (SigningMethodRSA a) k tok
        \<and> jf_times_ok F (uc_RegisteredClaims c)
        \<and> rc_Issuer (uc_RegisteredClaims c) = ''llm-d-admin'' \<and> uc_Username c = user)"
  unfolding JWT_Authenticate_iff [OF assms] bearer_identity_def admin_token_def
  by (auto simp: bearer_def ServerName_def)

lemma authenticate_iff_admin_token_witness:
  "\<exists>ir. JWT_Authenticate demo_crypto 1 ir = Inr \<lparr>ar_UserID = ''alice''\<rparr>"
  using authenticate_iff_admin_token [OF demo_conforms, of 1 demo_ir "''alice''"]
  by (auto simp: demo_ir_def glookup_def demo_fields demo_facts_def demo_claims_def ServerName_def)

text \<open>
  C14. The authenticator is created exactly when the key path is configured and the file is a
  PEM block with an RSA key, in a certificate or as a public key.
\<close>

theorem authenticator_needs_rsa_key:
  "(\<exists>A. NewAuthenticatorFromConfig C cfg = Inr A) \<longleftrightarrow>
     cc_Type cfg \<in> {''jwt'', []} \<and> param cfg ''publicKeyPath'' \<noteq> [] \<and>
     (\<exists>data ty bytes k. ReadFile C (param cfg ''publicKeyPath'') = Inr data
        \<and> pem_Decode C data = Some (ty, bytes)
        \<and> (ty = ''CERTIFICATE''
             \<and> (\<exists>cert. ParseCertificate C bytes = Inr cert \<and> ct_PublicKey cert = RSAPublicKey k)
           \<or> ty \<in> {''PUBLIC KEY'', ''RSA PUBLIC KEY''}
             \<and> ParsePKIXPublicKey C bytes = Inr (RSAPublicKey k)))"
  by (auto simp: NewAuthenticatorFromConfig_def jwt_New_def LoadPublicKey_def Let_def
      split: sum.splits option.splits public_key.splits if_splits)

section \<open>Policy\<close>

text \<open>
  C10. The embedded policy, evaluated on the documents of a user and a model, decides the
  attribute rule: every attribute the model's policy names has to be an attribute of the user
  with one of the listed values.
\<close>

theorem rego_policy_is_attribute_rule:
  assumes "good_user u" and "good_model m"
  shows "is_user_allowed scalar
           (JObj [(''user_obj'', UserSpec_json u), (''model_obj'', ModelSpec_json m)]) \<longleftrightarrow>
     (\<forall>name allowed. glookup (ap_UserAttributes (m_AccessPolicy m)) name = Some allowed \<longrightarrow>
        (\<exists>v. glookup (u_Attributes u) name = Some v \<and> v \<in> set (elems allowed)))"
  using is_user_allowed_input [OF assms] abac_iff [OF good_model_wf [OF assms(2)]] by simp

lemma rego_policy_is_attribute_rule_witness:
  "is_user_allowed (\<lambda>_. True)
     (JObj [(''user_obj'', UserSpec_json alice), (''model_obj'', ModelSpec_json llama)])"
  using rego_policy_is_attribute_rule [OF good_demo(1) good_demo(3)]
  by (simp add: demo_specs glookup_def)

text \<open>
  C11. The OPA engine that the factory creates answers an access check with the attribute rule,
  and no error, on every admitted user and model.
\<close>

theorem engine_checks_attribute_rule:
  assumes "opa_conforms scalar prepare" and "NewPolicyEngineFromConfig prepare cfg = Inr E"
    and "good_user u" and "good_model m"
  shows "CheckAccess E (Some u) (Some m) = Some (Inr (abac u m))"
proof -
  obtain e where e: "NewOPAEngine prepare = Inr e" "E = OPA_PolicyEngine e"
    using NewOPAEngine_engine [OF assms(2)] by blast
  have "opa_library scalar prepare e" by (simp add: opa_library_def assms(1) e)
  from opa_library.check_eq [OF this assms(3,4)] show ?thesis by (simp add: e OPA_PolicyEngine_def)
qed

lemma engine_checks_attribute_rule_witness:
  "CheckAccess (OPA_PolicyEngine rego_engine) (Some bob) (Some llama) = Some (Inr False)"
proof -
  have "NewPolicyEngineFromConfig rego_opa \<lparr>cc_Type = ''opa'', cc_Parameters = NilMap\<rparr>
      = Inr (OPA_PolicyEngine rego_engine)"
    by (simp add: NewPolicyEngineFromConfig_def opa_New_def rego_engine_made)
  from engine_checks_attribute_rule [OF rego_opa_conforms this good_demo(2,3)] show ?thesis
    by simp
qed

text \<open>
  C12. Asked which of a list of models a user may use, the engine returns those models whose id
  is the id of some listed model that the rule permits: with distinct ids this is the list
  filtered by the rule, but with two models under one id it also returns the forbidden one.
\<close>

theorem engine_filters_models_by_id:
  assumes "opa_conforms scalar prepare" and "NewPolicyEngineFromConfig prepare cfg = Inr E"
    and "good_user u" and "list_all good_model ms"
  shows "GetAllowedModels E (Some u) (map Some ms) = Some (Inr (map Some
           (filter (\<lambda>m. \<exists>m' \<in> set ms. m_Id m' = m_Id m \<and> abac u m') ms)))
     \<and> (distinct (map m_Id ms) \<longrightarrow>
          GetAllowedModels E (Some u) (map Some ms) = Some (Inr (map Some (filter (abac u) ms))))"
proof -
  obtain e where e: "NewOPAEngine prepare = Inr e" "E = OPA_PolicyEngine e"
    using NewOPAEngine_engine [OF assms(2)] by blast
  have lib: "opa_library scalar prepare e" by (simp add: opa_library_def assms(1) e)
  from opa_library.allowed_eq [OF this assms(3,4)]
  have all: "GetAllowedModels E (Some u) (map Some ms) = Some (Inr (map Some
           (filter (\<lambda>m. \<exists>m' \<in> set ms. m_Id m' = m_Id m \<and> abac u m') ms)))"
    by (simp add: e OPA_PolicyEngine_def)
  moreover have "filter (\<lambda>m. \<exists>m' \<in> set ms. m_Id m' = m_Id m \<and> abac u m') ms = filter (abac u) ms"
    if "distinct (map m_Id ms)"
    using that by (intro filter_cong) (auto simp: distinct_map inj_on_def)
  ultimately show ?thesis by simp
qed

lemma engine_filters_models_by_id_witness:
  "GetAllowedModels (OPA_PolicyEngine rego_engine) (Some alice) [Some llama, Some medlora]
     = Some (Inr [Some llama, Some medlora])"
proof -
  have "NewPolicyEngineFromConfig rego_opa \<lparr>cc_Type = ''opa'', cc_Parameters = NilMap\<rparr>
      = Inr (OPA_PolicyEngine rego_engine)"
    by (simp add: NewPolicyEngineFromConfig_def opa_New_def rego_engine_made)
  from engine_filters_models_by_id [OF rego_opa_conforms this good_demo(1), of "[llama, medlora]"]
  show ?thesis by simp
qed

section \<open>The store\<close>

text \<open>
  C15. The memory store implements two finite maps: any run of sync and delete calls from the
  new store, with whatever orders its range loops take, never panics, returns an error exactly
  for a nil spec or an empty id, and leaves the users and models the abstract updates leave.
\<close>

theorem memory_refines_catalog:
  assumes "list_all op_wf xs"
  shows "\<exists>es s. store_run (Memory uord mord) xs New = Some (es, s) \<and> mem_inv s
     \<and> (users_of s, models_of s) = fold catalog_step xs (Map.empty, Map.empty)
     \<and> map (\<lambda>e. e \<noteq> None) es = map op_fails xs"
  by (rule Memory_run_refines [OF assms])

lemma memory_refines_catalog_witness:
  "\<exists>es s. store_run (Memory rev rev) [OpSyncUser (Some alice), OpSyncUser None, OpDeleteUser ''alice''] New
     = Some (es, s) \<and> users_of s ''alice'' = None \<and> map (\<lambda>e. e \<noteq> None) es = [False, True, False]"
proof -
  let ?xs = "[OpSyncUser (Some alice), OpSyncUser None, OpDeleteUser ''alice'']"
  have "list_all op_wf ?xs" by (simp add: good_user_wf)
  from memory_refines_catalog [OF this, of rev rev] obtain es s where
      "store_run (Memory rev rev) ?xs New = Some (es, s)"
      "(users_of s, models_of s) = fold catalog_step ?xs (Map.empty, Map.empty)"
      "map (\<lambda>e. e \<noteq> None) es = map op_fails ?xs" by blast
  then show ?thesis by (auto simp: put_spec_def)
qed

text \<open>
  C20. After such a run, reading a user returns the spec of the last sync of that id if no
  delete of the id came after it, and a not-found error otherwise; so for a model.
\<close>

theorem memory_last_call_decides:
  assumes "list_all op_wf xs" and "store_run (Memory uord mord) xs New = Some (es, s)"
  shows "Memory_GetUser s i = Some (case latest (op_user i) None (rev xs) of
           Some u \<Rightarrow> Inr (Some u) | None \<Rightarrow> Inl (Errorf (''user not found: '' @ i)))
     \<and> Memory_GetModel s i = Some (case latest (op_model i) None (rev xs) of
           Some m \<Rightarrow> Inr (Some m) | None \<Rightarrow> Inl (Errorf (''model not found: '' @ i)))"
  using Memory_run_lookup [OF assms] by (intro conjI)

lemma memory_last_call_decides_witness:
  "Memory_GetUser demo_store ''bob'' = Some (Inr (Some bob))"
proof -
  have "list_all op_wf demo_ops" by (simp add: demo_ops_def good_user_wf good_model_wf)
  from memory_last_call_decides [OF this demo_run, of "''bob''"] show ?thesis
    by (simp add: demo_ops_def)
qed

text \<open>
  Listing the models of a type, after such a run, yields every stored model of that type
  once and nothing else, whatever order the map is ranged over.
\<close>

lemma memory_lists_type_exactly:
  assumes "list_all op_wf xs" and "store_run (Memory uord mord) xs New = Some (es, s)"
    and "range_order ord"
  shows "\<exists>ms. Memory_ListModelsByType ord s t = Some (Inr ms) \<and> distinct (map m_Id ms)
     \<and> (\<forall>m. m \<in> set ms \<longleftrightarrow>
          m_Type m = t \<and> latest (op_model (m_Id m)) None (rev xs) = Some m)"
  using Memory_lists_type [OF assms(3) Memory_run_lookup(4) [OF assms(1,2)]]
  by (simp add: Memory_run_lookup(3) [OF assms(1,2)])

text \<open>
  As values, a deep copy of a list of resources, of a resource as an object, or of a spec or a policy
  equals the original and never panics, given Go's guarantee that a map has no key twice; the
  copy of a nil pointer as an object is the nil interface. That the copies share nothing with the
  originals is shown on the heap, in \<open>Aliasing\<close>.
\<close>

lemma deep_copies_equal:
  assumes "\<forall>u \<in> set (elems (ul_Items ul)). wf_user (usr_Spec u)"
    and "\<forall>m \<in> set (elems (ml_Items ml)). wf_model (mod_Spec m)"
  shows "UserList_DeepCopyObject id id (Some ul) = Some (Some (Some ul))
     \<and> ModelList_DeepCopyObject id id (Some ml) = Some (Some (Some ml))
     \<and> (\<forall>u \<in> set (elems (ul_Items ul)).
          User_DeepCopyObject id (Some u) = Some (Some (Some u))
          \<and> UserSpec_DeepCopy (Some (usr_Spec u)) = Some (Some (usr_Spec u)))
     \<and> (\<forall>m \<in> set (elems (ml_Items ml)).
          Model_DeepCopyObject id (Some m) = Some (Some (Some m))
          \<and> ModelSpec_DeepCopy (Some (mod_Spec m)) = Some (Some (mod_Spec m))
          \<and> ModelAccessPolicy_DeepCopy (Some (m_AccessPolicy (mod_Spec m)))
              = Some (Some (m_AccessPolicy (mod_Spec m)))
          \<and> ModelSelectionPolicy_DeepCopy (Some (m_SelectionPolicy (mod_Spec m)))
              = Some (Some (m_SelectionPolicy (mod_Spec m))))
     \<and> User_DeepCopyObject id (None :: ('t, 'o) User ptr) = Some None
     \<and> Model_DeepCopyObject id (None :: ('t, 'o) Model ptr) = Some None"
  using assms
  by (simp_all add: UserList_DeepCopyObject_def ModelList_DeepCopyObject_def User_DeepCopyObject_def
      Model_DeepCopyObject_def deep_copy_object_id deep_copy_def UserList_DeepCopy_def
      ModelList_DeepCopy_def User_DeepCopy_def Model_DeepCopy_def UserList_DeepCopyInto_id
      ModelList_DeepCopyInto_id User_DeepCopyInto_id Model_DeepCopyInto_id
      ModelAccessPolicy_DeepCopy_def ModelSelectionPolicy_DeepCopy_def wf_model_def
      ModelAccessPolicy_DeepCopyInto_id ModelSelectionPolicy_DeepCopyInto_id)

section \<open>Adapter selection\<close>

text \<open>
  C21. Given non-nil models with distinct ids, the semantic selector never panics, and it
  selects a model exactly when the prompt is not empty, the model is an offered LoRA adapter of
  the requested base model with a description, and the sidecar answered with its id and a score
  that is not below the threshold; every failure of the sidecar is no match.
\<close>

theorem semantic_selects_exactly:
  assumes "distinct (map m_Id ms)"
  shows "\<exists>p b. Semantic_Pick L H s ir (map Some ms) = Some (p, b) \<and>
     (b \<longleftrightarrow> p \<noteq> None) \<and>
     (\<forall>m. p = Some m \<longleftrightarrow>
        PromptText ir \<noteq> [] \<and> m \<in> set ms \<and> m_Type m = ModelTypeLora
        \<and> m_BaseModelId m = ir_ModelID ir \<and> elems (sp_Descriptions (m_SelectionPolicy m)) \<noteq> []
        \<and> (\<exists>r. sidecar_answer L H s (pick_body (PromptText ir)
                (map candidate_of (filter (eligible (ir_ModelID ir)) ms))) = Some r
            \<and> \<not> pr_Score r < sel_threshold s \<and> pr_ModelID r = m_Id m))"
proof -
  obtain p b where r: "Semantic_Pick L H s ir (map Some ms) = Some (p, b)"
    and pb: "b \<longleftrightarrow> p \<noteq> None"
    using Semantic_Pick_shape by blast
  show ?thesis
  proof (intro exI conjI allI)
    show "Semantic_Pick L H s ir (map Some ms) = Some (p, b)" by (rule r)
    show "b \<longleftrightarrow> p \<noteq> None" by (rule pb)
    fix m
    show "p = Some m \<longleftrightarrow>
        PromptText ir \<noteq> [] \<and> m \<in> set ms \<and> m_Type m = ModelTypeLora
        \<and> m_BaseModelId m = ir_ModelID ir \<and> elems (sp_Descriptions (m_SelectionPolicy m)) \<noteq> []
        \<and> (\<exists>r. sidecar_answer L H s (pick_body (PromptText ir)
                (map candidate_of (filter (eligible (ir_ModelID ir)) ms))) = Some r
            \<and> \<not> pr_Score r < sel_threshold s \<and> pr_ModelID r = m_Id m)"
      using Semantic_Pick_iff [OF assms, of L H s ir m] r pb by (auto simp: eligible_def)
  qed
qed

lemma semantic_selects_exactly_witness:
  "\<exists>p b. Semantic_Pick demo_lib demo_http demo_selector demo_ir [Some medlora] = Some (p, b) \<and> (b \<longleftrightarrow> p \<noteq> None)"
  using semantic_selects_exactly [of "[medlora]" demo_lib demo_http demo_selector demo_ir] by auto

text \<open>
  C31. The default configuration with a semantic selector, any url and the threshold NaN validates,
  and the selector it gives has no threshold: it selects an offered adapter of the requested base
  model as soon as the sidecar answers with its id, whatever the score is.
\<close>

theorem nan_threshold_turned_off:
  assumes "parse_float_documented (ParseFloat L)" and "url \<noteq> []" and "distinct (map m_Id ms)"
  shows "(let sel = \<lparr>as_ComponentConfig = \<lparr>cc_Type = ''semantic'',
             cc_Parameters = GoMap [(''url'', url), (''similarityThreshold'', ''NaN'')]\<rparr>, as_AlwaysActive = always\<rparr>
     in Validate (ParseFloat L) isprint (DefaultConfig\<lparr>cfg_AdapterSelection := sel\<rparr>) = None
      \<and> (\<exists>S. NewAdapterSelectionFromConfig L isprint H sel = Inr (Some S)
           \<and> (\<forall>m. Pick S ir (map Some ms) = Some (Some m, True) \<longleftrightarrow>
                PromptText ir \<noteq> [] \<and> m \<in> set ms \<and> eligible (ir_ModelID ir) m
                \<and> (\<exists>r. sidecar_answer L H \<lparr>sel_url = url, sel_threshold = F_NaN\<rparr> (pick_body (PromptText ir)
                        (map candidate_of (filter (eligible (ir_ModelID ir)) ms))) = Some r
                    \<and> pr_ModelID r = m_Id m))))"
proof -
  have nan: "ParseFloat L ''NaN'' = Inr F_NaN" using assms(1) by (simp add: parse_float_documented_def)
  let ?sel = "\<lparr>as_ComponentConfig = \<lparr>cc_Type = ''semantic'',
    cc_Parameters = GoMap [(''url'', url), (''similarityThreshold'', ''NaN'')]\<rparr>, as_AlwaysActive = always\<rparr>"
  have p: "param (as_ComponentConfig ?sel) ''url'' = url" "param (as_ComponentConfig ?sel) ''similarityThreshold'' = ''NaN''"
    by (simp_all add: param_def gget_def glookup_def)
  have "Validate (ParseFloat L) isprint (DefaultConfig\<lparr>cfg_AdapterSelection := ?sel\<rparr>) = None"
    using p assms(2) by (simp add: Validate_None_iff DefaultConfig_def nan is_ok_def) (simp add: param_def gget_def glookup_def)
  moreover have "NewAdapterSelectionFromConfig L isprint H ?sel
      = Inr (Some (Semantic_Selector L H \<lparr>sel_url = url, sel_threshold = F_NaN\<rparr>))"
    using p assms(2) by (simp add: NewAdapterSelectionFromConfig_def semantic_New_def glookup_def nan)
  ultimately show ?thesis
    unfolding Let_def by (simp add: Semantic_Selector_def Semantic_Pick_iff [OF assms(3)])
qed

lemma nan_threshold_turned_off_witness:
  "\<exists>S. NewAdapterSelectionFromConfig demo_lib (\<lambda>_. True) demo_http
       \<lparr>as_ComponentConfig = \<lparr>cc_Type = ''semantic'', cc_Parameters =
          GoMap [(''url'', sel_url demo_selector), (''similarityThreshold'', ''NaN'')]\<rparr>, as_AlwaysActive = True\<rparr>
       = Inr (Some S)
     \<and> Pick S demo_ir (map Some [medlora]) = Some (Some medlora, True)"
proof -
  have "distinct (map m_Id [medlora])" by simp
  from demo_pick [unfolded Semantic_Pick_iff [OF this]] obtain r where
      here: "PromptText demo_ir \<noteq> []" "medlora \<in> set [medlora]" "eligible (ir_ModelID demo_ir) medlora"
      "pr_ModelID r = m_Id medlora"
    and ans: "sidecar_answer demo_lib demo_http demo_selector (pick_body (PromptText demo_ir)
        (map candidate_of (filter (eligible (ir_ModelID demo_ir)) [medlora]))) = Some r" by blast
  from ans have "sidecar_answer demo_lib demo_http \<lparr>sel_url = sel_url demo_selector, sel_threshold = F_NaN\<rparr>
      (pick_body (PromptText demo_ir) (map candidate_of (filter (eligible (ir_ModelID demo_ir)) [medlora]))) = Some r"
    unfolding sidecar_answer_def SemanticSelector.select_convs .
  moreover have "sel_url demo_selector \<noteq> []" by (simp add: demo_selector_def)
  from nan_threshold_turned_off [OF demo_lib_documented this \<open>distinct (map m_Id [medlora])\<close>,
      of True "\<lambda>_. True" demo_http demo_ir]
  obtain S where "NewAdapterSelectionFromConfig demo_lib (\<lambda>_. True) demo_http
       \<lparr>as_ComponentConfig = \<lparr>cc_Type = ''semantic'', cc_Parameters =
          GoMap [(''url'', sel_url demo_selector), (''similarityThreshold'', ''NaN'')]\<rparr>, as_AlwaysActive = True\<rparr>
       = Inr (Some S)"
    "\<forall>m. Pick S demo_ir (map Some [medlora]) = Some (Some m, True) \<longleftrightarrow>
        PromptText demo_ir \<noteq> [] \<and> m \<in> set [medlora] \<and> eligible (ir_ModelID demo_ir) m
        \<and> (\<exists>r. sidecar_answer demo_lib demo_http \<lparr>sel_url = sel_url demo_selector, sel_threshold = F_NaN\<rparr>
              (pick_body (PromptText demo_ir) (map candidate_of (filter (eligible (ir_ModelID demo_ir)) [medlora]))) = Some r
            \<and> pr_ModelID r = m_Id m)"
    unfolding Let_def by blast
  ultimately show ?thesis using here by blast
qed

section \<open>Configuration and start\<close>

text \<open>
  C28. A configuration that validates starts a server, provided that the authenticator's type is
  written out, that a similarity threshold is not given as the empty text, that the key file
  holds an RSA key and that the policy library and the manager do their part.
\<close>

theorem validated_configuration_starts:
  assumes "load V configPath = Inr cfg"
    and "Validate (ParseFloat (env_golib V)) (env_isprint V) cfg = None"
    and "cc_Type (cfg_Auth cfg) = ''jwt''"
    and "glookup (cc_Parameters (as_ComponentConfig (cfg_AdapterSelection cfg))) ''similarityThreshold'' \<noteq> Some []"
    and "LoadPublicKey V (param (cfg_Auth cfg) ''publicKeyPath'') = Inr k"
    and "NewOPAEngine (env_prepare V) = Inr e"
    and "first_error [mgr_New V, mgr_SetupUser V, mgr_SetupModel V] = None"
    and "first_error [mgr_AddServer V, mgr_AddHealthz V, mgr_AddReadyz V] = None"
  shows "\<exists>srv. startup V configPath = Inr (srv, New)"
  using startup_validated [OF assms] .

lemma validated_configuration_starts_witness: "\<exists>srv. startup demo_env ''/etc/secure-inference/config.yaml'' = Inr (srv, New)"
proof (rule validated_configuration_starts [OF demo_load])
  show "Validate (ParseFloat (env_golib demo_env)) (env_isprint demo_env) demo_cfg = None"
    by (simp add: Validate_None_iff demo_cfg_def DefaultConfig_def param_def gget_def glookup_def
        Let_def demo_lib_def)
  show "LoadPublicKey demo_env (param (cfg_Auth demo_cfg) ''publicKeyPath'') = Inr 1"
    by (simp add: demo_cfg_key demo_key)
  show "NewOPAEngine (env_prepare demo_env) = Inr rego_engine" by (simp add: rego_engine_made)
qed (simp_all add: demo_cfg_def DefaultConfig_def glookup_def first_error_def)

text \<open>
  C30. Validation does not cover the empty threshold: a configuration that gives one for the
  semantic selector validates, but no process starts with it.
\<close>

theorem empty_threshold_validates_but_never_starts:
  assumes "parse_float_documented (ParseFloat (env_golib V))" and "load V configPath = Inr cfg"
    and "cfg = DefaultConfig\<lparr>cfg_AdapterSelection := \<lparr>as_ComponentConfig = \<lparr>cc_Type = ''semantic'',
        cc_Parameters = GoMap [(''url'', u), (''similarityThreshold'', [])]\<rparr>, as_AlwaysActive = b\<rparr>\<rparr>"
    and "u \<noteq> []"
  shows "Validate (ParseFloat (env_golib V)) (env_isprint V) cfg = None
     \<and> (\<exists>err. startup V configPath = Inl err)"
proof
  show "Validate (ParseFloat (env_golib V)) (env_isprint V) cfg = None"
    using assms(3,4)
    by (simp add: Validate_None_iff DefaultConfig_def param_def gget_def glookup_def Let_def)
  show "\<exists>err. startup V configPath = Inl err"
  proof (rule ccontr)
    assume "\<not> (\<exists>err. startup V configPath = Inl err)"
    then obtain srv s0 where "startup V configPath = Inr (srv, s0)"
      by (cases "startup V configPath") auto
    from startup_server [OF this] assms(2) obtain sel where
        "NewAdapterSelectionFromConfig (env_golib V) (env_isprint V) (env_http V)
          (cfg_AdapterSelection cfg) = Inr sel" by auto
    with assms(1,3,4) show False
      by (simp add: NewAdapterSelectionFromConfig_def semantic_New_def param_def gget_def glookup_def
          Let_def parse_float_documented_def split: sum.splits)
  qed
qed

definition bad_cfg :: SecureInferenceConfig where
  "bad_cfg = DefaultConfig\<lparr>cfg_AdapterSelection := \<lparr>as_ComponentConfig = \<lparr>cc_Type = ''semantic'',
     cc_Parameters = GoMap [(''url'', ''u''), (''similarityThreshold'', [])]\<rparr>, as_AlwaysActive = False\<rparr>\<rparr>"

lemma empty_threshold_validates_but_never_starts_witness:
  "\<exists>err. startup (demo_env\<lparr>env_yaml := (\<lambda>_ _. Inr bad_cfg)\<rparr>) ''/etc/secure-inference/config.yaml'' = Inl err"
proof -
  let ?V = "demo_env\<lparr>env_yaml := (\<lambda>_ _. Inr bad_cfg)\<rparr>"
  have "load ?V ''/etc/secure-inference/config.yaml'' = Inr bad_cfg" by (simp add: load_def LoadConfig_def demo_crypto_def)
  from empty_threshold_validates_but_never_starts [OF _ this bad_cfg_def] show ?thesis
    by (simp add: demo_lib_documented)
qed

section \<open>Reconciliation\<close>

text \<open>
  A reconciliation of a user that is not being deleted and that returns no error leaves the
  user's spec in the store under its id, its resource in the cluster with the finalizer and the
  same spec, the models alone, and the process ready.
\<close>

lemma user_reconcile_syncs:
  assumes "cluster_conforms c" and "mem_good s"
    and "cl_uobjs c k n = Some x" and "GetDeletionTimestamp (cl_users c) x = None"
    and "User_Reconcile (cl_users c) (Memory uord mord) n (k, s, b) = Some (None, (k', s', b'))"
  shows "users_of s' = (users_of s)(u_Id (usr_Spec x) \<mapsto> usr_Spec x) \<and> models_of s' = models_of s
     \<and> (\<exists>x'. cl_uobjs c k' n = Some x' \<and> usr_Spec x' = usr_Spec x
           \<and> ContainsFinalizer (cl_users c) x' userFinalizer)
     \<and> readyz (k', s', b') = None"
  using user_reconcile_result [OF assms(1,2,5)] assms(3,4)
  by (auto simp: readyz_def)

text \<open>
  A reconciliation of a model that is being deleted and carries the finalizer removes the
  model from the store before the finalizer is released: whatever it returns, the id is gone
  from the store, and without an error so is the finalizer.
\<close>

theorem model_reconcile_cleans_up:
  assumes "cluster_conforms c" and "mem_good s"
    and "kube_Get (cl_models c) k n = Inr x"
    and "GetDeletionTimestamp (cl_models c) x \<noteq> None"
    and "ContainsFinalizer (cl_models c) x modelFinalizer"
    and "Model_Reconcile (cl_models c) (Memory uord mord) n (k, s, b) = Some (e, (k', s', b'))"
  shows "models_of s' = (models_of s)(m_Id (mod_Spec x) := None) \<and> users_of s' = users_of s
     \<and> (e = None \<longrightarrow> (case cl_mobjs c k' n of None \<Rightarrow> True
          | Some x' \<Rightarrow> \<not> ContainsFinalizer (cl_models c) x' modelFinalizer))"
  using model_reconcile_result [OF assms] by simp

lemma model_reconcile_cleans_up_witness:
  "models_of (demo_store\<lparr>mem_models := gdelete ''med'' (mem_models demo_store)\<rparr>) ''med'' = None"
proof -
  have "kube_Get demo_models_kube (with_med [modelFinalizer] (Some 1)) ''med-cr''
      = Inr (med_cr [modelFinalizer] (Some 1))"
    by (simp add: demo_kube_defs)
  moreover have "GetDeletionTimestamp demo_models_kube (med_cr [modelFinalizer] (Some 1)) \<noteq> None"
      "ContainsFinalizer demo_models_kube (med_cr [modelFinalizer] (Some 1)) modelFinalizer"
    by (simp_all add: demo_kube_defs)
  ultimately show ?thesis
    using model_reconcile_cleans_up [OF demo_cluster_conforms demo_store_good, of _ _ _ id id True None
        "(Map.empty, Map.empty)" "demo_store\<lparr>mem_models := gdelete ''med'' (mem_models demo_store)\<rparr>" True]
      demo_model_cleanup_run [of demo_store True]
    by (auto simp: med_cr_def)
qed

text \<open>
  When the id of a resource is changed, the user stays in the store under the old id as
  well: reconciling the resource, now with the id \<open>alice\<close>, next to the entry it made before
  under \<open>bob\<close>, leaves both.
\<close>

lemma changed_id_keeps_old_user:
  "\<exists>k1 s1. User_Reconcile demo_users_kube (Memory id id) ''alice-cr''
       (with_alice [userFinalizer] None,
        \<lparr>mem_users = GoMap [(''bob'', Some bob)], mem_models = GoMap []\<rparr>, True) = Some (None, (k1, s1, True))
     \<and> users_of s1 ''bob'' = Some bob \<and> users_of s1 ''alice'' = Some alice
     \<and> cl_uobjs demo_kube k1 = [''alice-cr'' \<mapsto> alice_cr [userFinalizer] None]
     \<and> u_Id (usr_Spec (alice_cr [userFinalizer] None)) = ''alice''"
proof -
  let ?s = "\<lparr>mem_users = GoMap [(''bob'', Some bob), (''alice'', Some alice)], mem_models = GoMap []\<rparr>"
  have "User_Reconcile demo_users_kube (Memory id id) ''alice-cr''
       (with_alice [userFinalizer] None,
        \<lparr>mem_users = GoMap [(''bob'', Some bob)], mem_models = GoMap []\<rparr>, True)
      = Some (None, (with_alice [userFinalizer] None, ?s, True))"
    by (simp add: User_Reconcile_memory reconcile_def demo_kube_defs Memory_SyncUser_def good_user_wf)
  moreover have "users_of ?s ''bob'' = Some bob" "users_of ?s ''alice'' = Some alice"
    by (simp_all add: users_of_def ptr_abs_def glookup_def)
  moreover have "cl_uobjs demo_kube (with_alice [userFinalizer] None)
      = [''alice-cr'' \<mapsto> alice_cr [userFinalizer] None]"
    by (auto simp: demo_kube_def demo_kube_defs)
  moreover have "u_Id (usr_Spec (alice_cr [userFinalizer] None)) = ''alice''"
    by (simp add: alice_cr_def)
  ultimately show ?thesis by blast
qed

end
