(* ===== verification/GoOs.thy ===== *)
theory GoOs
  imports Prelude
begin

text \<open>
  The file operations of package \<open>os\<close>. The disk is the operating system's: the operations are
  arguments over a state \<open>'d\<close>, and \<open>disk_conforms\<close> states what they document.
\<close>

record 'd os =
  os_ReadFile :: "'d \<Rightarrow> string \<Rightarrow> string result"
  os_WriteFile :: "'d \<Rightarrow> string \<Rightarrow> string \<Rightarrow> nat \<Rightarrow> goerror option \<times> 'd"
  os_MkdirAll :: "'d \<Rightarrow> string \<Rightarrow> nat \<Rightarrow> goerror option \<times> 'd"

text \<open>
  A disk on which the paths of \<open>P\<close> are distinct files: a write that succeeds is read back and
  leaves the other files alone, and making a directory leaves all files alone.
\<close>

definition disk_conforms :: "'d os \<Rightarrow> string set \<Rightarrow> bool" where
  "disk_conforms D P \<longleftrightarrow>
     (\<forall>d p data perm d'. os_WriteFile D d p data perm = (None, d') \<longrightarrow> p \<in> P \<longrightarrow>
        os_ReadFile D d' p = Inr data \<and> (\<forall>q \<in> P. q \<noteq> p \<longrightarrow> os_ReadFile D d' q = os_ReadFile D d q))
     \<and> (\<forall>d dir perm d'. os_MkdirAll D d dir perm = (None, d') \<longrightarrow> (\<forall>q \<in> P. os_ReadFile D d' q = os_ReadFile D d q))"

lemma disk_conforms_Write:
  assumes "disk_conforms D P" and "os_WriteFile D d p data perm = (None, d')" and "p \<in> P"
  shows "os_ReadFile D d' p = Inr data" and "q \<in> P \<Longrightarrow> q \<noteq> p \<Longrightarrow> os_ReadFile D d' q = os_ReadFile D d q"
  using assms unfolding disk_conforms_def by blast+

lemma disk_conforms_Mkdir:
  "disk_conforms D P \<Longrightarrow> os_MkdirAll D d dir perm = (None, d') \<Longrightarrow> q \<in> P \<Longrightarrow>
     os_ReadFile D d' q = os_ReadFile D d q"
  unfolding disk_conforms_def by blast

text \<open>What a command prints to its two outputs, its exit code, and the disk it leaves.\<close>

record 'd cli_run =
  cli_stdout :: "string list"
  cli_stderr :: "string list"
  cli_exit :: nat
  cli_disk :: 'd

text \<open>Files in memory, each path a file of its own.\<close>

definition map_os :: "(string \<rightharpoonup> string) os" where
  "map_os =
     \<lparr>os_ReadFile = (\<lambda>d p. case d p of None \<Rightarrow> Inl (Errorf (''open '' @ p @ '': no such file or directory''))
                            | Some data \<Rightarrow> Inr data),
      os_WriteFile = (\<lambda>d p data perm. (None, d(p \<mapsto> data))),
      os_MkdirAll = (\<lambda>d dir perm. (None, d))\<rparr>"

lemma map_os_conforms: "disk_conforms map_os P"
  by (auto simp: disk_conforms_def map_os_def)

end
