(* ===== verification/Admin.thy ===== *)
theory Admin
  imports Auth GoOs
begin

unbundle bit_operations_syntax

text \<open>
  \<open>pkg/admin\<close>: the certificates and the tokens that the server's authenticator trusts. The
  operations read and write a disk, the state \<open>'d\<close>; the disk, the clock, the key generator and
  the cryptographic libraries are arguments (\<open>admin_lib\<close>), \<open>AdminLaws\<close> states what they
  document. \<open>'p\<close> are private keys, \<open>'k\<close> public ones.
\<close>

section \<open>The surroundings\<close>

record ('k, 'p, 'd) admin_lib = "'k crypto" +
  rsa_GenerateKey :: "'p result"
  rsa_Public :: "'p \<Rightarrow> 'k"
  Now :: "nat \<Rightarrow> int"
  AddDate :: "int \<Rightarrow> nat \<Rightarrow> nat \<Rightarrow> nat \<Rightarrow> int"
  Int63 :: "int \<Rightarrow> int"
  x509_CreateCertificate :: "'k Certificate \<Rightarrow> 'k Certificate \<Rightarrow> 'k \<Rightarrow> 'p \<Rightarrow> string result"
  MarshalPKCS1PrivateKey :: "'p \<Rightarrow> string"
  ParsePKCS1PrivateKey :: "string \<Rightarrow> 'p result"
  pem_Encode :: "string \<times> string \<Rightarrow> string result"
  ad_os :: "'d os"
  NewNumericDate :: "int \<Rightarrow> int"
  SignedString :: "signing_method \<Rightarrow> UserClaims \<Rightarrow> 'p \<Rightarrow> string result"

text \<open>The libraries of the authenticator, reading the disk as it is.\<close>

definition on_disk :: "('k, 'p, 'd) admin_lib \<Rightarrow> 'd \<Rightarrow> ('k, 'p, 'd) admin_lib" where
  "on_disk A d = A\<lparr>ReadFile := os_ReadFile (ad_os A) d\<rparr>"

section \<open>Certificates\<close>

record CertificateConfig =
  cf_Name :: string
  cf_IsCA :: bool
  cf_IsServer :: bool
  cf_IsClient :: bool
  cf_DNSNames :: "string slice"
  cf_CAPath :: string
  cf_CAKeyPath :: string
  cf_CertOutPath :: string
  cf_PrivateKeyOutPath :: string

definition KeyUsageCertSign :: nat where "KeyUsageCertSign = 32"
definition KeyUsageCRLSign :: nat where "KeyUsageCRLSign = 64"

text \<open>
  The certificate to be signed. The clock is read three times: for the seed of the serial
  number, and for the two ends of the validity.
\<close>

definition certificate_template :: "('k, 'p, 'd) admin_lib \<Rightarrow> CertificateConfig \<Rightarrow> 'k Certificate" where
  "certificate_template A cfg =
     (let cert = \<lparr>ct_Raw = [], ct_PublicKey = OtherPublicKey, ct_SerialNumber = Int63 A (Now A 0),
            ct_CommonName = cf_Name cfg, ct_NotBefore = Now A 1, ct_NotAfter = AddDate A (Now A 2) 10 0 0,
            ct_IsCA = cf_IsCA cfg, ct_BasicConstraintsValid = False, ct_PermittedDNSDomains = NilSlice,
            ct_DNSNames = NilSlice, ct_KeyUsage = 0, ct_ExtKeyUsage = []\<rparr>;
          cert = (if cf_IsCA cfg
                  then cert\<lparr>ct_BasicConstraintsValid := True, ct_PermittedDNSDomains := cf_DNSNames cfg,
                            ct_KeyUsage := KeyUsageCertSign OR KeyUsageCRLSign\<rparr>
                  else cert\<lparr>ct_DNSNames := cf_DNSNames cfg\<rparr>);
          cert = (if cf_IsServer cfg
                  then cert\<lparr>ct_ExtKeyUsage := ct_ExtKeyUsage cert @ [ExtKeyUsageServerAuth]\<rparr> else cert)
      in if cf_IsClient cfg
         then cert\<lparr>ct_ExtKeyUsage := ct_ExtKeyUsage cert @ [ExtKeyUsageClientAuth]\<rparr> else cert)"

text \<open>The signing certificate and its key, from their files.\<close>

definition load_ca ::
    "('k, 'p, 'd) admin_lib \<Rightarrow> CertificateConfig \<Rightarrow> 'd \<Rightarrow> ('k Certificate \<times> 'p) result" where
  "load_ca A cfg d =
     (case os_ReadFile (ad_os A) d (cf_CAPath cfg) of
        Inl err \<Rightarrow> Inl err
      | Inr rawCA \<Rightarrow>
     (case pem_Decode A rawCA of
        None \<Rightarrow> Inl (Errorf ''CA certificate file is not in PEM format'')
      | Some (_, bytes) \<Rightarrow>
     (case ParseCertificate A bytes of
        Inl err \<Rightarrow> Inl err
      | Inr ca \<Rightarrow>
     (case os_ReadFile (ad_os A) d (cf_CAKeyPath cfg) of
        Inl err \<Rightarrow> Inl err
      | Inr rawCAKey \<Rightarrow>
     (case pem_Decode A rawCAKey of
        None \<Rightarrow> Inl (Errorf ''CA key file is not in PEM format'')
      | Some (_, bytes) \<Rightarrow>
     (case ParsePKCS1PrivateKey A bytes of
        Inl err \<Rightarrow> Inl err
      | Inr caKey \<Rightarrow> Inr (ca, caKey)))))))"

text \<open>
  The part of \<open>CreateCertificate\<close> before it writes: the contents of the key file and of the
  certificate file. Without a CA the certificate signs itself; \<open>ca != cert\<close> compares pointers,
  so the second block is appended exactly when a CA was loaded.
\<close>

definition certificate_files ::
    "('k, 'p, 'd) admin_lib \<Rightarrow> CertificateConfig \<Rightarrow> 'd \<Rightarrow> (string \<times> string) result" where
  "certificate_files A cfg d =
     (case rsa_GenerateKey A of
        Inl err \<Rightarrow> Inl err
      | Inr key \<Rightarrow>
     (let cert = certificate_template A cfg in
      case (if cf_CAPath cfg \<noteq> [] then load_ca A cfg d else Inr (cert, key)) of
        Inl err \<Rightarrow> Inl err
      | Inr (ca, caKey) \<Rightarrow>
     (case x509_CreateCertificate A cert ca (rsa_Public A key) caKey of
        Inl err \<Rightarrow> Inl err
      | Inr certBytes \<Rightarrow>
     (case pem_Encode A (''RSA PRIVATE KEY'', MarshalPKCS1PrivateKey A key) of
        Inl err \<Rightarrow> Inl err
      | Inr keyPEM \<Rightarrow>
     (case pem_Encode A (''CERTIFICATE'', certBytes) of
        Inl err \<Rightarrow> Inl err
      | Inr certPEM \<Rightarrow>
          if cf_CAPath cfg \<noteq> [] then
            (case pem_Encode A (''CERTIFICATE'', ct_Raw ca) of
               Inl err \<Rightarrow> Inl err
             | Inr caPEM \<Rightarrow> Inr (keyPEM, certPEM @ caPEM))
          else Inr (keyPEM, certPEM))))))"

definition CreateCertificate ::
    "('k, 'p, 'd) admin_lib \<Rightarrow> CertificateConfig \<Rightarrow> 'd \<Rightarrow> goerror option \<times> 'd" where
  "CreateCertificate A cfg d =
     (case certificate_files A cfg d of
        Inl err \<Rightarrow> (Some err, d)
      | Inr (keyPEM, certPEM) \<Rightarrow>
          (case os_WriteFile (ad_os A) d (cf_PrivateKeyOutPath cfg) keyPEM 0x180 of
             (Some err, d1) \<Rightarrow> (Some err, d1)
           | (None, d1) \<Rightarrow>
               (case os_WriteFile (ad_os A) d1 (cf_CertOutPath cfg) certPEM 0x180 of
                  (Some err, d2) \<Rightarrow> (Some err, d2)
                | (None, d2) \<Rightarrow> (None, d2))))"

definition admin_config :: CertificateConfig where
  "admin_config = \<lparr>cf_Name = ServerName, cf_IsCA = True, cf_IsServer = False, cf_IsClient = False,
     cf_DNSNames = NilSlice, cf_CAPath = [], cf_CAKeyPath = [],
     cf_CertOutPath = LlmDCAFile, cf_PrivateKeyOutPath = LlmDKeyFile\<rparr>"

definition tls_config :: "string slice \<Rightarrow> CertificateConfig" where
  "tls_config dnsNames = \<lparr>cf_Name = ''llm-d-gateway'', cf_IsCA = False, cf_IsServer = True,
     cf_IsClient = False, cf_DNSNames = dnsNames, cf_CAPath = LlmDCAFile, cf_CAKeyPath = LlmDKeyFile,
     cf_CertOutPath = CertsDirectory @ ''/tls-cert.pem'',
     cf_PrivateKeyOutPath = CertsDirectory @ ''/tls-key.pem''\<rparr>"

text \<open>\<open>CreateAdminCerts\<close> reports errors only on the standard output: the lines it prints.\<close>

definition CreateAdminCerts :: "('k, 'p, 'd) admin_lib \<Rightarrow> 'd \<Rightarrow> string list \<times> 'd" where
  "CreateAdminCerts A d =
     (let out = [''Creating LLM-D Admin CA Cert.''] in
      case os_MkdirAll (ad_os A) d BaseDirectory 0x1ED of
        (Some err, d1) \<Rightarrow> (out @ [''Unable to create directory :'' @ Error err], d1)
      | (None, d1) \<Rightarrow>
          (case CreateCertificate A admin_config d1 of
             (Some err, d2) \<Rightarrow> (out @ [''Unable to generate CA certificate :'' @ Error err], d2)
           | (None, d2) \<Rightarrow> (out, d2)))"

definition GenerateTLSCert ::
    "('k, 'p, 'd) admin_lib \<Rightarrow> string slice \<Rightarrow> 'd \<Rightarrow> goerror option \<times> 'd" where
  "GenerateTLSCert A dnsNames d =
     (case os_MkdirAll (ad_os A) d BaseDirectory 0x1ED of
        (Some err, d1) \<Rightarrow> (Some (Wrap ''unable to create directory: '' err), d1)
      | (None, d1) \<Rightarrow> CreateCertificate A (tls_config dnsNames) d1)"

section \<open>Tokens\<close>

definition LoadPrivateKey :: "('k, 'p, 'd) admin_lib \<Rightarrow> 'd \<Rightarrow> string \<Rightarrow> 'p result" where
  "LoadPrivateKey A d filePath =
     (case os_ReadFile (ad_os A) d filePath of
        Inl err \<Rightarrow> Inl (Wrap ''failed to read private key file: '' err)
      | Inr keyData \<Rightarrow>
          (case pem_Decode A keyData of
             None \<Rightarrow> Inl (Errorf ''invalid PEM block or not an RSA private key'')
           | Some (ty, bytes) \<Rightarrow>
               if ty \<noteq> ''RSA PRIVATE KEY''
               then Inl (Errorf ''invalid PEM block or not an RSA private key'')
               else (case ParsePKCS1PrivateKey A bytes of
                       Inl err \<Rightarrow> Inl (Wrap ''failed to parse RSA private key: '' err)
                     | Inr privateKey \<Rightarrow> Inr privateKey)))"

definition Hour :: int where "Hour = 3600 * 10 ^ 9"

definition token_claims_of :: "('k, 'p, 'd) admin_lib \<Rightarrow> string \<Rightarrow> string \<Rightarrow> string \<Rightarrow> UserClaims" where
  "token_claims_of A username role organization =
     \<lparr>uc_Username = username, uc_Role = role, uc_Organization = organization,
      uc_RegisteredClaims = \<lparr>rc_Issuer = ServerName, rc_Subject = username,
        rc_ExpiresAt = Some (NewNumericDate A (Now A 0 + 24 * Hour)), rc_NotBefore = None,
        rc_IssuedAt = Some (NewNumericDate A (Now A 1))\<rparr>\<rparr>"

definition GenerateJWT ::
    "('k, 'p, 'd) admin_lib \<Rightarrow> 'd \<Rightarrow> string \<Rightarrow> string \<Rightarrow> string \<Rightarrow> string \<Rightarrow> string result" where
  "GenerateJWT A d username role organization privateKeyFile =
     (case LoadPrivateKey A d privateKeyFile of
        Inl err \<Rightarrow> Inl err
      | Inr privateKey \<Rightarrow>
          (case SignedString A (SigningMethodRSA ''RS256'')
                  (token_claims_of A username role organization) privateKey of
             Inl err \<Rightarrow> Inl (Wrap ''failed to sign token: '' err)
           | Inr tokenString \<Rightarrow> Inr tokenString))"

end
