(* ===== verification/AdminLaws.thy ===== *)
theory AdminLaws
  imports Admin
begin

text \<open>
  What the libraries of the admin tool document, and what follows for its certificates and
  tokens: the files it writes hold a matching pair of keys, the token it signs with the private
  key is one the authenticator accepts with the public one, for a day.
\<close>

section \<open>What the libraries document\<close>

text \<open>
  PEM: decoding finds the first block and its contents. PKCS 1: parsing inverts marshalling. A
  certificate that was created parses, with the given public key, the names of its template, and
  its own encoding; \<open>signed b k\<close> says that the signature of the certificate \<open>b\<close> verifies with \<open>k\<close>.
\<close>

definition x509_conforms :: "(string \<Rightarrow> 'k \<Rightarrow> bool) \<Rightarrow> ('k, 'p, 'd) admin_lib \<Rightarrow> bool" where
  "x509_conforms signed A \<longleftrightarrow>
     (\<forall>b t rest. pem_Encode A b = Inr t \<longrightarrow> pem_Decode A (t @ rest) = Some b)
     \<and> (\<forall>p. ParsePKCS1PrivateKey A (MarshalPKCS1PrivateKey A p) = Inr p)
     \<and> (\<forall>template parent k p b. x509_CreateCertificate A template parent k p = Inr b \<longrightarrow>
          signed b (rsa_Public A p)
          \<and> (\<exists>c. ParseCertificate A b = Inr c \<and> ct_Raw c = b \<and> ct_PublicKey c = RSAPublicKey k
               \<and> ct_CommonName c = ct_CommonName template
               \<and> elems (ct_DNSNames c) = elems (ct_DNSNames template)
               \<and> ct_ExtKeyUsage c = ct_ExtKeyUsage template))
     \<and> (\<forall>b c. ParseCertificate A b = Inr c \<longrightarrow> ct_Raw c = b)"

text \<open>
  Tokens: a time is rounded down to a second. A signed token is a word of ASCII characters that
  decodes, with claims that are valid UTF-8 and have whole times, to the claims signed, and
  verifies with the public key.
\<close>

definition claims_utf8 :: "UserClaims \<Rightarrow> bool" where
  "claims_utf8 c \<longleftrightarrow> valid_utf8 (uc_Username c) \<and> valid_utf8 (uc_Role c) \<and> valid_utf8 (uc_Organization c)
     \<and> valid_utf8 (rc_Issuer (uc_RegisteredClaims c)) \<and> valid_utf8 (rc_Subject (uc_RegisteredClaims c))"

definition claim_times :: "UserClaims \<Rightarrow> int set" where
  "claim_times c = set_option (rc_ExpiresAt (uc_RegisteredClaims c))
     \<union> set_option (rc_NotBefore (uc_RegisteredClaims c)) \<union> set_option (rc_IssuedAt (uc_RegisteredClaims c))"

definition signing_conforms :: "'k jwt_facts \<Rightarrow> ('k, 'p, 'd) admin_lib \<Rightarrow> bool" where
  "signing_conforms F A \<longleftrightarrow>
     (\<forall>t. NewNumericDate A t \<le> t \<and> t - 10 ^ 9 < NewNumericDate A t
        \<and> NewNumericDate A (NewNumericDate A t) = NewNumericDate A t)
     \<and> (\<forall>m c p s. SignedString A m c p = Inr s \<longrightarrow> claims_utf8 c \<longrightarrow>
          (\<forall>t \<in> claim_times c. NewNumericDate A t = t) \<longrightarrow>
          word_ascii s \<and> jf_decode F s = Some (m, c) \<and> jf_verify F m (rsa_Public A p) s)"

text \<open>The times a token library checks at the moment \<open>now\<close>.\<close>

definition times_documented :: "'k jwt_facts \<Rightarrow> int \<Rightarrow> bool" where
  "times_documented F now \<longleftrightarrow>
     (\<forall>rc. jf_times_ok F rc \<longleftrightarrow>
        (case rc_ExpiresAt rc of None \<Rightarrow> True | Some t \<Rightarrow> now < t)
        \<and> (case rc_NotBefore rc of None \<Rightarrow> True | Some t \<Rightarrow> t \<le> now))"

section \<open>Certificates\<close>

lemma x509_conformsD:
  assumes "x509_conforms signed A"
  shows "pem_Encode A b = Inr t \<Longrightarrow> pem_Decode A (t @ rest) = Some b"
    and "pem_Encode A b = Inr t \<Longrightarrow> pem_Decode A t = Some b"
    and "ParsePKCS1PrivateKey A (MarshalPKCS1PrivateKey A p) = Inr p"
    and "ParseCertificate A raw = Inr c \<Longrightarrow> ct_Raw c = raw"
proof -
  have e: "\<forall>b t rest. pem_Encode A b = Inr t \<longrightarrow> pem_Decode A (t @ rest) = Some b"
    using assms by (simp add: x509_conforms_def)
  then show "pem_Encode A b = Inr t \<Longrightarrow> pem_Decode A (t @ rest) = Some b" by blast
  show "pem_Encode A b = Inr t \<Longrightarrow> pem_Decode A t = Some b"
    using e [rule_format, of b t "[]"] by simp
  show "ParsePKCS1PrivateKey A (MarshalPKCS1PrivateKey A p) = Inr p"
    using assms by (simp add: x509_conforms_def)
  show "ParseCertificate A raw = Inr c \<Longrightarrow> ct_Raw c = raw"
    using assms unfolding x509_conforms_def by blast
qed

lemma x509_created:
  assumes "x509_conforms signed A" and "x509_CreateCertificate A template parent k p = Inr b"
  obtains c where "signed b (rsa_Public A p)" "ParseCertificate A b = Inr c" "ct_PublicKey c = RSAPublicKey k"
    "ct_CommonName c = ct_CommonName template" "elems (ct_DNSNames c) = elems (ct_DNSNames template)"
    "ct_ExtKeyUsage c = ct_ExtKeyUsage template"
  using assms unfolding x509_conforms_def by blast

text \<open>What a run of \<open>CreateCertificate\<close> that returns no error has done.\<close>

lemma CreateCertificate_done:
  assumes "CreateCertificate A cfg d = (None, d2)"
  obtains keyPEM certPEM d1 where "certificate_files A cfg d = Inr (keyPEM, certPEM)"
    "os_WriteFile (ad_os A) d (cf_PrivateKeyOutPath cfg) keyPEM 0x180 = (None, d1)"
    "os_WriteFile (ad_os A) d1 (cf_CertOutPath cfg) certPEM 0x180 = (None, d2)"
  using assms by (auto simp: CreateCertificate_def split: sum.splits prod.splits option.splits)

lemma certificate_files_done:
  assumes "certificate_files A cfg d = Inr (keyPEM, certPEM)"
  obtains key ca caKey certBytes block where
    "rsa_GenerateKey A = Inr key"
    "(if cf_CAPath cfg \<noteq> [] then load_ca A cfg d else Inr (certificate_template A cfg, key)) = Inr (ca, caKey)"
    "x509_CreateCertificate A (certificate_template A cfg) ca (rsa_Public A key) caKey = Inr certBytes"
    "pem_Encode A (''RSA PRIVATE KEY'', MarshalPKCS1PrivateKey A key) = Inr keyPEM"
    "pem_Encode A (''CERTIFICATE'', certBytes) = Inr block"
    "if cf_CAPath cfg = [] then certPEM = block
     else (\<exists>caPEM. pem_Encode A (''CERTIFICATE'', ct_Raw ca) = Inr caPEM \<and> certPEM = block @ caPEM)"
  using assms
  by (auto simp: certificate_files_def Let_def split: sum.splits prod.splits if_splits)

text \<open>The contents of the first block of a file.\<close>

definition pem_file :: "('k, 'p, 'd) admin_lib \<Rightarrow> 'd \<Rightarrow> string \<Rightarrow> string \<Rightarrow> bool" where
  "pem_file A d path raw \<longleftrightarrow>
     (\<exists>text ty. os_ReadFile (ad_os A) d path = Inr text \<and> pem_Decode A text = Some (ty, raw))"

lemma load_ca_iff:
  "load_ca A cfg d = Inr (ca, caKey) \<longleftrightarrow>
     (\<exists>raw. pem_file A d (cf_CAPath cfg) raw \<and> ParseCertificate A raw = Inr ca)
     \<and> (\<exists>raw. pem_file A d (cf_CAKeyPath cfg) raw \<and> ParsePKCS1PrivateKey A raw = Inr caKey)"
  by (auto simp: load_ca_def pem_file_def split: sum.splits option.splits)

text \<open>The files hold a pair of keys, whoever signed the certificate.\<close>

lemma CreateCertificate_key_pair:
  assumes lib: "x509_conforms signed A" and disk: "disk_conforms (ad_os A) P"
    and paths: "cf_PrivateKeyOutPath cfg \<in> P" "cf_CertOutPath cfg \<in> P"
      "cf_PrivateKeyOutPath cfg \<noteq> cf_CertOutPath cfg"
    and run: "CreateCertificate A cfg d = (None, d2)"
  obtains key where "rsa_GenerateKey A = Inr key"
    "LoadPrivateKey A d2 (cf_PrivateKeyOutPath cfg) = Inr key"
    "LoadPublicKey (on_disk A d2) (cf_CertOutPath cfg) = Inr (rsa_Public A key)"
    "\<forall>q \<in> P. q \<noteq> cf_PrivateKeyOutPath cfg \<longrightarrow> q \<noteq> cf_CertOutPath cfg \<longrightarrow>
       os_ReadFile (ad_os A) d2 q = os_ReadFile (ad_os A) d q"
proof -
  from CreateCertificate_done [OF run] obtain keyPEM certPEM d1 where
      files: "certificate_files A cfg d = Inr (keyPEM, certPEM)"
      and w1: "os_WriteFile (ad_os A) d (cf_PrivateKeyOutPath cfg) keyPEM 0x180 = (None, d1)"
      and w2: "os_WriteFile (ad_os A) d1 (cf_CertOutPath cfg) certPEM 0x180 = (None, d2)" .
  from certificate_files_done [OF files] obtain key ca caKey certBytes block where
      key: "rsa_GenerateKey A = Inr key"
      and create: "x509_CreateCertificate A (certificate_template A cfg) ca (rsa_Public A key) caKey = Inr certBytes"
      and kp: "pem_Encode A (''RSA PRIVATE KEY'', MarshalPKCS1PrivateKey A key) = Inr keyPEM"
      and cp: "pem_Encode A (''CERTIFICATE'', certBytes) = Inr block"
      and rest: "if cf_CAPath cfg = [] then certPEM = block
        else (\<exists>caPEM. pem_Encode A (''CERTIFICATE'', ct_Raw ca) = Inr caPEM \<and> certPEM = block @ caPEM)" .
  have rk: "os_ReadFile (ad_os A) d2 (cf_PrivateKeyOutPath cfg) = Inr keyPEM"
    using disk_conforms_Write [OF disk w1] disk_conforms_Write(2) [OF disk w2] paths by metis
  have rc: "os_ReadFile (ad_os A) d2 (cf_CertOutPath cfg) = Inr certPEM"
    using disk_conforms_Write(1) [OF disk w2] paths by simp
  have "pem_Decode A certPEM = Some (''CERTIFICATE'', certBytes)"
    using rest x509_conformsD(1,2) [OF lib cp] by (auto split: if_splits)
  moreover obtain c where "ParseCertificate A certBytes = Inr c" "ct_PublicKey c = RSAPublicKey (rsa_Public A key)"
    using x509_created [OF lib create] by blast
  ultimately have "LoadPublicKey (on_disk A d2) (cf_CertOutPath cfg) = Inr (rsa_Public A key)"
    by (simp add: LoadPublicKey_def on_disk_def rc)
  moreover have "LoadPrivateKey A d2 (cf_PrivateKeyOutPath cfg) = Inr key"
    by (simp add: LoadPrivateKey_def rk x509_conformsD(2) [OF lib kp] x509_conformsD(3) [OF lib])
  moreover have "os_ReadFile (ad_os A) d2 q = os_ReadFile (ad_os A) d q"
    if "q \<in> P" "q \<noteq> cf_PrivateKeyOutPath cfg" "q \<noteq> cf_CertOutPath cfg" for q
    using that disk_conforms_Write(2) [OF disk w1] disk_conforms_Write(2) [OF disk w2] paths by metis
  ultimately show ?thesis using that key by blast
qed

text \<open>When initializing reports no error, the admin's files hold one key pair.\<close>

lemma CreateAdminCerts_keys:
  assumes "x509_conforms signed A" and "disk_conforms (ad_os A) {LlmDCAFile, LlmDKeyFile}"
    and "CreateAdminCerts A d = ([''Creating LLM-D Admin CA Cert.''], d')"
  obtains p where "rsa_GenerateKey A = Inr p" "LoadPrivateKey A d' LlmDKeyFile = Inr p"
    "LoadPublicKey (on_disk A d') LlmDCAFile = Inr (rsa_Public A p)"
proof -
  from assms(3) obtain d1 where run: "CreateCertificate A admin_config d1 = (None, d')"
    by (auto simp: CreateAdminCerts_def Let_def split: prod.splits option.splits)
  have paths: "cf_PrivateKeyOutPath admin_config = LlmDKeyFile" "cf_CertOutPath admin_config = LlmDCAFile"
      "LlmDKeyFile \<noteq> LlmDCAFile"
    by (simp_all add: admin_config_def LlmDCAFile_def LlmDKeyFile_def CertsDirectory_def)
  from CreateCertificate_key_pair [OF assms(1,2) _ _ _ run] obtain p where "rsa_GenerateKey A = Inr p"
      "LoadPrivateKey A d' LlmDKeyFile = Inr p" "LoadPublicKey (on_disk A d') LlmDCAFile = Inr (rsa_Public A p)"
    unfolding paths(1,2) using paths(3) by auto
  then show ?thesis by (rule that)
qed

text \<open>With a CA, the certificate is signed by the CA's key and followed by the CA's certificate.\<close>

lemma CreateCertificate_chain:
  assumes lib: "x509_conforms signed A" and disk: "disk_conforms (ad_os A) P"
    and paths: "cf_CertOutPath cfg \<in> P" and ca: "cf_CAPath cfg \<noteq> []"
    and run: "CreateCertificate A cfg d = (None, d2)"
  obtains caCert caKey certBytes cert block caPEM where
    "load_ca A cfg d = Inr (caCert, caKey)"
    "os_ReadFile (ad_os A) d2 (cf_CertOutPath cfg) = Inr (block @ caPEM)"
    "pem_Decode A (block @ caPEM) = Some (''CERTIFICATE'', certBytes)"
    "pem_Decode A caPEM = Some (''CERTIFICATE'', ct_Raw caCert)"
    "signed certBytes (rsa_Public A caKey)" "ParseCertificate A certBytes = Inr cert"
    "ct_CommonName cert = cf_Name cfg"
    "elems (ct_DNSNames cert) = (if cf_IsCA cfg then [] else elems (cf_DNSNames cfg))"
    "ExtKeyUsageServerAuth \<in> set (ct_ExtKeyUsage cert) \<longleftrightarrow> cf_IsServer cfg"
proof -
  from CreateCertificate_done [OF run] obtain keyPEM certPEM d1 where
      files: "certificate_files A cfg d = Inr (keyPEM, certPEM)"
      and w2: "os_WriteFile (ad_os A) d1 (cf_CertOutPath cfg) certPEM 0x180 = (None, d2)" .
  from certificate_files_done [OF files] obtain key caCert caKey certBytes block where
      l0: "(if cf_CAPath cfg \<noteq> [] then load_ca A cfg d
            else Inr (certificate_template A cfg, key)) = Inr (caCert, caKey)"
      and create: "x509_CreateCertificate A (certificate_template A cfg) caCert (rsa_Public A key) caKey = Inr certBytes"
      and cp: "pem_Encode A (''CERTIFICATE'', certBytes) = Inr block"
      and rest: "if cf_CAPath cfg = [] then certPEM = block
        else (\<exists>caPEM. pem_Encode A (''CERTIFICATE'', ct_Raw caCert) = Inr caPEM \<and> certPEM = block @ caPEM)" .
  from l0 ca have l: "load_ca A cfg d = Inr (caCert, caKey)" by simp
  from rest ca obtain caPEM where caPEM: "pem_Encode A (''CERTIFICATE'', ct_Raw caCert) = Inr caPEM"
      "certPEM = block @ caPEM" by auto
  from x509_created [OF lib create] obtain cert where cert: "signed certBytes (rsa_Public A caKey)"
      "ParseCertificate A certBytes = Inr cert"
      "ct_CommonName cert = ct_CommonName (certificate_template A cfg)"
      "elems (ct_DNSNames cert) = elems (ct_DNSNames (certificate_template A cfg))"
      "ct_ExtKeyUsage cert = ct_ExtKeyUsage (certificate_template A cfg)" by metis
  have t: "ct_CommonName (certificate_template A cfg) = cf_Name cfg"
      "elems (ct_DNSNames (certificate_template A cfg)) = (if cf_IsCA cfg then [] else elems (cf_DNSNames cfg))"
      "ExtKeyUsageServerAuth \<in> set (ct_ExtKeyUsage (certificate_template A cfg)) \<longleftrightarrow> cf_IsServer cfg"
    by (simp_all add: certificate_template_def Let_def)
  have "os_ReadFile (ad_os A) d2 (cf_CertOutPath cfg) = Inr (block @ caPEM)"
    using disk_conforms_Write(1) [OF disk w2] paths caPEM(2) by simp
  moreover have "pem_Decode A (block @ caPEM) = Some (''CERTIFICATE'', certBytes)"
    by (rule x509_conformsD(1) [OF lib cp])
  moreover have "pem_Decode A caPEM = Some (''CERTIFICATE'', ct_Raw caCert)"
    by (rule x509_conformsD(2) [OF lib caPEM(1)])
  ultimately show ?thesis
    using that [OF l _ _ _ cert(1,2)] cert(3-5) t by simp
qed

text \<open>An error before the first write leaves the disk as it was.\<close>

lemma CreateCertificate_error:
  assumes "CreateCertificate A cfg d = (Some err, d2)"
  shows "d2 = d \<and> certificate_files A cfg d = Inl err
    \<or> (\<exists>keyPEM certPEM e d1. certificate_files A cfg d = Inr (keyPEM, certPEM)
         \<and> os_WriteFile (ad_os A) d (cf_PrivateKeyOutPath cfg) keyPEM 0x180 = (e, d1)
         \<and> (e = Some err \<and> d2 = d1
            \<or> e = None \<and> os_WriteFile (ad_os A) d1 (cf_CertOutPath cfg) certPEM 0x180 = (Some err, d2)))"
  using assms by (auto simp: CreateCertificate_def split: sum.splits prod.splits option.splits)

section \<open>Tokens\<close>

lemma GenerateJWT_done:
  assumes "GenerateJWT A d u r g keyfile = Inr s"
  obtains p where "LoadPrivateKey A d keyfile = Inr p"
    "SignedString A (SigningMethodRSA ''RS256'') (token_claims_of A u r g) p = Inr s"
  using assms by (auto simp: GenerateJWT_def split: sum.splits)

lemma ascii_ServerName: "valid_utf8 ServerName"
  by (rule ascii_valid_utf8) (simp add: ServerName_def ascii_def byte_def)

text \<open>
  A token made at \<open>Now A 0\<close> is the admin's token for the user until its expiry, which is a day later
  cut to the whole second, and for nobody from then on. A second before the day is over is early
  enough.
\<close>

lemma GenerateJWT_admin_token:
  assumes sign: "signing_conforms F A"
    and gen: "GenerateJWT A d u r g keyfile = Inr s"
    and utf8: "valid_utf8 u" "valid_utf8 r" "valid_utf8 g"
  obtains p where "LoadPrivateKey A d keyfile = Inr p" "word_ascii s"
    "times_documented F now \<Longrightarrow> now + 10 ^ 9 \<le> Now A 0 + 24 * Hour \<Longrightarrow>
       admin_token F (rsa_Public A p) s (token_claims_of A u r g)"
    "times_documented F now \<Longrightarrow> now < NewNumericDate A (Now A 0 + 24 * Hour) \<Longrightarrow>
       admin_token F (rsa_Public A p) s (token_claims_of A u r g)"
    "times_documented F now \<Longrightarrow> NewNumericDate A (Now A 0 + 24 * Hour) \<le> now \<Longrightarrow> \<not> admin_token F k s c"
proof -
  let ?c = "token_claims_of A u r g"
  from GenerateJWT_done [OF gen] obtain p where p: "LoadPrivateKey A d keyfile = Inr p"
      and s: "SignedString A (SigningMethodRSA ''RS256'') ?c p = Inr s" .
  have nd: "NewNumericDate A t \<le> t" "t - 10 ^ 9 < NewNumericDate A t"
      "NewNumericDate A (NewNumericDate A t) = NewNumericDate A t" for t
    using sign by (simp_all add: signing_conforms_def)
  have "claims_utf8 ?c" using utf8 by (simp add: claims_utf8_def token_claims_of_def ascii_ServerName)
  moreover have "\<forall>t \<in> claim_times ?c. NewNumericDate A t = t"
    by (simp add: claim_times_def token_claims_of_def nd)
  ultimately have w: "word_ascii s" and dec: "jf_decode F s = Some (SigningMethodRSA ''RS256'', ?c)"
      and ver: "jf_verify F (SigningMethodRSA ''RS256'') (rsa_Public A p) s"
    using sign s unfolding signing_conforms_def by blast+
  have early: "admin_token F (rsa_Public A p) s ?c"
    if "times_documented F now" "now < NewNumericDate A (Now A 0 + 24 * Hour)"
    using that dec ver by (simp add: admin_token_def times_documented_def token_claims_of_def)
  have late: "\<not> admin_token F k s c"
    if "times_documented F now" "NewNumericDate A (Now A 0 + 24 * Hour) \<le> now"
    using that dec by (auto simp: admin_token_def times_documented_def token_claims_of_def)
  have "admin_token F (rsa_Public A p) s ?c"
    if "times_documented F now" "now + 10 ^ 9 \<le> Now A 0 + 24 * Hour"
    by (rule early [OF that(1)]) (use that(2) nd(2) [of "Now A 0 + 24 * Hour"] in linarith)
  with that [OF p w] early late show ?thesis by blast
qed

lemma NewNumericDate_cut:
  "signing_conforms F A \<Longrightarrow> t - 10 ^ 9 < NewNumericDate A t \<and> NewNumericDate A t \<le> t"
  by (simp add: signing_conforms_def)

text \<open>The clock at which a command runs matters to nothing but the times in a token.\<close>

lemma clock_update [simp]:
  "LoadPrivateKey (A\<lparr>Now := clock\<rparr>) d f = LoadPrivateKey A d f"
  "signing_conforms F (A\<lparr>Now := clock\<rparr>) = signing_conforms F A"
proof -
  have "ad_os (A\<lparr>Now := clock\<rparr>) = ad_os A" "pem_Decode (A\<lparr>Now := clock\<rparr>) = pem_Decode A"
      "ParsePKCS1PrivateKey (A\<lparr>Now := clock\<rparr>) = ParsePKCS1PrivateKey A" by simp_all
  then show "LoadPrivateKey (A\<lparr>Now := clock\<rparr>) d f = LoadPrivateKey A d f"
    by (simp only: LoadPrivateKey_def)
qed (simp add: signing_conforms_def)

end
