(* ===== verification/Cli.thy ===== *)
theory Cli
  imports AdminLaws
begin

text \<open>
  \<open>cmd/llmd-admin\<close>: the commands of the admin tool, their flags, and the program from its arguments
  to its exit code. A run prints lines to the standard output and the standard error, ends with an
  exit code and leaves a disk. The command-line library, cobra, is an argument:
  \<open>cobra_conforms\<close> is what it documents.
\<close>

section \<open>The commands\<close>

text \<open>The loop over the parts; the slice starts as nil.\<close>

primrec split_parts :: "string list \<Rightarrow> string slice \<Rightarrow> string slice" where
  "split_parts [] out = out"
| "split_parts (part # parts) out =
     (let part = TrimSpace part
      in if part \<noteq> [] then split_parts parts (append_slice out part) else split_parts parts out)"

definition splitCSV :: "string \<Rightarrow> string slice" where
  "splitCSV s = split_parts (Split s (CHR '','')) NilSlice"

definition initCmd_Run :: "('k, 'p, 'd) admin_lib \<Rightarrow> 'd \<Rightarrow> 'd cli_run" where
  "initCmd_Run A d =
     (case CreateAdminCerts A d of
        (out, d') \<Rightarrow> \<lparr>cli_stdout = out, cli_stderr = [], cli_exit = 0, cli_disk = d'\<rparr>)"

definition tlsCertCmd_Run :: "('k, 'p, 'd) admin_lib \<Rightarrow> string \<Rightarrow> 'd \<Rightarrow> 'd cli_run" where
  "tlsCertCmd_Run A dnsNamesStr d =
     (let dnsNames = splitCSV dnsNamesStr
      in if length (elems dnsNames) = 0 then
           \<lparr>cli_stdout = [], cli_stderr = [''Error: --dns-names is required''], cli_exit = 1, cli_disk = d\<rparr>
         else (case GenerateTLSCert A dnsNames d of
                 (Some err, d') \<Rightarrow>
                   \<lparr>cli_stdout = [], cli_stderr = [''Error generating TLS certificate: '' @ Error err],
                    cli_exit = 1, cli_disk = d'\<rparr>
               | (None, d') \<Rightarrow>
                   \<lparr>cli_stdout = [''TLS certificate generated:'', ''  cert: certs/tls-cert.pem'',
                                  ''  key:  certs/tls-key.pem''],
                    cli_stderr = [], cli_exit = 0, cli_disk = d'\<rparr>))"

definition createCmd_Run ::
    "('k, 'p, 'd) admin_lib \<Rightarrow> string \<Rightarrow> string \<Rightarrow> string \<Rightarrow> 'd \<Rightarrow> 'd cli_run" where
  "createCmd_Run A name role org d =
     (case GenerateJWT A d name role org LlmDKeyFile of
        Inl err \<Rightarrow>
          \<lparr>cli_stdout = [], cli_stderr = [''Error generating token: '' @ Error err], cli_exit = 1, cli_disk = d\<rparr>
      | Inr token \<Rightarrow> \<lparr>cli_stdout = [token], cli_stderr = [], cli_exit = 0, cli_disk = d\<rparr>)"

section \<open>The program\<close>

text \<open>
  A command as the program declares it to cobra: its name, its string flags with their defaults, and
  what it runs, given the values of the flags. \<open>GetString\<close> reads a value; the program drops its
  error, with which the value is empty.
\<close>

record 'd command =
  Use :: string
  string_flags :: "(string \<times> string) list"
  Run :: "(string \<rightharpoonup> string) \<Rightarrow> 'd \<Rightarrow> 'd cli_run"

definition GetString :: "(string \<rightharpoonup> string) \<Rightarrow> string \<Rightarrow> string" where
  "GetString flags name = (case flags name of None \<Rightarrow> [] | Some v \<Rightarrow> v)"

definition initCmd :: "('k, 'p, 'd) admin_lib \<Rightarrow> 'd command" where
  "initCmd A = \<lparr>Use = ''init'', string_flags = [], Run = (\<lambda>flags. initCmd_Run A)\<rparr>"

definition tlsCertCmd :: "('k, 'p, 'd) admin_lib \<Rightarrow> 'd command" where
  "tlsCertCmd A =
     \<lparr>Use = ''tls-cert'', string_flags = [],
      Run = (\<lambda>flags. tlsCertCmd_Run A (GetString flags ''dns-names''))\<rparr>"

definition createCmd :: "('k, 'p, 'd) admin_lib \<Rightarrow> 'd command" where
  "createCmd A =
     \<lparr>Use = ''create'', string_flags = [],
      Run = (\<lambda>flags. createCmd_Run A (GetString flags ''name'') (GetString flags ''role'') (GetString flags ''org''))\<rparr>"

definition Flags_String :: "string \<Rightarrow> string \<Rightarrow> 'd command \<Rightarrow> 'd command" where
  "Flags_String name value c = c\<lparr>string_flags := string_flags c @ [(name, value)]\<rparr>"

text \<open>The commands after the program's \<open>init\<close> has added them to the root and defined their flags.\<close>

definition registered :: "('k, 'p, 'd) admin_lib \<Rightarrow> 'd command list" where
  "registered A =
     [initCmd A,
      Flags_String ''org'' ''org1'' (Flags_String ''role'' ''role1'' (Flags_String ''name'' ''user1'' (createCmd A))),
      Flags_String ''dns-names'' [] (tlsCertCmd A)]"

text \<open>
  What cobra makes of the arguments: a command of the program to run, with the values of its flags;
  something that it handles itself and returns no error for (help, shell completion), whatever it
  prints to either output; or an error that it returns, whatever it printed before.
\<close>

datatype 'd selection =
    Selected "'d command" "string \<rightharpoonup> string"
  | Handled "string list" "string list"
  | Refused goerror "string list" "string list"

type_synonym 'd cobra = "string \<Rightarrow> 'd command list \<Rightarrow> string list \<Rightarrow> 'd selection"

definition admin_main :: "'d cobra \<Rightarrow> ('k, 'p, 'd) admin_lib \<Rightarrow> string list \<Rightarrow> 'd \<Rightarrow> 'd cli_run" where
  "admin_main cobra A args d =
     (case cobra ''llmd-admin'' (registered A) args of
        Selected c flags \<Rightarrow> Run c flags d
      | Handled out printed \<Rightarrow> \<lparr>cli_stdout = out, cli_stderr = printed, cli_exit = 0, cli_disk = d\<rparr>
      | Refused err out printed \<Rightarrow>
          \<lparr>cli_stdout = out, cli_stderr = printed @ [''Error: '' @ Error err], cli_exit = 1, cli_disk = d\<rparr>)"

section \<open>What cobra documents\<close>

text \<open>
  Commands and flags with plain names: the argument \<open>--name=value\<close> sets a flag, a flag that is set
  twice has the last value, and one that is not set has its default. A first argument that names no
  command is an error, and no arguments ask for help. Cobra adds the commands \<open>help\<close> and
  \<open>completion\<close> and a flag \<open>help\<close> of its own.
\<close>

definition flag_arg :: "string \<times> string \<Rightarrow> string" where
  "flag_arg kv = ''--'' @ fst kv @ ''='' @ snd kv"

definition flag_values :: "'d command \<Rightarrow> (string \<times> string) list \<Rightarrow> string \<rightharpoonup> string" where
  "flag_values c kvs = map_of (string_flags c) ++ map_of (rev kvs)"

definition plain :: "string \<Rightarrow> bool" where
  "plain w \<longleftrightarrow> w \<noteq> [] \<and> hd w \<noteq> CHR ''-'' \<and> (\<forall>c \<in> set w. c = CHR ''-'' \<or> 97 \<le> byte c \<and> byte c \<le> 122)"

definition declared :: "'d command list \<Rightarrow> bool" where
  "declared cs \<longleftrightarrow> distinct (map Use cs)
     \<and> (\<forall>c \<in> set cs. plain (Use c) \<and> Use c \<notin> {''help'', ''completion''} \<and> distinct (map fst (string_flags c))
          \<and> (\<forall>f \<in> fst ` set (string_flags c). plain f \<and> f \<noteq> ''help''))"

definition cobra_conforms :: "'d cobra \<Rightarrow> bool" where
  "cobra_conforms cobra \<longleftrightarrow> (\<forall>name cs. declared cs \<longrightarrow>
     (\<forall>c \<in> set cs. \<forall>kvs. fst ` set kvs \<subseteq> fst ` set (string_flags c) \<longrightarrow>
        cobra name cs (Use c # map flag_arg kvs) = Selected c (flag_values c kvs))
     \<and> (\<forall>args c flags. cobra name cs args = Selected c flags \<longrightarrow> c \<in> set cs)
     \<and> (\<forall>w args. plain w \<longrightarrow> w \<notin> {''help'', ''completion''} \<union> Use ` set cs \<longrightarrow>
          (\<exists>err out printed. cobra name cs (w # args) = Refused err out printed))
     \<and> (\<exists>usage. cobra name cs [] = Handled usage []))"

section \<open>The program's commands\<close>

lemma declared_registered: "declared (registered A)"
  by (auto simp: declared_def registered_def Flags_String_def initCmd_def createCmd_def tlsCertCmd_def
      plain_def byte_def)

lemma main_runs:
  assumes "cobra_conforms cobra" and "c \<in> set (registered A)"
    and "fst ` set kvs \<subseteq> fst ` set (string_flags c)"
  shows "admin_main cobra A (Use c # map flag_arg kvs) d = Run c (flag_values c kvs) d"
proof -
  have "cobra ''llmd-admin'' (registered A) (Use c # map flag_arg kvs) = Selected c (flag_values c kvs)"
    using assms declared_registered [of A] unfolding cobra_conforms_def by blast
  then show ?thesis by (simp add: admin_main_def)
qed

lemma main_init: "cobra_conforms cobra \<Longrightarrow> admin_main cobra A [''init''] d = initCmd_Run A d"
  using main_runs [of cobra "initCmd A" A "[]" d] by (simp add: registered_def initCmd_def)

text \<open>The value of a flag of \<open>create\<close>: the last one given, or the default.\<close>

definition given :: "(string \<times> string) list \<Rightarrow> string \<Rightarrow> string \<Rightarrow> string" where
  "given kvs name value = (case map_of (rev kvs) name of None \<Rightarrow> value | Some v \<Rightarrow> v)"

lemma given_values: "\<forall>kv \<in> set kvs. P (snd kv) \<Longrightarrow> P value \<Longrightarrow> P (given kvs name value)"
  by (fastforce simp: given_def split: option.split dest!: map_of_SomeD)

lemma given_GetString:
  "map_of (string_flags c) name = Some value \<Longrightarrow> GetString (flag_values c kvs) name = given kvs name value"
  by (simp add: GetString_def flag_values_def given_def map_add_def split: option.split)

lemma main_create:
  assumes "cobra_conforms cobra" and "fst ` set kvs \<subseteq> {''name'', ''role'', ''org''}"
  shows "admin_main cobra A (''create'' # map flag_arg kvs) d
       = createCmd_Run A (given kvs ''name'' ''user1'') (given kvs ''role'' ''role1'') (given kvs ''org'' ''org1'') d"
proof -
  define c where "c = Flags_String ''org'' ''org1'' (Flags_String ''role'' ''role1''
    (Flags_String ''name'' ''user1'' (createCmd A)))"
  have flags: "string_flags c = [(''name'', ''user1''), (''role'', ''role1''), (''org'', ''org1'')]"
    by (simp add: c_def Flags_String_def createCmd_def)
  have "c \<in> set (registered A)" by (simp add: registered_def c_def)
  moreover have "fst ` set kvs \<subseteq> fst ` set (string_flags c)" using assms(2) by (simp add: flags)
  ultimately have "admin_main cobra A (Use c # map flag_arg kvs) d = Run c (flag_values c kvs) d"
    by (rule main_runs [OF assms(1)])
  moreover have "Use c = ''create''" "Run c = Run (createCmd A)" by (simp_all add: c_def Flags_String_def createCmd_def)
  ultimately show ?thesis by (simp add: createCmd_def given_GetString flags)
qed

text \<open>What went well, from what was printed.\<close>

lemma main_init_done:
  assumes "cobra_conforms cobra"
    and "admin_main cobra A [''init''] d = \<lparr>cli_stdout = out, cli_stderr = [], cli_exit = 0, cli_disk = d'\<rparr>"
  shows "CreateAdminCerts A d = (out, d')"
  using assms(2) by (auto simp: main_init [OF assms(1)] initCmd_Run_def split: prod.splits)

lemma main_create_done:
  assumes "cobra_conforms cobra" and "fst ` set kvs \<subseteq> {''name'', ''role'', ''org''}"
    and "admin_main cobra A (''create'' # map flag_arg kvs) d
           = \<lparr>cli_stdout = [tok], cli_stderr = [], cli_exit = 0, cli_disk = d'\<rparr>"
  shows "GenerateJWT A d (given kvs ''name'' ''user1'') (given kvs ''role'' ''role1'')
           (given kvs ''org'' ''org1'') LlmDKeyFile = Inr tok"
  using assms(3) by (auto simp: main_create [OF assms(1,2)] createCmd_Run_def split: sum.splits)

lemma main_tls_cert:
  assumes "cobra_conforms cobra"
  shows "admin_main cobra A [''tls-cert'', ''--dns-names='' @ names] d = tlsCertCmd_Run A names d"
  using main_runs [OF assms, of "Flags_String ''dns-names'' [] (tlsCertCmd A)" A "[(''dns-names'', names)]" d]
  by (simp add: registered_def Flags_String_def tlsCertCmd_def flag_arg_def flag_values_def GetString_def)

lemma main_unknown:
  assumes "cobra_conforms cobra" and "plain w"
    and "w \<notin> {''help'', ''completion'', ''init'', ''create'', ''tls-cert''}"
  shows "\<exists>err out printed. cobra ''llmd-admin'' (registered A) (w # args) = Refused err out printed"
proof -
  have "w \<notin> {''help'', ''completion''} \<union> Use ` set (registered A)"
    using assms(3) by (simp add: registered_def Flags_String_def initCmd_def createCmd_def tlsCertCmd_def)
  then show ?thesis
    using assms(1,2) declared_registered [of A] unfolding cobra_conforms_def by blast
qed

text \<open>When \<open>create\<close> and \<open>tls-cert\<close> end with which exit code.\<close>

lemma createCmd_exit:
  "if \<exists>tok. GenerateJWT A d name role org LlmDKeyFile = Inr tok
   then cli_exit (createCmd_Run A name role org d) = 0 \<and> cli_stderr (createCmd_Run A name role org d) = []
   else cli_exit (createCmd_Run A name role org d) = 1 \<and> cli_stderr (createCmd_Run A name role org d) \<noteq> []"
  by (auto simp: createCmd_Run_def split: sum.split)

lemma tlsCertCmd_exit:
  "if elems (splitCSV names) \<noteq> [] \<and> (\<exists>d'. GenerateTLSCert A (splitCSV names) d = (None, d'))
   then cli_exit (tlsCertCmd_Run A names d) = 0 \<and> cli_stderr (tlsCertCmd_Run A names d) = []
   else cli_exit (tlsCertCmd_Run A names d) = 1 \<and> cli_stderr (tlsCertCmd_Run A names d) \<noteq> []"
  by (auto simp: tlsCertCmd_Run_def Let_def split: prod.split option.split)

text \<open>Whatever the arguments are, what runs is one of the three commands, or nothing.\<close>

lemma main_cases:
  assumes "cobra_conforms cobra"
  obtains "admin_main cobra A args d = initCmd_Run A d"
  | names where "admin_main cobra A args d = tlsCertCmd_Run A names d"
  | name role org where "admin_main cobra A args d = createCmd_Run A name role org d"
  | out printed where
      "admin_main cobra A args d = \<lparr>cli_stdout = out, cli_stderr = printed, cli_exit = 0, cli_disk = d\<rparr>"
  | out printed err where
      "admin_main cobra A args d = \<lparr>cli_stdout = out, cli_stderr = printed @ [err], cli_exit = 1, cli_disk = d\<rparr>"
proof (cases "cobra ''llmd-admin'' (registered A) args")
  case (Selected c flags)
  then have "c \<in> set (registered A)"
    using assms declared_registered [of A] unfolding cobra_conforms_def by metis
  with Selected that show ?thesis
    by (auto simp: admin_main_def registered_def initCmd_def createCmd_def tlsCertCmd_def Flags_String_def)
qed (use that in \<open>simp_all add: admin_main_def\<close>)

section \<open>Splitting a list\<close>

lemma elems_split_parts:
  "elems (split_parts parts out) = elems out @ filter (\<lambda>p. p \<noteq> []) (map TrimSpace parts)"
  by (induction parts arbitrary: out) (simp_all add: Let_def)

lemma elems_splitCSV: "elems (splitCSV s) = filter (\<lambda>p. p \<noteq> []) (map TrimSpace (Split s (CHR '','')))"
  by (simp add: splitCSV_def elems_split_parts)

text \<open>Names with blanks around them, joined by commas, are split into the names.\<close>

lemma comma_not_space: "\<not> IsSpace (byte (CHR '',''))"
  by (simp add: IsSpace_def byte_def)

lemma Split_Join:
  "\<forall>w \<in> set ws. CHR '','' \<notin> set w \<Longrightarrow> ws \<noteq> [] \<Longrightarrow> Split (Join ws '','') (CHR '','') = ws"
proof (induction ws "'','' :: string" rule: Join.induct)
  case (3 s t ss)
  then show ?case by (simp add: Split_append)
qed (simp_all add: Split_word)

lemma splitCSV_Join:
  assumes "\<forall>(a, w, b) \<in> set ws. blank_ascii a \<and> word_ascii w \<and> CHR '','' \<notin> set w \<and> blank_ascii b"
    and "ws \<noteq> []"
  shows "elems (splitCSV (Join (map (\<lambda>(a, w, b). a @ w @ b) ws) '','')) = map (\<lambda>(a, w, b). w) ws"
proof -
  have "\<forall>v \<in> set (map (\<lambda>(a, w, b). a @ w @ b) ws). CHR '','' \<notin> set v"
    using assms(1) comma_not_space by (fastforce simp: blank_ascii_def)
  from Split_Join [OF this] assms(2)
  have "elems (splitCSV (Join (map (\<lambda>(a, w, b). a @ w @ b) ws) '',''))
      = filter (\<lambda>p. p \<noteq> []) (map TrimSpace (map (\<lambda>(a, w, b). a @ w @ b) ws))"
    by (simp add: elems_splitCSV)
  also have "map TrimSpace (map (\<lambda>(a, w, b). a @ w @ b) ws) = map (\<lambda>(a, w, b). w) ws"
    using assms(1) by (auto simp: TrimSpace_word)
  also have "filter (\<lambda>p. p \<noteq> []) (map (\<lambda>(a, w, b). w) ws) = map (\<lambda>(a, w, b). w) ws"
    using assms(1) by (auto simp: filter_id_conv word_ascii_def)
  finally show ?thesis .
qed

end
