(* ===== verification/Customizer.thy ===== *)
theory Customizer
  imports Request GoOs
begin

text \<open>
  \<open>cmd/deployment-customizer\<close>: edits of the YAML files of a deployment. The YAML library is an
  argument; a decoded document is a map from names to values, with the nested maps and arrays as
  JSON values. The code writes into the nested maps in place: since a decoded document is a
  tree, that is an update along the path to the map.
\<close>

section \<open>Documents\<close>

record 'd customizer_lib =
  cu_os :: "'d os"
  yaml_Unmarshal :: "string \<Rightarrow> (string, json) gomap result"
  yaml_Marshal :: "(string, json) gomap \<Rightarrow> string result"

text \<open>The type assertions \<open>v.(map[string]any)\<close> and \<open>v.([]any)\<close>; a map as a value again.\<close>

definition as_map :: "json option \<Rightarrow> (string, json) gomap option" where
  "as_map v = (case v of Some (JObj kvs) \<Rightarrow> Some (GoMap (insert_all kvs [])) | _ \<Rightarrow> None)"

definition as_array :: "json option \<Rightarrow> json list option" where
  "as_array v = (case v of Some (JArr vs) \<Rightarrow> Some vs | _ \<Rightarrow> None)"

primrec of_map :: "(string, json) gomap \<Rightarrow> json" where
  "of_map NilMap = JNull"
| "of_map (GoMap al) = JObj al"

definition readYAML :: "'d customizer_lib \<Rightarrow> string \<Rightarrow> 'd \<Rightarrow> (string, json) gomap result" where
  "readYAML Y filePath d =
     (case os_ReadFile (cu_os Y) d filePath of
        Inl err \<Rightarrow> Inl (Wrap (''reading '' @ filePath @ '': '') err)
      | Inr raw \<Rightarrow>
          (case yaml_Unmarshal Y raw of
             Inl err \<Rightarrow> Inl (Wrap (''parsing '' @ filePath @ '': '') err)
           | Inr data \<Rightarrow> Inr data))"

text \<open>An edit of a file returns its error, the lines it printed, and the disk.\<close>

type_synonym 'd edit = "goerror option \<times> string list \<times> 'd"

definition writeYAML ::
    "'d customizer_lib \<Rightarrow> string \<Rightarrow> (string, json) gomap \<Rightarrow> 'd \<Rightarrow> 'd edit" where
  "writeYAML Y filePath data d =
     (case yaml_Marshal Y data of
        Inl err \<Rightarrow> (Some (Wrap ''marshaling YAML: '' err), [], d)
      | Inr out \<Rightarrow>
          (case os_WriteFile (cu_os Y) d filePath out 0x1A4 of
             (Some err, d1) \<Rightarrow> (Some (Wrap (''writing '' @ filePath @ '': '') err), [], d1)
           | (None, d1) \<Rightarrow> (None, [''Successfully customized '' @ filePath], d1)))"

section \<open>The gateway\<close>

definition https_gateway :: json where
  "https_gateway =
     JObj [(''gatewayClassName'', JStr ''istio''),
           (''listeners'', JArr [
              JObj [(''name'', JStr ''https''), (''port'', JNum ''443''), (''protocol'', JStr ''HTTPS''),
                    (''allowedRoutes'', JObj [(''namespaces'', JObj [(''from'', JStr ''All'')])]),
                    (''tls'', JObj [(''hostname'', JStr ''llm-d.com''), (''mode'', JStr ''Terminate''),
                       (''certificateRefs'', JArr [JObj [(''name'', JStr ''llm-d-gateway-https-cert-secret'')]])])]])]"

definition customizeGateway :: "'d customizer_lib \<Rightarrow> string \<Rightarrow> 'd \<Rightarrow> 'd edit outcome" where
  "customizeGateway Y filePath d =
     (case readYAML Y filePath d of
        Inl err \<Rightarrow> Some (Some err, [], d)
      | Inr data \<Rightarrow>
          if glookup data ''gateway'' = None
          then Some (Some (Errorf (''gateway key not found in '' @ filePath)), [], d)
          else do { data \<leftarrow> gset ''gateway'' https_gateway data;
                    Some (writeYAML Y filePath data d) })"

section \<open>The model service\<close>

definition llama_name :: string where
  "llama_name = ''meta-llama/Llama-3.2-1B-Instruct''"

definition loraArgs :: "json list" where
  "loraArgs =
     [JStr ''--max-loras'', JStr ''3'', JStr ''--lora-modules'',
      JStr ''{\"name\": \"ibm_z17_technical_technical_introduction\"}'',
      JStr ''{\"name\": \"ansible_automation_ibm_power_env\"}'',
      JStr ''{\"name\": \"best_practices_ibm_storage_flash_system\"}'']"

definition set_artifacts :: "(string, json) gomap \<Rightarrow> ((string, json) gomap \<times> string list) outcome" where
  "set_artifacts data =
     (case as_map (glookup data ''modelArtifacts'') of
        None \<Rightarrow> Some (data, [])
      | Some ma \<Rightarrow>
          do { ma \<leftarrow> gset ''uri'' (JStr (''hf://'' @ llama_name)) ma;
               ma \<leftarrow> gset ''name'' (JStr llama_name) ma;
               data \<leftarrow> gset ''modelArtifacts'' (of_map ma) data;
               Some (data, [''Updated modelArtifacts to '' @ llama_name]) })"

text \<open>The loop over the containers, up to the first that is named \<open>vllm\<close>.\<close>

primrec set_vllm_args :: "json list \<Rightarrow> json list \<Rightarrow> json list option outcome" where
  "set_vllm_args args [] = Some None"
| "set_vllm_args args (c # cs) =
     (case as_map (Some c) of
        None \<Rightarrow> map_option (map_option ((#) c)) (set_vllm_args args cs)
      | Some container \<Rightarrow>
          if glookup container ''name'' = Some (JStr ''vllm'')
          then do { container \<leftarrow> gset ''args'' (JArr args) container;
                    Some (Some (of_map container # cs)) }
          else map_option (map_option ((#) c)) (set_vllm_args args cs))"

definition customizeVLLMContainer ::
    "(string, json) gomap \<Rightarrow> string \<Rightarrow> json list \<Rightarrow> ((string, json) gomap \<times> string list) outcome" where
  "customizeVLLMContainer data sect args =
     (case as_map (glookup data sect) of
        None \<Rightarrow> Some (data, [])
      | Some sec \<Rightarrow>
          (case as_array (glookup sec ''containers'') of
             None \<Rightarrow> Some (data, [])
           | Some containers \<Rightarrow>
               do { r \<leftarrow> set_vllm_args args containers;
                    case r of
                      None \<Rightarrow> Some (data, [])
                    | Some containers' \<Rightarrow>
                        do { sec \<leftarrow> gset ''containers'' (JArr containers') sec;
                             data \<leftarrow> gset sect (of_map sec) data;
                             Some (data, [''Customized '' @ sect @ '' container with LoRA args'']) } }))"

text \<open>The edit of the document, and then of the file.\<close>

definition model_service_edit :: "(string, json) gomap \<Rightarrow> ((string, json) gomap \<times> string list) outcome" where
  "model_service_edit data =
     do { (data, out1) \<leftarrow> set_artifacts data;
          (data, out2) \<leftarrow> customizeVLLMContainer data ''decode'' loraArgs;
          (data, out3) \<leftarrow> customizeVLLMContainer data ''prefill'' loraArgs;
          Some (data, out1 @ out2 @ out3) }"

definition customizeModelService :: "'d customizer_lib \<Rightarrow> string \<Rightarrow> 'd \<Rightarrow> 'd edit outcome" where
  "customizeModelService Y filePath d =
     (case readYAML Y filePath d of
        Inl err \<Rightarrow> Some (Some err, [], d)
      | Inr data \<Rightarrow>
          do { (data, out) \<leftarrow> model_service_edit data;
               case writeYAML Y filePath data d of
                 (err, out', d') \<Rightarrow> Some (err, out @ out', d') })"

section \<open>The program\<close>

definition printUsage :: "string list" where
  "printUsage =
     [''Usage:'',
      ''  deployment-customizer gateway <yaml-file>        Customize gateway config for HTTPS'',
      ''  deployment-customizer model-service <yaml-file>  Customize model service values for LoRA'']"

definition finish :: "'d edit \<Rightarrow> 'd cli_run" where
  "finish r =
     (case r of
        (Some err, out, d) \<Rightarrow>
          \<lparr>cli_stdout = out, cli_stderr = [''Error: '' @ Error err], cli_exit = 1, cli_disk = d\<rparr>
      | (None, out, d) \<Rightarrow> \<lparr>cli_stdout = out, cli_stderr = [], cli_exit = 0, cli_disk = d\<rparr>)"

definition customizer_main :: "'d customizer_lib \<Rightarrow> string list \<Rightarrow> 'd \<Rightarrow> 'd cli_run outcome" where
  "customizer_main Y os_Args d =
     (if length os_Args < 3 then
        Some \<lparr>cli_stdout = [], cli_stderr = printUsage, cli_exit = 1, cli_disk = d\<rparr>
      else
        (let command = os_Args ! 1; filePath = os_Args ! 2 in
         if command = ''gateway'' then map_option finish (customizeGateway Y filePath d)
         else if command = ''model-service'' then map_option finish (customizeModelService Y filePath d)
         else Some \<lparr>cli_stdout = [], cli_stderr = (''Unknown command: '' @ command) # printUsage,
                    cli_exit = 1, cli_disk = d\<rparr>))"

end
