(* ===== verification/CustomizerLaws.thy ===== *)
theory CustomizerLaws
  imports Customizer
begin

text \<open>
  The edits of the customizer as functions of documents: an edit never panics, touches only its
  own keys, and does nothing the second time.
\<close>

section \<open>Editing one key\<close>

text \<open>\<open>f\<close> says what the value under the key becomes; \<open>None\<close> leaves the document alone.\<close>

definition edit_at ::
    "string \<Rightarrow> (json option \<Rightarrow> json option) \<Rightarrow> (string, json) gomap \<Rightarrow> (string, json) gomap" where
  "edit_at k f data = (case f (glookup data k) of None \<Rightarrow> data | Some v \<Rightarrow> GoMap (AList.update k v (entries data)))"

definition settled :: "(json option \<Rightarrow> json option) \<Rightarrow> json option \<Rightarrow> bool" where
  "settled f v \<longleftrightarrow> f v = None \<or> f v = v"

lemma update_same: "map_of al k = Some v \<Longrightarrow> AList.update k v al = al"
  by (induction al) (auto split: if_splits)

lemma glookup_entries: "glookup m k = map_of (entries m) k"
  by (cases m) (simp_all add: glookup_def)

lemma glookup_edit_at:
  "glookup (edit_at k f data) k' =
     (if k' = k then (case f (glookup data k) of None \<Rightarrow> glookup data k | Some v \<Rightarrow> Some v) else glookup data k')"
  by (auto simp: edit_at_def glookup_entries update_conv' split: option.split)

lemma edit_at_settled: "settled f (glookup data k) \<Longrightarrow> edit_at k f data = data"
  by (cases data) (auto simp: settled_def edit_at_def glookup_def update_same split: option.splits)

lemma settled_edit_at:
  assumes "\<And>v w. f v = Some w \<Longrightarrow> f (Some w) = Some w"
  shows "settled f (glookup (edit_at k f data) k)"
  using assms [of "glookup data k"]
  by (auto simp: settled_def glookup_edit_at split: option.splits)

section \<open>The code's edits as edits of one key\<close>

lemma as_map_GoMap: "as_map v = Some m \<Longrightarrow> \<exists>al. m = GoMap al \<and> distinct (map fst al)"
  by (auto simp: as_map_def distinct_insert_all split: option.splits json.splits)

lemma as_map_of_map: "distinct (map fst al) \<Longrightarrow> as_map (Some (of_map (GoMap al))) = Some (GoMap al)"
  using insert_all_distinct [of "[]" al] by (simp add: as_map_def)

lemma gset_present: "glookup data k \<noteq> None \<Longrightarrow> gset k v data = Some (GoMap (AList.update k v (entries data)))"
  by (cases data) (simp_all add: glookup_def)

lemma as_map_present: "as_map v = Some m \<Longrightarrow> v \<noteq> None"
  by (auto simp: as_map_def split: option.splits)

definition artifacts_value :: "json option \<Rightarrow> json option" where
  "artifacts_value v =
     map_option (\<lambda>ma. of_map (GoMap (AList.update ''name'' (JStr llama_name)
        (AList.update ''uri'' (JStr (''hf://'' @ llama_name)) (entries ma))))) (as_map v)"

definition is_vllm :: "json \<Rightarrow> bool" where
  "is_vllm c = (case as_map (Some c) of None \<Rightarrow> False | Some m \<Rightarrow> glookup m ''name'' = Some (JStr ''vllm''))"

definition with_args :: "json list \<Rightarrow> json \<Rightarrow> json" where
  "with_args args c =
     (case as_map (Some c) of None \<Rightarrow> c
      | Some m \<Rightarrow> of_map (GoMap (AList.update ''args'' (JArr args) (entries m))))"

definition first_vllm :: "json list \<Rightarrow> json list \<Rightarrow> json list" where
  "first_vllm args cs =
     (case dropWhile (\<lambda>c. \<not> is_vllm c) cs of
        [] \<Rightarrow> cs
      | c # cs' \<Rightarrow> takeWhile (\<lambda>c. \<not> is_vllm c) cs @ with_args args c # cs')"

lemma first_vllm_simps [simp]:
  "first_vllm args [] = []"
  "first_vllm args (c # cs) = (if is_vllm c then with_args args c # cs else c # first_vllm args cs)"
  by (simp add: first_vllm_def)
     (cases "dropWhile (\<lambda>c. \<not> is_vllm c) cs"; simp add: first_vllm_def del: dropWhile_eq_Nil_conv)

definition section_value :: "json list \<Rightarrow> json option \<Rightarrow> json option" where
  "section_value args v =
     do { sec \<leftarrow> as_map v;
          cs \<leftarrow> as_array (glookup sec ''containers'');
          if \<exists>c \<in> set cs. is_vllm c
          then Some (of_map (GoMap (AList.update ''containers'' (JArr (first_vllm args cs)) (entries sec))))
          else None }"

lemma set_vllm_args_eq:
  "set_vllm_args args cs = Some (if \<exists>c \<in> set cs. is_vllm c then Some (first_vllm args cs) else None)"
proof (induction cs)
  case (Cons c cs)
  show ?case
  proof (cases "as_map (Some c)")
    case (Some m)
    with as_map_GoMap [OF Some] Cons show ?thesis
      by (auto simp: is_vllm_def with_args_def)
  qed (use Cons in \<open>simp add: is_vllm_def\<close>)
qed simp

lemma set_artifacts_eq:
  "\<exists>out. set_artifacts data = Some (edit_at ''modelArtifacts'' artifacts_value data, out)"
proof (cases "as_map (glookup data ''modelArtifacts'')")
  case (Some ma)
  with as_map_GoMap [OF Some] gset_present [OF as_map_present [OF Some]] show ?thesis
    by (auto simp: set_artifacts_def edit_at_def artifacts_value_def)
qed (simp add: set_artifacts_def edit_at_def artifacts_value_def)

lemma customizeVLLMContainer_eq:
  "\<exists>out. customizeVLLMContainer data sect args = Some (edit_at sect (section_value args) data, out)"
proof (cases "as_map (glookup data sect)")
  case sec: (Some sec)
  show ?thesis
  proof (cases "as_array (glookup sec ''containers'')")
    case (Some cs)
    with sec as_map_GoMap [OF sec] gset_present [OF as_map_present [OF sec]] show ?thesis
      by (auto simp: customizeVLLMContainer_def edit_at_def section_value_def set_vllm_args_eq)
  qed (use sec in \<open>simp add: customizeVLLMContainer_def edit_at_def section_value_def\<close>)
qed (simp add: customizeVLLMContainer_def edit_at_def section_value_def)

section \<open>Editing again changes nothing\<close>

lemma artifacts_value_again: "artifacts_value v = Some w \<Longrightarrow> artifacts_value (Some w) = Some w"
proof -
  assume "artifacts_value v = Some w"
  then obtain ma where ma: "as_map v = Some ma" and w: "w = of_map (GoMap (AList.update ''name''
      (JStr llama_name) (AList.update ''uri'' (JStr (''hf://'' @ llama_name)) (entries ma))))"
    by (auto simp: artifacts_value_def)
  let ?al = "AList.update ''name'' (JStr llama_name) (AList.update ''uri'' (JStr (''hf://'' @ llama_name)) (entries ma))"
  from as_map_GoMap [OF ma] have "distinct (map fst ?al)" by (auto simp: distinct_update)
  from as_map_of_map [OF this] w have a: "as_map (Some w) = Some (GoMap ?al)" by simp
  have "AList.update ''uri'' (JStr (''hf://'' @ llama_name)) ?al = ?al"
    "AList.update ''name'' (JStr llama_name) ?al = ?al"
    by (rule update_same, simp add: update_conv')+
  with a w show ?thesis by (simp add: artifacts_value_def)
qed

lemma with_args_again:
  assumes "is_vllm c"
  shows "is_vllm (with_args args c)" and "with_args args (with_args args c) = with_args args c"
proof -
  from assms obtain m where m: "as_map (Some c) = Some m" "glookup m ''name'' = Some (JStr ''vllm'')"
    by (auto simp: is_vllm_def split: option.splits)
  from as_map_GoMap [OF m(1)] obtain al where al: "m = GoMap al" "distinct (map fst al)" by blast
  let ?al = "AList.update ''args'' (JArr args) al"
  have e: "with_args args c = JObj ?al" using m(1) al by (simp add: with_args_def)
  have a: "as_map (Some (JObj ?al)) = Some (GoMap ?al)"
    using al as_map_of_map [of ?al] by (simp add: distinct_update)
  from m(2) al show "is_vllm (with_args args c)"
    by (simp add: e is_vllm_def a glookup_def update_conv')
  have "AList.update ''args'' (JArr args) ?al = ?al" by (rule update_same) (simp add: update_conv')
  then show "with_args args (with_args args c) = with_args args c"
    by (simp add: e) (simp add: with_args_def a)
qed

lemma first_vllm_again:
  "\<exists>c \<in> set cs. is_vllm c \<Longrightarrow>
     (\<exists>c \<in> set (first_vllm args cs). is_vllm c) \<and> first_vllm args (first_vllm args cs) = first_vllm args cs"
  by (induction cs) (auto simp: with_args_again)

lemma section_value_again: "section_value args v = Some w \<Longrightarrow> section_value args (Some w) = Some w"
proof -
  assume "section_value args v = Some w"
  then obtain sec cs where sec: "as_map v = Some sec" and cs: "as_array (glookup sec ''containers'') = Some cs"
      and ex: "\<exists>c \<in> set cs. is_vllm c"
      and w: "w = of_map (GoMap (AList.update ''containers'' (JArr (first_vllm args cs)) (entries sec)))"
    by (auto simp: section_value_def bind_eq_Some_conv split: if_splits)
  let ?al = "AList.update ''containers'' (JArr (first_vllm args cs)) (entries sec)"
  from as_map_GoMap [OF sec] have "distinct (map fst ?al)" by (auto simp: distinct_update)
  from as_map_of_map [OF this] w have a: "as_map (Some w) = Some (GoMap ?al)" by simp
  moreover have "AList.update ''containers'' (JArr (first_vllm args cs)) ?al = ?al"
    by (rule update_same) (simp add: update_conv')
  moreover have "as_array (glookup (GoMap ?al) ''containers'') = Some (first_vllm args cs)"
    by (simp add: glookup_def update_conv' as_array_def)
  ultimately show ?thesis
    using first_vllm_again [OF ex, of args] w by (simp add: section_value_def)
qed

section \<open>The edit of a model service\<close>

definition edited_service :: "(string, json) gomap \<Rightarrow> (string, json) gomap" where
  "edited_service data =
     edit_at ''prefill'' (section_value loraArgs)
       (edit_at ''decode'' (section_value loraArgs) (edit_at ''modelArtifacts'' artifacts_value data))"

lemma model_service_edit_eq: "\<exists>out. model_service_edit data = Some (edited_service data, out)"
proof -
  obtain o1 where 1: "set_artifacts data = Some (edit_at ''modelArtifacts'' artifacts_value data, o1)"
    using set_artifacts_eq by blast
  let ?d1 = "edit_at ''modelArtifacts'' artifacts_value data"
  obtain o2 where 2: "customizeVLLMContainer ?d1 ''decode'' loraArgs
      = Some (edit_at ''decode'' (section_value loraArgs) ?d1, o2)"
    using customizeVLLMContainer_eq by blast
  obtain o3 where "customizeVLLMContainer (edit_at ''decode'' (section_value loraArgs) ?d1) ''prefill'' loraArgs
      = Some (edited_service data, o3)"
    unfolding edited_service_def using customizeVLLMContainer_eq by blast
  with 1 2 show ?thesis by (simp add: model_service_edit_def)
qed

lemma edited_service_lookup:
  "glookup (edited_service data) k =
     (let f = (if k = ''modelArtifacts'' then artifacts_value
               else if k = ''decode'' \<or> k = ''prefill'' then section_value loraArgs else (\<lambda>_. None))
      in case f (glookup data k) of None \<Rightarrow> glookup data k | Some v \<Rightarrow> Some v)"
  by (cases "k = ''modelArtifacts''"; cases "k = ''decode''"; cases "k = ''prefill''";
      simp add: edited_service_def glookup_edit_at Let_def cong: option.case_cong)

lemma edited_service_again: "edited_service (edited_service data) = edited_service data"
proof -
  let ?d = "edited_service data"
  have "settled artifacts_value (glookup ?d ''modelArtifacts'')"
    using settled_edit_at [of artifacts_value "''modelArtifacts''" data] artifacts_value_again
    by (simp add: edited_service_lookup glookup_edit_at)
  moreover have "settled (section_value loraArgs) (glookup ?d ''decode'')"
    using settled_edit_at [of "section_value loraArgs" "''decode''" data] section_value_again
    by (simp add: edited_service_lookup glookup_edit_at)
  moreover have "settled (section_value loraArgs) (glookup ?d ''prefill'')"
    using settled_edit_at [of "section_value loraArgs" "''prefill''" data] section_value_again
    by (simp add: edited_service_lookup glookup_edit_at)
  ultimately have "edit_at ''modelArtifacts'' artifacts_value ?d = ?d"
      "edit_at ''decode'' (section_value loraArgs) ?d = ?d"
      "edit_at ''prefill'' (section_value loraArgs) ?d = ?d"
    by (simp_all add: edit_at_settled)
  then show ?thesis by (subst edited_service_def) simp
qed

text \<open>What the edit makes of the values under its keys.\<close>

lemma edited_artifacts:
  assumes "as_map (glookup data ''modelArtifacts'') = Some ma"
  obtains ma' where "as_map (glookup (edited_service data) ''modelArtifacts'') = Some ma'"
    "glookup ma' ''uri'' = Some (JStr (''hf://'' @ llama_name))" "glookup ma' ''name'' = Some (JStr llama_name)"
    "\<And>k. k \<noteq> ''uri'' \<Longrightarrow> k \<noteq> ''name'' \<Longrightarrow> glookup ma' k = glookup ma k"
proof -
  from as_map_GoMap [OF assms] obtain al where al: "ma = GoMap al" "distinct (map fst al)" by blast
  let ?al = "AList.update ''name'' (JStr llama_name) (AList.update ''uri'' (JStr (''hf://'' @ llama_name)) al)"
  have "as_map (Some (of_map (GoMap ?al))) = Some (GoMap ?al)"
    by (rule as_map_of_map) (simp add: distinct_update al)
  then have "as_map (glookup (edited_service data) ''modelArtifacts'') = Some (GoMap ?al)"
    by (simp add: edited_service_lookup artifacts_value_def assms al)
  then show ?thesis using that by (simp add: glookup_def update_conv' al)
qed

lemma edited_section:
  assumes "sect = ''decode'' \<or> sect = ''prefill''" and "as_map (glookup data sect) = Some sec"
    and "as_array (glookup sec ''containers'') = Some cs"
  obtains sec' where "as_map (glookup (edited_service data) sect) = Some sec'"
    "as_array (glookup sec' ''containers'') = Some (first_vllm loraArgs cs)"
    "\<And>k. k \<noteq> ''containers'' \<Longrightarrow> glookup sec' k = glookup sec k"
proof (cases "\<exists>c \<in> set cs. is_vllm c")
  case True
  from as_map_GoMap [OF assms(2)] obtain al where al: "sec = GoMap al" "distinct (map fst al)" by blast
  let ?al = "AList.update ''containers'' (JArr (first_vllm loraArgs cs)) al"
  have "as_map (Some (of_map (GoMap ?al))) = Some (GoMap ?al)"
    by (rule as_map_of_map) (simp add: distinct_update al)
  then have "as_map (glookup (edited_service data) sect) = Some (GoMap ?al)"
    using True assms by (auto simp: edited_service_lookup section_value_def Let_def al)
  then show ?thesis using that by (simp add: glookup_def update_conv' al as_array_def)
next
  case False
  then have "first_vllm loraArgs cs = cs" by (induction cs) auto
  moreover have "glookup (edited_service data) sect = glookup data sect"
    using False assms by (auto simp: edited_service_lookup section_value_def Let_def)
  ultimately show ?thesis using that assms(2,3) by simp
qed

lemma nth_first_vllm:
  "i < length cs \<Longrightarrow> first_vllm args cs ! i =
     (if is_vllm (cs ! i) \<and> (\<forall>j < i. \<not> is_vllm (cs ! j)) then with_args args (cs ! i) else cs ! i)"
proof (induction cs arbitrary: i)
  case (Cons c cs)
  then show ?case by (cases i) (auto simp: All_less_Suc2)
qed simp

lemma length_first_vllm [simp]: "length (first_vllm args cs) = length cs"
  by (induction cs) auto

text \<open>Values of another shape than the edit expects stay as they are.\<close>

lemma edited_other_artifacts:
  "as_map (glookup data ''modelArtifacts'') = None \<Longrightarrow>
     glookup (edited_service data) ''modelArtifacts'' = glookup data ''modelArtifacts''"
  by (simp add: edited_service_lookup artifacts_value_def)

lemma edited_other_section:
  assumes "sect \<in> {''decode'', ''prefill''}"
    and "\<forall>sec. as_map (glookup data sect) = Some sec \<longrightarrow> as_array (glookup sec ''containers'') = None"
  shows "glookup (edited_service data) sect = glookup data sect"
proof -
  have "section_value loraArgs (glookup data sect) = None"
    using assms(2) by (cases "as_map (glookup data sect)") (simp_all add: section_value_def)
  with assms(1) show ?thesis by (auto simp: edited_service_lookup)
qed

text \<open>A container with new arguments: the same map but for the one key.\<close>

lemma with_args_container:
  assumes "as_map (Some c) = Some m"
  shows "\<exists>m'. as_map (Some (with_args args c)) = Some m' \<and> glookup m' ''args'' = Some (JArr args)
     \<and> (\<forall>k. k \<noteq> ''args'' \<longrightarrow> glookup m' k = glookup m k)"
proof -
  from as_map_GoMap [OF assms] obtain al where al: "m = GoMap al" "distinct (map fst al)" by blast
  let ?m' = "GoMap (AList.update ''args'' (JArr args) al)"
  have "as_map (Some (of_map ?m')) = Some ?m'" by (rule as_map_of_map) (simp add: distinct_update al)
  then have "as_map (Some (with_args args c)) = Some ?m'" by (simp add: with_args_def assms al)
  then show ?thesis by (simp add: glookup_def update_conv' al)
qed

section \<open>Files\<close>

lemma writeYAML_done:
  assumes "writeYAML Y f data d = (None, out, d')" and "disk_conforms (cu_os Y) {f}"
  obtains content where "yaml_Marshal Y data = Inr content" "os_ReadFile (cu_os Y) d' f = Inr content"
  using assms disk_conforms_Write(1) [OF assms(2)]
  by (fastforce simp: writeYAML_def split: sum.splits prod.splits option.splits)

lemma writeYAML_disk:
  assumes "writeYAML Y f data d = (Some err, out, d')"
  shows "d' = d \<or> (\<exists>text e. os_WriteFile (cu_os Y) d f text 0x1A4 = (Some e, d'))"
  using assms by (auto simp: writeYAML_def split: sum.splits prod.splits option.splits)

lemma customizeGateway_eq:
  "customizeGateway Y f d = Some (case readYAML Y f d of
      Inl err \<Rightarrow> (Some err, [], d)
    | Inr data \<Rightarrow>
        if glookup data ''gateway'' = None then (Some (Errorf (''gateway key not found in '' @ f)), [], d)
        else writeYAML Y f (GoMap (AList.update ''gateway'' https_gateway (entries data))) d)"
  by (auto simp: customizeGateway_def gset_present split: sum.split)

lemma customizeModelService_eq:
  "\<exists>lines. customizeModelService Y f d = Some (case readYAML Y f d of
      Inl err \<Rightarrow> (Some err, [], d)
    | Inr data \<Rightarrow> (case writeYAML Y f (edited_service data) d of (err, out, d') \<Rightarrow> (err, lines @ out, d')))"
proof (cases "readYAML Y f d")
  case (Inr data)
  obtain out where "model_service_edit data = Some (edited_service data, out)"
    using model_service_edit_eq by blast
  with Inr show ?thesis by (intro exI [of _ out]) (simp add: customizeModelService_def split: prod.split)
qed (simp add: customizeModelService_def)

end
