(* ===== verification/Runnable.thy ===== *)
theory Runnable
  imports Rego
begin

text \<open>
  \<open>pkg/runnable\<close>: the gRPC server as a runnable of the manager, and whether a runnable waits for
  leader election. Listening and serving are the operating system's and the gRPC library's; what
  they return is an argument of the transitions.
\<close>

section \<open>Serving\<close>

text \<open>The \<open>%d\<close> verb.\<close>

definition itoa :: "int \<Rightarrow> string" where
  "itoa i = (if i < 0 then ''-'' @ nat_lit (nat (- i)) else nat_lit (nat i))"

text \<open>
  The function is listening, serving or done; the goroutine that it starts before it serves has not
  been started, waits for the end of the context, or has called \<open>GracefulStop\<close>.
\<close>

datatype grpc_place = Listening | Serving | Returned "goerror option"

datatype grpc_waiter = Unstarted | AwaitsDone | StopCalled

record grpc_state =
  gs_place :: grpc_place
  gs_waiter :: grpc_waiter
  gs_ended :: bool

text \<open>
  What may happen, in any order: \<open>Listen\<close> and \<open>Serve\<close> return, the context ends, the goroutine is
  scheduled. A receive from \<open>Done\<close> blocks until the context has ended.
\<close>

datatype grpc_event = Listened "goerror option" | Served "goerror option" | Cancelled | Scheduled

fun GRPCServer_step :: "string \<Rightarrow> int \<Rightarrow> grpc_state \<Rightarrow> grpc_event \<Rightarrow> grpc_state" where
  "GRPCServer_step name port st (Listened r) =
     (if gs_place st = Listening then
        (case r of
           Some err \<Rightarrow> st\<lparr>gs_place := Returned (Some (Wrap (''failed to listen on port '' @ itoa port @ '': '') err))\<rparr>
         | None \<Rightarrow> st\<lparr>gs_place := Serving, gs_waiter := AwaitsDone\<rparr>)
      else st)"
| "GRPCServer_step name port st (Served r) =
     (if gs_place st = Serving then
        (case r of
           Some err \<Rightarrow> st\<lparr>gs_place := Returned (Some (Wrap (''gRPC server '' @ name @ '' failed: '') err))\<rparr>
         | None \<Rightarrow> st\<lparr>gs_place := Returned None\<rparr>)
      else st)"
| "GRPCServer_step name port st Cancelled = st\<lparr>gs_ended := True\<rparr>"
| "GRPCServer_step name port st Scheduled =
     (if gs_waiter st = AwaitsDone \<and> gs_ended st then st\<lparr>gs_waiter := StopCalled\<rparr> else st)"

definition GRPCServer_start :: grpc_state where
  "GRPCServer_start = \<lparr>gs_place = Listening, gs_waiter = Unstarted, gs_ended = False\<rparr>"

definition GRPCServer :: "string \<Rightarrow> int \<Rightarrow> grpc_event list \<Rightarrow> grpc_state" where
  "GRPCServer name port es = foldl (GRPCServer_step name port) GRPCServer_start es"

text \<open>
  The library documents that \<open>Serve\<close> returns nil only once \<open>Stop\<close> or \<open>GracefulStop\<close> was called on
  the server. It knows nothing of the context: whether \<open>GracefulStop\<close> was called is read off the
  program's state.
\<close>

fun serve_documented :: "string \<Rightarrow> int \<Rightarrow> grpc_state \<Rightarrow> grpc_event list \<Rightarrow> bool" where
  "serve_documented name port st [] = True"
| "serve_documented name port st (e # es) =
     ((e = Served None \<longrightarrow> gs_place st = Serving \<longrightarrow> gs_waiter st = StopCalled)
      \<and> serve_documented name port (GRPCServer_step name port st e) es)"

text \<open>\<open>GracefulStop\<close> is called after the end of the context only, and nil returned after that call.\<close>

definition grpc_inv :: "grpc_state \<Rightarrow> bool" where
  "grpc_inv st \<longleftrightarrow> (gs_waiter st = StopCalled \<longrightarrow> gs_ended st)
     \<and> (gs_place st = Returned None \<longrightarrow> gs_waiter st = StopCalled)
     \<and> (gs_place st = Serving \<longrightarrow> gs_waiter st \<noteq> Unstarted)"

lemma grpc_inv_start: "grpc_inv GRPCServer_start"
  by (simp add: grpc_inv_def GRPCServer_start_def)

lemma grpc_inv_step:
  assumes "grpc_inv st" and "e = Served None \<longrightarrow> gs_place st = Serving \<longrightarrow> gs_waiter st = StopCalled"
  shows "grpc_inv (GRPCServer_step name port st e)"
  using assms by (cases e) (auto simp: grpc_inv_def split: option.split)

lemma grpc_inv_run:
  "serve_documented name port st es \<Longrightarrow> grpc_inv st \<Longrightarrow> grpc_inv (foldl (GRPCServer_step name port) st es)"
  by (induction es arbitrary: st) (simp_all add: grpc_inv_step)

lemma grpc_inv_GRPCServer:
  "serve_documented name port GRPCServer_start es \<Longrightarrow> grpc_inv (GRPCServer name port es)"
  by (simp add: GRPCServer_def grpc_inv_run grpc_inv_start)

lemma GRPCServer_snoc:
  "GRPCServer name port (es @ [e]) = GRPCServer_step name port (GRPCServer name port es) e"
  by (simp add: GRPCServer_def)

lemma gs_ended_iff: "gs_ended (GRPCServer name port es) \<longleftrightarrow> Cancelled \<in> set es"
proof (induction es rule: rev_induct)
  case (snoc e es)
  then show ?case by (cases e) (auto simp: GRPCServer_snoc split: option.split)
qed (simp add: GRPCServer_def GRPCServer_start_def)

text \<open>An error that the function returns is that of \<open>Listen\<close> or of \<open>Serve\<close>, with the place it came from.\<close>

lemma error_origin:
  "gs_place (GRPCServer name port es) = Returned (Some err) \<Longrightarrow>
     \<exists>e. err = Wrap (''failed to listen on port '' @ itoa port @ '': '') e \<and> Listened (Some e) \<in> set es
       \<or> err = Wrap (''gRPC server '' @ name @ '' failed: '') e \<and> Served (Some e) \<in> set es"
proof (induction es rule: rev_induct)
  case (snoc e es)
  show ?case
  proof (cases "gs_place (GRPCServer name port es) = Returned (Some err)")
    case False
    with snoc.prems show ?thesis
      by (cases e) (auto simp: GRPCServer_snoc split: option.splits if_splits)
  qed (use snoc.IH in auto)
qed (simp add: GRPCServer_def GRPCServer_start_def)

section \<open>Leader election\<close>

text \<open>
  The manager starts a runnable on the leader only, unless its \<open>NeedLeaderElection\<close> says
  otherwise; controllers have none, and wait.
\<close>

datatype runnable = Plain | NoLeaderElection_of runnable

definition NoLeaderElection :: "runnable \<Rightarrow> runnable" where
  "NoLeaderElection r = NoLeaderElection_of r"

fun NeedLeaderElection :: "runnable \<Rightarrow> bool" where
  "NeedLeaderElection Plain = True"
| "NeedLeaderElection (NoLeaderElection_of r) = False"

end
