(* ===== verification/Flags.thy ===== *)
theory Flags
  imports Startup Runnable
begin

text \<open>
  The command line of \<open>cmd/secure-inference/main.go\<close>: the \<open>flag\<close> package of the standard library, the
  flags that the program defines, and the process from its arguments to its exit code. Flags that
  imported packages define (those of the log and of the Kubernetes client) are an argument.
\<close>

section \<open>Booleans and integers\<close>

definition ParseBool :: "string \<Rightarrow> bool option" where
  "ParseBool s =
     (if s \<in> {''1'', ''t'', ''T'', ''TRUE'', ''true'', ''True''} then Some True
      else if s \<in> {''0'', ''f'', ''F'', ''FALSE'', ''false'', ''False''} then Some False
      else None)"

datatype num_error = ErrSyntax | ErrRange

text \<open>\<open>c | 0x20\<close>, on ASCII letters.\<close>

definition lower :: "char \<Rightarrow> nat" where
  "lower c = (if 65 \<le> byte c \<and> byte c \<le> 90 then byte c + 32 else byte c)"

definition digit_of :: "char \<Rightarrow> nat option" where
  "digit_of c =
     (if 48 \<le> byte c \<and> byte c \<le> 57 then Some (byte c - 48)
      else if 97 \<le> lower c \<and> lower c \<le> 122 then Some (lower c - 97 + 10)
      else None)"

text \<open>
  The digits from left to right: \<open>acc\<close> is the number so far. It overflows as soon as it does not
  fit 64 bits, whatever follows. The result says whether there were underscores.
\<close>

fun uint_digits :: "nat \<Rightarrow> string \<Rightarrow> nat \<Rightarrow> bool \<Rightarrow> num_error + nat \<times> bool" where
  "uint_digits base [] acc u = Inr (acc, u)"
| "uint_digits base (c # s) acc u =
     (if c = CHR ''_'' then uint_digits base s acc True
      else case digit_of c of
        None \<Rightarrow> Inl ErrSyntax
      | Some d \<Rightarrow>
          if base \<le> d then Inl ErrSyntax
          else if 2 ^ 64 \<le> acc * base + d then Inl ErrRange
          else uint_digits base s (acc * base + d) u)"

text \<open>The base that a prefix sets, and the digits after it.\<close>

fun base_prefix :: "string \<Rightarrow> nat \<times> string" where
  "base_prefix (z # c # d # s) =
     (if z \<noteq> CHR ''0'' then (10, z # c # d # s)
      else if lower c = 98 then (2, d # s)
      else if lower c = 111 then (8, d # s)
      else if lower c = 120 then (16, d # s)
      else (8, c # d # s))"
| "base_prefix (z # s) = (if z = CHR ''0'' then (8, s) else (10, z # s))"
| "base_prefix [] = (10, [])"

text \<open>Underscores may stand between digits, or between the prefix and the digits.\<close>

datatype seen = Nothing | Digit | Underscore | Other

fun underscores_ok :: "bool \<Rightarrow> string \<Rightarrow> seen \<Rightarrow> bool" where
  "underscores_ok hex [] saw \<longleftrightarrow> saw \<noteq> Underscore"
| "underscores_ok hex (c # s) saw \<longleftrightarrow>
     (if 48 \<le> byte c \<and> byte c \<le> 57 \<or> hex \<and> 97 \<le> lower c \<and> lower c \<le> 102 then underscores_ok hex s Digit
      else if c = CHR ''_'' then saw = Digit \<and> underscores_ok hex s Underscore
      else saw \<noteq> Underscore \<and> underscores_ok hex s Other)"

definition underscoreOK :: "string \<Rightarrow> bool" where
  "underscoreOK s =
     (case s of
        z # c # t \<Rightarrow>
          if z = CHR ''0'' \<and> (lower c = 98 \<or> lower c = 111 \<or> lower c = 120)
          then underscores_ok (lower c = 120) t Digit else underscores_ok False s Nothing
      | _ \<Rightarrow> underscores_ok False s Nothing)"

definition ParseUint :: "string \<Rightarrow> num_error + nat" where
  "ParseUint s =
     (if s = [] then Inl ErrSyntax
      else case base_prefix s of (base, ds) \<Rightarrow>
        (case uint_digits base ds 0 False of
           Inl e \<Rightarrow> Inl e
         | Inr (n, u) \<Rightarrow> if u \<and> \<not> underscoreOK s then Inl ErrSyntax else Inr n))"

definition ParseInt :: "string \<Rightarrow> num_error + int" where
  "ParseInt s =
     (let neg = (case s of c # _ \<Rightarrow> c = CHR ''-'' | [] \<Rightarrow> False);
          t = (case s of c # t \<Rightarrow> if c = CHR ''+'' \<or> c = CHR ''-'' then t else s | [] \<Rightarrow> s)
      in case ParseUint t of
           Inl e \<Rightarrow> Inl e
         | Inr n \<Rightarrow> if \<not> neg \<and> 2 ^ 63 \<le> n \<or> neg \<and> 2 ^ 63 < n then Inl ErrRange
                    else Inr (if neg then - int n else int n))"

section \<open>The flag package\<close>

text \<open>A flag: whether it is boolean, and how it is set.\<close>

type_synonym 'v flag = "bool \<times> (string \<Rightarrow> 'v \<Rightarrow> 'v result)"

definition string_flag :: "(string \<Rightarrow> 'v \<Rightarrow> 'v) \<Rightarrow> 'v flag" where
  "string_flag put = (False, \<lambda>s v. Inr (put s v))"

definition int_flag :: "(int \<Rightarrow> 'v \<Rightarrow> 'v) \<Rightarrow> 'v flag" where
  "int_flag put = (False, \<lambda>s v. case ParseInt s of
       Inl ErrSyntax \<Rightarrow> Inl (Errorf ''parse error'') | Inl ErrRange \<Rightarrow> Inl (Errorf ''value out of range'')
     | Inr i \<Rightarrow> Inr (put i v))"

definition bool_flag :: "(bool \<Rightarrow> 'v \<Rightarrow> 'v) \<Rightarrow> 'v flag" where
  "bool_flag put = (True, \<lambda>s v. case ParseBool s of
       None \<Rightarrow> Inl (Errorf ''parse error'') | Some b \<Rightarrow> Inr (put b v))"

text \<open>What one argument is: one or two hyphens, a name, and a value after an equals sign.\<close>

datatype arg = Positional | Terminator | BadSyntax | Named string "string option"

definition named :: "string \<Rightarrow> arg" where
  "named s =
     (case s of [] \<Rightarrow> BadSyntax
      | c # _ \<Rightarrow>
          if c = CHR ''-'' \<or> c = CHR ''='' then BadSyntax
          else (case dropWhile (\<lambda>c. c \<noteq> CHR ''='') s of
                  [] \<Rightarrow> Named s None
                | _ # v \<Rightarrow> Named (takeWhile (\<lambda>c. c \<noteq> CHR ''='') s) (Some v)))"

definition classify :: "string \<Rightarrow> arg" where
  "classify s =
     (case s of
        a # b # t \<Rightarrow>
          if a \<noteq> CHR ''-'' then Positional
          else if b = CHR ''-'' then (if t = [] then Terminator else named t)
          else named (b # t)
      | _ \<Rightarrow> Positional)"

datatype 'v parsed = Parsed 'v "string list" | HelpAsked | FlagError goerror

text \<open>
  \<open>Parse\<close> stops at the first argument that is not a flag. A boolean flag never takes the next
  argument as its value.
\<close>

definition bool_error :: "(nat \<Rightarrow> bool) \<Rightarrow> string \<Rightarrow> string option \<Rightarrow> goerror \<Rightarrow> goerror" where
  "bool_error isprint name value e =
     (case value of
        None \<Rightarrow> Errorf (''invalid boolean flag '' @ name @ '': '' @ Error e)
      | Some x \<Rightarrow> Errorf (''invalid boolean value '' @ go_quote isprint x @ '' for -'' @ name @ '': '' @ Error e))"

definition value_error :: "(nat \<Rightarrow> bool) \<Rightarrow> string \<Rightarrow> string \<Rightarrow> goerror \<Rightarrow> goerror" where
  "value_error isprint name x e =
     Errorf (''invalid value '' @ go_quote isprint x @ '' for flag -'' @ name @ '': '' @ Error e)"

fun Parse :: "(nat \<Rightarrow> bool) \<Rightarrow> (string \<Rightarrow> 'v flag option) \<Rightarrow> string list \<Rightarrow> 'v \<Rightarrow> 'v parsed" where
  "Parse isprint formal [] v = Parsed v []"
| "Parse isprint formal (s # args) v =
     (case classify s of
        Positional \<Rightarrow> Parsed v (s # args)
      | Terminator \<Rightarrow> Parsed v args
      | BadSyntax \<Rightarrow> FlagError (Errorf (''bad flag syntax: '' @ s))
      | Named name value \<Rightarrow>
          (case formal name of
             None \<Rightarrow> if name = ''help'' \<or> name = ''h'' then HelpAsked
                     else FlagError (Errorf (''flag provided but not defined: -'' @ name))
           | Some (True, put) \<Rightarrow>
               (case put (case value of None \<Rightarrow> ''true'' | Some x \<Rightarrow> x) v of
                  Inl e \<Rightarrow> FlagError (bool_error isprint name value e)
                | Inr w \<Rightarrow> Parse isprint formal args w)
           | Some (False, put) \<Rightarrow>
               (case value of
                  Some x \<Rightarrow>
                    (case put x v of
                       Inl e \<Rightarrow> FlagError (value_error isprint name x e)
                     | Inr w \<Rightarrow> Parse isprint formal args w)
                | None \<Rightarrow>
                    (case args of
                       [] \<Rightarrow> FlagError (Errorf (''flag needs an argument: -'' @ name))
                     | x # rest \<Rightarrow>
                         (case put x v of
                            Inl e \<Rightarrow> FlagError (value_error isprint name x e)
                          | Inr w \<Rightarrow> Parse isprint formal rest w)))))"

section \<open>The process\<close>

record 'z options =
  opt_configPath :: string
  opt_authPort :: int
  opt_metricsAddr :: string
  opt_healthAddr :: string
  opt_enableLeaderElection :: bool
  opt_others :: 'z

definition main_flags :: "(string \<Rightarrow> 'z flag option) \<Rightarrow> string \<Rightarrow> 'z options flag option" where
  "main_flags others name =
     (if name = ''config'' then Some (string_flag (\<lambda>s v. v\<lparr>opt_configPath := s\<rparr>))
      else if name = ''auth-port'' then Some (int_flag (\<lambda>i v. v\<lparr>opt_authPort := i\<rparr>))
      else if name = ''metrics-bind-address'' then Some (string_flag (\<lambda>s v. v\<lparr>opt_metricsAddr := s\<rparr>))
      else if name = ''health-probe-bind-address'' then Some (string_flag (\<lambda>s v. v\<lparr>opt_healthAddr := s\<rparr>))
      else if name = ''leader-elect'' then Some (bool_flag (\<lambda>b v. v\<lparr>opt_enableLeaderElection := b\<rparr>))
      else map_option (\<lambda>(b, put). (b, \<lambda>s v. map_sum (\<lambda>e. e) (\<lambda>z. v\<lparr>opt_others := z\<rparr>) (put s (opt_others v))))
             (others name))"

definition default_options :: "'z \<Rightarrow> 'z options" where
  "default_options z =
     \<lparr>opt_configPath = [], opt_authPort = 9000, opt_metricsAddr = '':8080'', opt_healthAddr = '':8081'',
      opt_enableLeaderElection = False, opt_others = z\<rparr>"

text \<open>
  The process exits early, or it starts the manager: then it has a server on a port and the
  replica's part in the leader election. When the manager ends, so does the process.
\<close>

datatype 'z process = Exits int | Serves "'z options" "memory ExtAuthzServer" memory

definition main_process :: "'k env \<Rightarrow> (string \<Rightarrow> 'z flag option) \<Rightarrow> 'z \<Rightarrow> string list \<Rightarrow> 'z process" where
  "main_process V others z args =
     (case Parse (env_isprint V) (main_flags others) args (default_options z) of
        HelpAsked \<Rightarrow> Exits 0
      | FlagError e \<Rightarrow> Exits 2
      | Parsed opts rest \<Rightarrow>
          (case startup V (opt_configPath opts) of
             Inl err \<Rightarrow> Exits 1
           | Inr (srv, s0) \<Rightarrow> Serves opts srv s0))"

definition auth_server :: "'z options \<Rightarrow> grpc_event list \<Rightarrow> grpc_state" where
  "auth_server opts = GRPCServer ''ext-auth'' (opt_authPort opts)"

definition exit_code :: "goerror option \<Rightarrow> int" where
  "exit_code r = (if r \<noteq> None then 1 else 0)"

section \<open>Numbers and arguments as they are printed\<close>

lemma digit_of_chr: "d < 10 \<Longrightarrow> digit_of (chr (48 + d)) = Some d"
  by (simp add: digit_of_def byte_chr)

lemma digit_chr_neq:
  assumes "d < 10" and "byte c < 48 \<or> 57 < byte c"
  shows "chr (48 + d) \<noteq> c"
proof
  assume "chr (48 + d) = c"
  then have "byte c = 48 + d" using assms(1) byte_chr [of "48 + d"] by auto
  with assms show False by auto
qed

lemma uint_digits_print:
  "n < 2 ^ 64 \<Longrightarrow> uint_digits 10 (nat_lit n @ t) 0 u = uint_digits 10 t n u"
proof (induction n arbitrary: t rule: nat_lit.induct)
  case (1 n)
  have sep: "chr (48 + d) \<noteq> CHR ''_''" if "d < 10" for d
    by (rule digit_chr_neq [OF that]) (simp add: byte_def)
  show ?case
  proof (cases "n < 10")
    case True
    then show ?thesis
      using 1(2) sep [OF True] by (simp add: nat_lit.simps [of n] digit_of_chr)
  next
    case False
    have d: "n mod 10 < 10" and le: "\<not> 10 \<le> n mod 10" by simp_all
    have "uint_digits 10 (nat_lit n @ t) 0 u = uint_digits 10 (nat_lit (n div 10) @ chr (48 + n mod 10) # t) 0 u"
      using False by (simp add: nat_lit.simps [of n])
    also have "\<dots> = uint_digits 10 (chr (48 + n mod 10) # t) (n div 10) u"
      using 1(1) [OF False] 1(2) by simp
    also have "\<dots> = uint_digits 10 t n u"
      using sep [OF d] digit_of_chr [OF d] 1(2) le by simp
    finally show ?thesis .
  qed
qed

lemma nat_lit_first: "0 < n \<Longrightarrow> \<exists>d s. nat_lit n = chr (48 + d) # s \<and> 0 < d \<and> d < 10"
proof (induction n rule: nat_lit.induct)
  case (1 n)
  show ?case
  proof (cases "n < 10")
    case True
    with 1(2) show ?thesis by (auto simp: nat_lit.simps [of n])
  next
    case False
    then have "0 < n div 10" by simp
    from 1(1) [OF False this] False show ?thesis by (auto simp: nat_lit.simps [of n])
  qed
qed

lemma base_prefix_print: "0 < n \<Longrightarrow> base_prefix (nat_lit n) = (10, nat_lit n)"
proof -
  assume "0 < n"
  then obtain d s where n: "nat_lit n = chr (48 + d) # s" "0 < d" "d < 10" using nat_lit_first by blast
  have "chr (48 + d) \<noteq> CHR ''0''"
  proof
    assume "chr (48 + d) = CHR ''0''"
    then have "byte (chr (48 + d)) = 48" by (simp add: byte_def)
    then show False using n(2,3) by (simp add: byte_chr)
  qed
  then show ?thesis unfolding n(1) by (cases s rule: base_prefix.cases; cases "tl s") auto
qed

lemma ParseUint_print: "n < 2 ^ 64 \<Longrightarrow> ParseUint (nat_lit n) = Inr n"
proof (cases n)
  case 0
  have "chr 48 = CHR ''0''" by (rule chr_byteI) (simp add: byte_def)
  with 0 show ?thesis by (simp add: ParseUint_def nat_lit.simps [of 0])
next
  case (Suc k)
  then have "nat_lit n \<noteq> []" using nat_lit_first [of n] by auto
  moreover assume "n < 2 ^ 64"
  ultimately show ?thesis
    using uint_digits_print [of n "[]" False] base_prefix_print [of n] Suc by (simp add: ParseUint_def)
qed

lemma ParseInt_print:
  assumes "- (2 ^ 63) \<le> i" and "i < 2 ^ 63"
  shows "ParseInt (itoa i) = Inr i"
proof (cases "i < 0")
  case True
  then have "nat (- i) < 2 ^ 64" "nat (- i) \<le> 2 ^ 63" using assms(1) by simp_all
  with True show ?thesis by (simp add: itoa_def ParseInt_def ParseUint_print)
next
  case False
  then have n: "nat i < 2 ^ 64" "nat i < 2 ^ 63" using assms(2) by simp_all
  obtain d s where lit: "nat_lit (nat i) = chr (48 + d) # s" "d < 10"
    using nat_lit_first [of "nat i"] nat_lit.simps [of 0] by (cases "nat i = 0") (fastforce intro: that [of 0])+
  have "chr (48 + d) \<noteq> CHR ''-''" "chr (48 + d) \<noteq> CHR ''+''"
    by (rule digit_chr_neq [OF lit(2)], simp add: byte_def)+
  then show ?thesis
    using False n ParseUint_print [OF n(1)] by (simp add: itoa_def ParseInt_def lit(1))
qed

text \<open>The argument \<open>--name=value\<close>.\<close>

lemma classify_print:
  assumes "name \<noteq> []" and "CHR ''='' \<notin> set name" and "hd name \<noteq> CHR ''-''"
  shows "classify (''--'' @ name @ ''='' @ value) = Named name (Some value)"
proof -
  obtain c s where n: "name = c # s" using assms(1) by (cases name) auto
  have "dropWhile (\<lambda>c. c \<noteq> CHR ''='') (name @ ''='' @ value) = ''='' @ value"
    "takeWhile (\<lambda>c. c \<noteq> CHR ''='') (name @ ''='' @ value) = name"
    using assms(2) by (simp_all add: dropWhile_append2 takeWhile_append2 dropWhile_append takeWhile_append)
  moreover have "c \<noteq> CHR ''=''" "c \<noteq> CHR ''-''" using assms(2,3) n by auto
  ultimately show ?thesis by (simp add: classify_def named_def n)
qed

section \<open>The chart\<close>

text \<open>
  The arguments that \<open>charts/secure-inference/templates/deployment.yaml\<close> renders from its values.
\<close>

definition chart_args :: "nat \<Rightarrow> nat \<Rightarrow> nat \<Rightarrow> bool \<Rightarrow> string list" where
  "chart_args authPort healthPort metricsPort leaderElection =
     [''--config=/etc/secure-inference/config.yaml'',
      ''--auth-port='' @ nat_lit authPort,
      ''--health-probe-bind-address=:'' @ nat_lit healthPort,
      ''--metrics-bind-address=:'' @ nat_lit metricsPort,
      ''--leader-elect='' @ (if leaderElection then ''true'' else ''false'')]"

lemma chart_args_named:
  "map classify (chart_args a h m l) =
     [Named ''config'' (Some ''/etc/secure-inference/config.yaml''),
      Named ''auth-port'' (Some (nat_lit a)),
      Named ''health-probe-bind-address'' (Some ('':'' @ nat_lit h)),
      Named ''metrics-bind-address'' (Some ('':'' @ nat_lit m)),
      Named ''leader-elect'' (Some (if l then ''true'' else ''false''))]"
  using classify_print [of "''config''" "''/etc/secure-inference/config.yaml''"]
    classify_print [of "''auth-port''" "nat_lit a"]
    classify_print [of "''health-probe-bind-address''" "'':'' @ nat_lit h"]
    classify_print [of "''metrics-bind-address''" "'':'' @ nat_lit m"]
    classify_print [of "''leader-elect''" "if l then ''true'' else ''false''"]
  by (simp add: chart_args_def)

definition chart_options :: "nat \<Rightarrow> nat \<Rightarrow> nat \<Rightarrow> bool \<Rightarrow> 'z \<Rightarrow> 'z options" where
  "chart_options a h m l z =
     \<lparr>opt_configPath = ''/etc/secure-inference/config.yaml'', opt_authPort = int a,
      opt_metricsAddr = '':'' @ nat_lit m, opt_healthAddr = '':'' @ nat_lit h,
      opt_enableLeaderElection = l, opt_others = z\<rparr>"

lemma chart_args_parse:
  assumes "a < 2 ^ 63"
  shows "Parse isprint (main_flags others) (chart_args a h m l) (default_options z)
       = Parsed (chart_options a h m l z) []"
proof -
  have "ParseInt (nat_lit a) = Inr (int a)"
    using ParseInt_print [of "int a"] assms by (simp add: itoa_def)
  moreover have "ParseBool (if l then ''true'' else ''false'') = Some l" by (simp add: ParseBool_def)
  ultimately show ?thesis
    using chart_args_named [of a h m l]
    by (simp add: chart_args_def main_flags_def string_flag_def int_flag_def bool_flag_def
        default_options_def chart_options_def)
qed

text \<open>
  A value that follows a boolean flag as an argument of its own is not its value: the flag is set,
  and no argument after it counts.
\<close>

lemma separate_boolean_value:
  "Parse isprint (main_flags others) (''--leader-elect'' # ''false'' # args) v
     = Parsed (v\<lparr>opt_enableLeaderElection := True\<rparr>) (''false'' # args)"
  by (simp add: classify_def named_def main_flags_def bool_flag_def ParseBool_def)

end
