(* ===== verification/ToolDemo.thy ===== *)
theory ToolDemo
  imports Demo Cli CustomizerLaws Flags
begin

text \<open>
  Concrete surroundings of the tools: a disk in memory, a PEM coding, one key pair and the two
  certificates made with it, one token. The inputs of the witnesses of \<open>ToolProperties\<close>.
\<close>

section \<open>A coding of blocks\<close>

definition field :: "string \<Rightarrow> string" where
  "field s = replicate (length s) (CHR ''x'') @ ''.'' @ s"

definition unfield :: "string \<Rightarrow> string \<times> string" where
  "unfield t =
     (let n = length (takeWhile (\<lambda>c. c = CHR ''x'') t); r = drop (Suc n) t in (take n r, drop n r))"

lemma unfield_field [simp]: "unfield (field s @ rest) = (s, rest)"
proof -
  have "takeWhile (\<lambda>c. c = CHR ''x'') (replicate n (CHR ''x'') @ CHR ''.'' # t) = replicate n (CHR ''x'')"
    for n t by (induction n) simp_all
  then have "takeWhile (\<lambda>c. c = CHR ''x'') (field s @ rest) = replicate (length s) (CHR ''x'')"
    by (simp add: field_def)
  then have "length (takeWhile (\<lambda>c. c = CHR ''x'') (field s @ rest)) = length s" by simp
  moreover have "drop (Suc (length s)) (field s @ rest) = s @ rest"
    by (simp add: field_def)
  ultimately show ?thesis by (simp only: unfield_def Let_def) simp
qed

definition demo_block :: "string \<times> string \<Rightarrow> string" where
  "demo_block b = field (fst b) @ field (snd b)"

definition demo_unblock :: "string \<Rightarrow> (string \<times> string) option" where
  "demo_unblock t = (case unfield t of (ty, r) \<Rightarrow> Some (ty, fst (unfield r)))"

lemma demo_unblock_block [simp]: "demo_unblock (demo_block b @ rest) = Some b"
  by (simp add: demo_block_def demo_unblock_def)

section \<open>The admin's libraries\<close>

text \<open>The key pair is the number 1; the certificate of the admin is \<open>ca\<close>, that of the gateway \<open>tls\<close>.\<close>

definition demo_cert :: "CertificateConfig \<Rightarrow> string \<Rightarrow> nat Certificate" where
  "demo_cert cfg raw =
     \<lparr>ct_Raw = raw, ct_PublicKey = RSAPublicKey 1, ct_SerialNumber = 7, ct_CommonName = cf_Name cfg,
      ct_NotBefore = 0, ct_NotAfter = 10, ct_IsCA = cf_IsCA cfg, ct_BasicConstraintsValid = cf_IsCA cfg,
      ct_PermittedDNSDomains = NilSlice, ct_DNSNames = (if cf_IsCA cfg then NilSlice else cf_DNSNames cfg),
      ct_KeyUsage = 0, ct_ExtKeyUsage = (if cf_IsServer cfg then [ExtKeyUsageServerAuth] else [])\<rparr>"

definition demo_tls :: CertificateConfig where
  "demo_tls = tls_config (Slice [''llm-d.com''])"

definition demo_admin :: "(nat, nat, string \<rightharpoonup> string) admin_lib" where
  "demo_admin = crypto.extend
     (demo_crypto\<lparr>pem_Decode := demo_unblock,
        ParseCertificate := (\<lambda>b. if b = ''ca'' then Inr (demo_cert admin_config ''ca'')
          else if b = ''tls'' then Inr (demo_cert demo_tls ''tls'')
          else Inl (Errorf ''malformed certificate''))\<rparr>)
     \<lparr>rsa_GenerateKey = Inr 1, rsa_Public = id, Now = (\<lambda>_. 0), AddDate = (\<lambda>t y m d. t + int y),
      Int63 = (\<lambda>_. 7),
      x509_CreateCertificate = (\<lambda>t parent k p.
        if k \<noteq> 1 \<or> p \<noteq> 1 then Inl (Errorf ''unknown key'')
        else if ct_CommonName t = ServerName \<and> ct_DNSNames t = NilSlice \<and> ct_ExtKeyUsage t = [] then Inr ''ca''
        else if ct_CommonName t = ''llm-d-gateway'' \<and> ct_DNSNames t = Slice [''llm-d.com'']
                \<and> ct_ExtKeyUsage t = [ExtKeyUsageServerAuth] then Inr ''tls''
        else Inl (Errorf ''unknown template'')),
      MarshalPKCS1PrivateKey = (\<lambda>p. replicate p (CHR ''k'')),
      ParsePKCS1PrivateKey = (\<lambda>b. Inr (length b)),
      pem_Encode = (\<lambda>b. Inr (demo_block b)),
      ad_os = map_os,
      NewNumericDate = id,
      SignedString = (\<lambda>m c p.
        if m = SigningMethodRSA ''RS256'' \<and> c = demo_claims ''alice'' \<and> p = 1 then Inr ''salice''
        else Inl (Errorf ''signing failed''))\<rparr>"

lemma demo_admin_fields [simp]:
  "pem_Decode demo_admin = demo_unblock"
  "ParseCertificate demo_admin = (\<lambda>b. if b = ''ca'' then Inr (demo_cert admin_config ''ca'')
          else if b = ''tls'' then Inr (demo_cert demo_tls ''tls'')
          else Inl (Errorf ''malformed certificate''))"
  "ParseWithClaims demo_admin = ParseWithClaims demo_crypto"
  "rsa_GenerateKey demo_admin = Inr 1" "rsa_Public demo_admin = id" "Now demo_admin = (\<lambda>_. 0)"
  "ParsePKCS1PrivateKey demo_admin = (\<lambda>b. Inr (length b))"
  "MarshalPKCS1PrivateKey demo_admin = (\<lambda>p. replicate p (CHR ''k''))"
  "pem_Encode demo_admin = (\<lambda>b. Inr (demo_block b))"
  "ad_os demo_admin = map_os" "NewNumericDate demo_admin = id"
  by (simp_all add: demo_admin_def crypto.defs)

lemma demo_x509_conforms: "x509_conforms (\<lambda>_ k. k = 1) demo_admin"
proof -
  have "\<exists>c. ParseCertificate demo_admin b = Inr c \<and> ct_Raw c = b \<and> ct_PublicKey c = RSAPublicKey k
      \<and> ct_CommonName c = ct_CommonName t \<and> elems (ct_DNSNames c) = elems (ct_DNSNames t)
      \<and> ct_ExtKeyUsage c = ct_ExtKeyUsage t \<and> p = 1"
    if "x509_CreateCertificate demo_admin t parent k p = Inr b" for t parent k p b
    using that
    by (auto simp: demo_admin_def crypto.defs demo_cert_def admin_config_def demo_tls_def tls_config_def
        split: if_splits)
  then show ?thesis by (fastforce simp: x509_conforms_def demo_cert_def split: if_splits)
qed

lemma demo_signing_conforms: "signing_conforms demo_facts demo_admin"
  by (auto simp: signing_conforms_def demo_admin_def crypto.defs demo_facts_def word_ascii_def byte_def
      IsSpace_def split: if_splits)

lemma demo_times: "times_documented demo_facts 5"
  by (simp add: times_documented_def demo_facts_def)

lemma demo_admin_jwt: "gojwt_conforms demo_facts demo_admin"
  using demo_conforms by (simp add: gojwt_conforms_def)

section \<open>A run of the admin tool\<close>

definition demo_disk :: "string \<rightharpoonup> string" where
  "demo_disk = [LlmDKeyFile \<mapsto> demo_block (''RSA PRIVATE KEY'', ''k''),
                LlmDCAFile \<mapsto> demo_block (''CERTIFICATE'', ''ca'')]"

lemma admin_paths: "LlmDKeyFile \<noteq> LlmDCAFile" "LlmDCAFile \<noteq> []"
    "CertsDirectory @ ''/tls-key.pem'' \<noteq> CertsDirectory @ ''/tls-cert.pem''"
  by (simp_all add: LlmDKeyFile_def LlmDCAFile_def CertsDirectory_def)

lemma demo_init: "CreateAdminCerts demo_admin Map.empty = ([''Creating LLM-D Admin CA Cert.''], demo_disk)"
proof -
  have "x509_CreateCertificate demo_admin (certificate_template demo_admin admin_config)
      (certificate_template demo_admin admin_config) 1 1 = Inr ''ca''"
    by (simp add: demo_admin_def crypto.defs certificate_template_def admin_config_def)
  then have "certificate_files demo_admin admin_config Map.empty
      = Inr (demo_block (''RSA PRIVATE KEY'', ''k''), demo_block (''CERTIFICATE'', ''ca''))"
    by (simp add: certificate_files_def admin_config_def [THEN arg_cong [where f = cf_CAPath]])
  then show ?thesis
    by (simp add: CreateAdminCerts_def CreateCertificate_def map_os_def)
       (simp add: admin_config_def demo_disk_def)
qed

lemma demo_claims_made: "token_claims_of demo_admin ''alice'' ''user'' [] = demo_claims ''alice''"
  by (simp add: token_claims_of_def demo_claims_def Hour_def)

lemma demo_private_key: "LoadPrivateKey demo_admin demo_disk LlmDKeyFile = Inr 1"
  using admin_paths demo_unblock_block [of "(''RSA PRIVATE KEY'', ''k'')" "[]"]
  by (simp add: LoadPrivateKey_def map_os_def demo_disk_def)

lemma demo_ca_key: "LoadPublicKey (on_disk demo_admin demo_disk) LlmDCAFile = Inr 1"
  using admin_paths demo_unblock_block [of "(''CERTIFICATE'', ''ca'')" "[]"]
  by (simp add: LoadPublicKey_def on_disk_def map_os_def demo_disk_def demo_cert_def)

lemma demo_token: "GenerateJWT demo_admin demo_disk ''alice'' ''user'' [] LlmDKeyFile = Inr ''salice''"
proof -
  have "SignedString demo_admin (SigningMethodRSA ''RS256'') (demo_claims ''alice'') 1 = Inr ''salice''"
    by (simp add: demo_admin_def crypto.defs)
  then show ?thesis by (simp add: GenerateJWT_def demo_private_key demo_claims_made)
qed

text \<open>A command-line library that takes flags of the form \<open>--name=value\<close> only.\<close>

definition demo_flag :: "string \<Rightarrow> (string \<times> string) option" where
  "demo_flag s = (case classify s of Named name (Some v) \<Rightarrow> Some (name, v) | _ \<Rightarrow> None)"

definition demo_cobra :: "'d cobra" where
  "demo_cobra name cs args =
     (case args of [] \<Rightarrow> Handled [] []
      | u # rest \<Rightarrow>
          (case find (\<lambda>c. Use c = u) cs of
             None \<Rightarrow> Refused (Errorf ''unknown command'') [] []
           | Some c \<Rightarrow>
               if list_all (\<lambda>s. demo_flag s \<noteq> None) rest
               then Selected c (flag_values c (map (\<lambda>s. the (demo_flag s)) rest))
               else Refused (Errorf ''unknown flag'') [] []))"

lemma find_unique: "distinct (map f cs) \<Longrightarrow> c \<in> set cs \<Longrightarrow> find (\<lambda>x. f x = f c) cs = Some c"
proof (induction cs)
  case (Cons d cs)
  show ?case
  proof (cases "d = c")
    case False
    with Cons.prems(2) have c: "c \<in> set cs" by simp
    then have "f d \<noteq> f c" using Cons.prems(1) by (metis distinct.simps(2) imageI list.map(2) set_map)
    with Cons.IH Cons.prems(1) c show ?thesis by simp
  qed simp
qed simp

lemma find_mem: "find P xs = Some x \<Longrightarrow> x \<in> set xs \<and> P x"
  by (induction xs) (auto split: if_splits)

lemma plain_no_equals:
  assumes "plain w"
  shows "CHR ''='' \<notin> set w"
proof
  assume mem: "CHR ''='' \<in> set w"
  from assms have "\<forall>c \<in> set w. c = CHR ''-'' \<or> 97 \<le> byte c \<and> byte c \<le> 122" by (simp add: plain_def)
  from bspec [OF this mem] show False by (simp add: byte_def)
qed

lemma demo_flag_arg:
  assumes "plain (fst kv)"
  shows "demo_flag (flag_arg kv) = Some kv"
proof -
  have "fst kv \<noteq> []" "hd (fst kv) \<noteq> CHR ''-''" using assms by (simp_all add: plain_def)
  then have "classify (flag_arg kv) = Named (fst kv) (Some (snd kv))"
    unfolding flag_arg_def by (rule classify_print [OF _ plain_no_equals [OF assms]])
  then show ?thesis by (simp add: demo_flag_def)
qed

lemma demo_flag_args:
  assumes "\<forall>kv \<in> set kvs. plain (fst kv)"
  shows "list_all (\<lambda>s. demo_flag s \<noteq> None) (map flag_arg kvs)" "map (\<lambda>s. the (demo_flag s)) (map flag_arg kvs) = kvs"
  using assms by (induction kvs) (simp_all add: demo_flag_arg)

lemma demo_cobra_conforms: "cobra_conforms demo_cobra"
proof -
  have run: "demo_cobra name cs (Use c # map flag_arg kvs) = Selected c (flag_values c kvs)"
    if "declared cs" "c \<in> set cs" "fst ` set kvs \<subseteq> fst ` set (string_flags c)"
    for name cs kvs and c :: "'d command"
  proof -
    have "\<forall>kv \<in> set kvs. plain (fst kv)" using that by (fastforce simp: declared_def)
    with that show ?thesis
      using find_unique [of Use cs c] demo_flag_args [of kvs] by (simp add: demo_cobra_def declared_def)
  qed
  have sel: "c \<in> set cs" if "demo_cobra name cs args = Selected c flags"
    for name cs args flags and c :: "'d command"
    using that by (auto simp: demo_cobra_def split: list.splits option.splits if_splits dest!: find_mem)
  have unknown: "\<exists>err out printed. demo_cobra name cs (w # args) = Refused err out printed"
    if "w \<notin> {''help'', ''completion''} \<union> Use ` set cs" for name w args and cs :: "'d command list"
    using that by (auto simp: demo_cobra_def split: option.splits dest!: find_mem) (auto simp: find_None_iff)
  show ?thesis
    unfolding cobra_conforms_def
    by (intro allI impI conjI ballI) (erule (2) run, erule sel, erule unknown, simp add: demo_cobra_def)
qed

lemma demo_tls_run:
  "\<exists>d. GenerateTLSCert demo_admin (Slice [''llm-d.com'']) demo_disk = (None, d)"
proof -
  have "x509_CreateCertificate demo_admin (certificate_template demo_admin demo_tls)
      (demo_cert admin_config ''ca'') 1 1 = Inr ''tls''"
    by (simp add: demo_admin_def crypto.defs certificate_template_def demo_tls_def tls_config_def ServerName_def)
  moreover have "load_ca demo_admin demo_tls demo_disk = Inr (demo_cert admin_config ''ca'', 1)"
    using demo_unblock_block [of "(''RSA PRIVATE KEY'', ''k'')" "[]"]
      demo_unblock_block [of "(''CERTIFICATE'', ''ca'')" "[]"] admin_paths
    by (simp add: load_ca_def demo_tls_def tls_config_def map_os_def demo_disk_def)
  ultimately have "\<exists>k c. certificate_files demo_admin demo_tls demo_disk = Inr (k, c)"
    using admin_paths by (simp add: certificate_files_def Let_def demo_tls_def [THEN arg_cong [where f = cf_CAPath]]
        tls_config_def)
  then show ?thesis
    by (auto simp: GenerateTLSCert_def CreateCertificate_def map_os_def demo_tls_def [symmetric])
qed

section \<open>Documents\<close>

text \<open>YAML restricted to JSON, and a file with each of the two documents.\<close>

definition demo_yaml :: "(string \<rightharpoonup> string) customizer_lib" where
  "demo_yaml =
     \<lparr>cu_os = map_os, yaml_Unmarshal = json_Unmarshal_map demo_lib,
      yaml_Marshal = (\<lambda>m. Inr (print_json (of_map m)))\<rparr>"

definition demo_service :: "(string \<times> json) list" where
  "demo_service =
     [(''decode'', JObj [(''containers'', JArr [JObj [(''name'', JStr ''vllm''), (''args'', JArr [])]])])]"

definition demo_files :: "string \<rightharpoonup> string" where
  "demo_files = [''gateway.yaml'' \<mapsto> print_json (JObj [(''gateway'', JStr ''old'')]),
                 ''service.yaml'' \<mapsto> print_json (JObj demo_service)]"

lemma demo_yaml_fields [simp]:
  "cu_os demo_yaml = map_os" "yaml_Unmarshal demo_yaml = json_Unmarshal_map demo_lib"
  "yaml_Marshal demo_yaml m = Inr (print_json (of_map m))"
  by (simp_all add: demo_yaml_def)

lemma demo_read_gateway:
  "readYAML demo_yaml ''gateway.yaml'' demo_files = Inr (GoMap [(''gateway'', JStr ''old'')])"
proof -
  have "json_Unmarshal_map demo_lib (print_json (JObj [(''gateway'', JStr ''old'')]))
      = Inr (GoMap [(''gateway'', JStr ''old'')])"
    by (rule Unmarshal_print [of 1]) (simp_all add: maxNestingDepth_def ascii_literal byte_def)
  then show ?thesis
    by (simp add: readYAML_def map_os_def demo_files_def del: print_json.simps)
qed

lemma demo_read_service: "readYAML demo_yaml ''service.yaml'' demo_files = Inr (GoMap demo_service)"
proof -
  have "json_Unmarshal_map demo_lib (print_json (JObj demo_service)) = Inr (GoMap demo_service)"
    by (rule Unmarshal_print [of "Suc (Suc (Suc (Suc (Suc 0))))"])
      (simp_all add: demo_service_def maxNestingDepth_def ascii_literal byte_def)
  then show ?thesis
    by (simp add: readYAML_def map_os_def demo_files_def del: print_json.simps)
qed

end
