(* ===== verification/ToolProperties.thy ===== *)
theory ToolProperties
  imports ToolDemo
begin

text \<open>
  The properties of the tools around the server: the admin tool, which makes the key pair and
  the tokens the server trusts, and the customizer of deployment files.
\<close>

section \<open>Certificates\<close>

text \<open>
  C32. When initializing the admin reports no error, the two files hold one key pair: what the
  server loads from the certificate is the public key of what the tool loads from the key file.
\<close>

theorem admin_keys_match:
  assumes "x509_conforms signed A" and "disk_conforms (ad_os A) {LlmDCAFile, LlmDKeyFile}"
    and "CreateAdminCerts A d = ([''Creating LLM-D Admin CA Cert.''], d')"
  shows "\<exists>p. rsa_GenerateKey A = Inr p \<and> LoadPrivateKey A d' LlmDKeyFile = Inr p
     \<and> LoadPublicKey (on_disk A d') LlmDCAFile = Inr (rsa_Public A p)"
  by (rule CreateAdminCerts_keys [OF assms]) blast

lemma admin_keys_match_witness:
  "LoadPublicKey (on_disk demo_admin demo_disk) LlmDCAFile = Inr 1"
  using admin_keys_match [OF demo_x509_conforms _ demo_init] by (simp add: map_os_conforms)

text \<open>The paths of a TLS certificate.\<close>

lemma tls_paths:
  "cf_CertOutPath (tls_config names) = ''certs/tls-cert.pem''"
  "cf_PrivateKeyOutPath (tls_config names) = ''certs/tls-key.pem''"
  "cf_CAPath (tls_config names) = LlmDCAFile" "cf_CAKeyPath (tls_config names) = LlmDKeyFile"
  "LlmDCAFile \<noteq> []" "LlmDCAFile \<noteq> ''certs/tls-cert.pem''" "LlmDCAFile \<noteq> ''certs/tls-key.pem''"
  "LlmDKeyFile \<noteq> ''certs/tls-cert.pem''" "LlmDKeyFile \<noteq> ''certs/tls-key.pem''"
  by (simp_all add: tls_config_def CertsDirectory_def LlmDCAFile_def LlmDKeyFile_def)

text \<open>
  C33. A generated TLS certificate names the gateway and the given hosts, is for servers, and is
  signed by the admin's key; its file goes on with the admin's own certificate; the key file
  holds its private key, and the admin's files are as they were.
\<close>

theorem tls_certificate_chain:
  assumes "x509_conforms signed A"
    and "disk_conforms (ad_os A) {LlmDCAFile, LlmDKeyFile, ''certs/tls-cert.pem'', ''certs/tls-key.pem''}"
    and "GenerateTLSCert A names d = (None, d')"
  shows "\<exists>ca caKey keyRaw leafRaw leaf block tail key.
       pem_file A d LlmDCAFile ca \<and> pem_file A d LlmDKeyFile keyRaw
     \<and> ParsePKCS1PrivateKey A keyRaw = Inr caKey
     \<and> (\<forall>q \<in> {LlmDCAFile, LlmDKeyFile}. os_ReadFile (ad_os A) d' q = os_ReadFile (ad_os A) d q)
     \<and> os_ReadFile (ad_os A) d' ''certs/tls-cert.pem'' = Inr (block @ tail)
     \<and> pem_Decode A (block @ tail) = Some (''CERTIFICATE'', leafRaw)
     \<and> pem_Decode A tail = Some (''CERTIFICATE'', ca)
     \<and> ParseCertificate A leafRaw = Inr leaf \<and> ct_CommonName leaf = ''llm-d-gateway''
     \<and> elems (ct_DNSNames leaf) = elems names \<and> ExtKeyUsageServerAuth \<in> set (ct_ExtKeyUsage leaf)
     \<and> signed leafRaw (rsa_Public A caKey)
     \<and> LoadPrivateKey A d' ''certs/tls-key.pem'' = Inr key
     \<and> LoadPublicKey (on_disk A d') ''certs/tls-cert.pem'' = Inr (rsa_Public A key)"
proof -
  let ?P = "{LlmDCAFile, LlmDKeyFile, ''certs/tls-cert.pem'', ''certs/tls-key.pem''}"
  let ?cfg = "tls_config names"
  note paths = tls_paths(1-4) and files = tls_paths(5-9)
  from assms(3) obtain d1 where d1: "os_MkdirAll (ad_os A) d BaseDirectory 0x1ED = (None, d1)"
      and run: "CreateCertificate A ?cfg d1 = (None, d')"
    by (auto simp: GenerateTLSCert_def split: prod.splits option.splits)
  have out: "cf_CertOutPath ?cfg \<in> ?P" "cf_PrivateKeyOutPath ?cfg \<in> ?P"
      "cf_PrivateKeyOutPath ?cfg \<noteq> cf_CertOutPath ?cfg" and ca: "cf_CAPath ?cfg \<noteq> []"
    using files by (simp_all add: paths)
  from CreateCertificate_chain [OF assms(1,2) out(1) ca run, unfolded paths]
  obtain caCert caKey leafRaw leaf block tail where chain:
      "load_ca A ?cfg d1 = Inr (caCert, caKey)"
      "os_ReadFile (ad_os A) d' ''certs/tls-cert.pem'' = Inr (block @ tail)"
      "pem_Decode A (block @ tail) = Some (''CERTIFICATE'', leafRaw)"
      "pem_Decode A tail = Some (''CERTIFICATE'', ct_Raw caCert)"
      "signed leafRaw (rsa_Public A caKey)" "ParseCertificate A leafRaw = Inr leaf"
      "ct_CommonName leaf = cf_Name ?cfg"
      "elems (ct_DNSNames leaf) = (if cf_IsCA ?cfg then [] else elems (cf_DNSNames ?cfg))"
      "ExtKeyUsageServerAuth \<in> set (ct_ExtKeyUsage leaf) \<longleftrightarrow> cf_IsServer ?cfg" .
  from CreateCertificate_key_pair [OF assms(1,2) out(2,1,3) run, unfolded paths]
  obtain key where "rsa_GenerateKey A = Inr key"
      and key: "LoadPrivateKey A d' ''certs/tls-key.pem'' = Inr key"
      "LoadPublicKey (on_disk A d') ''certs/tls-cert.pem'' = Inr (rsa_Public A key)"
      and kept: "\<forall>q \<in> ?P. q \<noteq> ''certs/tls-key.pem'' \<longrightarrow> q \<noteq> ''certs/tls-cert.pem'' \<longrightarrow>
        os_ReadFile (ad_os A) d' q = os_ReadFile (ad_os A) d1 q" .
  have same: "\<forall>q \<in> {LlmDCAFile, LlmDKeyFile}. os_ReadFile (ad_os A) d' q = os_ReadFile (ad_os A) d q"
    using kept files disk_conforms_Mkdir [OF assms(2) d1] by simp
  have old: "pem_file A d1 q raw \<longleftrightarrow> pem_file A d q raw" if "q \<in> {LlmDCAFile, LlmDKeyFile}" for q raw
    using that disk_conforms_Mkdir [OF assms(2) d1] by (auto simp: pem_file_def)
  from chain(1) obtain ca keyRaw where ca: "pem_file A d LlmDCAFile ca" "ParseCertificate A ca = Inr caCert"
      "pem_file A d LlmDKeyFile keyRaw" "ParsePKCS1PrivateKey A keyRaw = Inr caKey"
    by (auto simp: load_ca_iff paths old)
  with x509_conformsD(4) [OF assms(1)] have "ct_Raw caCert = ca" by blast
  with chain(4) have tl: "pem_Decode A tail = Some (''CERTIFICATE'', ca)" by simp
  have leaf: "ct_CommonName leaf = ''llm-d-gateway''" "elems (ct_DNSNames leaf) = elems names"
      "ExtKeyUsageServerAuth \<in> set (ct_ExtKeyUsage leaf)"
    using chain(7-9) by (simp_all add: tls_config_def)
  show ?thesis
    by (intro exI conjI) (rule ca same chain key tl leaf)+
qed

lemma tls_certificate_chain_witness:
  "\<exists>d block tail. GenerateTLSCert demo_admin (Slice [''llm-d.com'']) demo_disk = (None, d)
     \<and> os_ReadFile map_os d ''certs/tls-cert.pem'' = Inr (block @ tail)
     \<and> demo_unblock tail = Some (''CERTIFICATE'', ''ca'')"
proof -
  obtain d where d: "GenerateTLSCert demo_admin (Slice [''llm-d.com'']) demo_disk = (None, d)"
    using demo_tls_run by blast
  have "disk_conforms (ad_os demo_admin) {LlmDCAFile, LlmDKeyFile, ''certs/tls-cert.pem'', ''certs/tls-key.pem''}"
    by (simp add: map_os_conforms)
  from tls_certificate_chain [OF demo_x509_conforms this d] obtain ca block tail where
      "pem_file demo_admin demo_disk LlmDCAFile ca"
      "os_ReadFile map_os d ''certs/tls-cert.pem'' = Inr (block @ tail)"
      "demo_unblock tail = Some (''CERTIFICATE'', ca)"
    by auto
  moreover have "os_ReadFile map_os demo_disk LlmDCAFile = Inr (demo_block (''CERTIFICATE'', ''ca''))"
    using admin_paths by (simp add: map_os_def demo_disk_def)
  moreover have "demo_unblock (demo_block (''CERTIFICATE'', ''ca'')) = Some (''CERTIFICATE'', ''ca'')"
    using demo_unblock_block [of "(''CERTIFICATE'', ''ca'')" "[]"] by simp
  ultimately show ?thesis using d by (auto simp: pem_file_def)
qed

section \<open>Tokens\<close>

text \<open>
  C34. A token that the tool generates for a user, when the key file and the certificate hold one
  key pair, validates with the certificate to the claims it was made with before its expiry, and
  is rejected from its expiry on. The expiry is 24 hours after the token was made, cut to the whole
  second: never later than that, and less than a second earlier.
\<close>

theorem generated_token_validates:
  assumes "gojwt_conforms F A" and "signing_conforms F A" and "times_documented F now"
    and "valid_utf8 username" and "valid_utf8 role" and "valid_utf8 organization"
    and "LoadPrivateKey A d keyFile = Inr p"
    and "LoadPublicKey (on_disk A d) certFile = Inr (rsa_Public A p)"
    and "GenerateJWT A d username role organization keyFile = Inr s"
  shows "\<exists>expiry. Now A 0 + 24 * Hour - 10 ^ 9 < expiry \<and> expiry \<le> Now A 0 + 24 * Hour
     \<and> rc_ExpiresAt (uc_RegisteredClaims (token_claims_of A username role organization)) = Some expiry
     \<and> (if now < expiry
        then ValidateJWT (on_disk A d) s certFile = Inr (token_claims_of A username role organization)
        else \<forall>c. ValidateJWT (on_disk A d) s certFile \<noteq> Inr c)"
proof -
  let ?expiry = "NewNumericDate A (Now A 0 + 24 * Hour)"
  have "gojwt_conforms F (on_disk A d)" using assms(1) by (simp add: gojwt_conforms_def on_disk_def)
  note v = ValidateJWTWithKey_iff [OF this]
  from GenerateJWT_admin_token [OF assms(2,9,4,5,6), of now] obtain p' where
      "LoadPrivateKey A d keyFile = Inr p'"
      "now < ?expiry \<longrightarrow> admin_token F (rsa_Public A p') s (token_claims_of A username role organization)"
      "?expiry \<le> now \<longrightarrow> \<not> admin_token F k s c" for k c
    using assms(3) by metis
  with assms(7,8) NewNumericDate_cut [OF assms(2)] show ?thesis
    by (intro exI [of _ ?expiry]) (simp add: ValidateJWT_def v [symmetric] token_claims_of_def)
qed

lemma generated_token_validates_witness:
  "ValidateJWT (on_disk demo_admin demo_disk) ''salice'' LlmDCAFile = Inr (demo_claims ''alice'')"
proof -
  have u: "valid_utf8 ''alice''" "valid_utf8 ''user''" "valid_utf8 []"
    by (simp_all add: ascii_literal byte_def)
  have "LoadPublicKey (on_disk demo_admin demo_disk) LlmDCAFile = Inr (rsa_Public demo_admin 1)"
    by (simp add: demo_ca_key)
  from generated_token_validates [OF demo_admin_jwt demo_signing_conforms demo_times u demo_private_key this
      demo_token]
  show ?thesis by (auto simp: demo_claims_made Hour_def split: if_splits)
qed

section \<open>Commands\<close>

text \<open>
  C35. Whatever its arguments are, the admin tool ends with exit code 0, or with 1 and something on
  the standard error; an unknown command ends with 1 and leaves the disk as it was. The exit
  code of \<open>create\<close> tells whether there is a token, and that of \<open>tls-cert\<close> whether there were names
  and the certificate was made: 0 with nothing on the standard error, or 1 with a message. But the
  exit code of \<open>init\<close> does not tell whether it worked: it is 0 with nothing on the standard error,
  also when the directory or the certificate could not be made, which shows only in the printed
  lines.
\<close>

theorem admin_tool_exits:
  assumes "cobra_conforms cobra"
  shows "(let r = admin_main cobra A args d in cli_exit r = 0 \<or> cli_exit r = 1 \<and> cli_stderr r \<noteq> [])
     \<and> (\<forall>w. plain w \<longrightarrow> w \<notin> {''help'', ''completion'', ''init'', ''create'', ''tls-cert''} \<longrightarrow>
          cli_exit (admin_main cobra A (w # args) d) = 1 \<and> cli_disk (admin_main cobra A (w # args) d) = d)
     \<and> (\<forall>kvs. fst ` set kvs \<subseteq> {''name'', ''role'', ''org''} \<longrightarrow>
          (let r = admin_main cobra A (''create'' # map flag_arg kvs) d
           in if \<exists>tok. GenerateJWT A d (given kvs ''name'' ''user1'') (given kvs ''role'' ''role1'')
                    (given kvs ''org'' ''org1'') LlmDKeyFile = Inr tok
              then cli_exit r = 0 \<and> cli_stderr r = [] else cli_exit r = 1 \<and> cli_stderr r \<noteq> []))
     \<and> (\<forall>names. let r = admin_main cobra A [''tls-cert'', ''--dns-names='' @ names] d
          in if elems (splitCSV names) \<noteq> [] \<and> (\<exists>d'. GenerateTLSCert A (splitCSV names) d = (None, d'))
             then cli_exit r = 0 \<and> cli_stderr r = [] else cli_exit r = 1 \<and> cli_stderr r \<noteq> [])
     \<and> (let r = admin_main cobra A [''init''] d
        in cli_exit r = 0 \<and> cli_stderr r = []
           \<and> (cli_stdout r = [''Creating LLM-D Admin CA Cert.''] \<longleftrightarrow>
                (\<exists>d1 d2. os_MkdirAll (ad_os A) d BaseDirectory 0x1ED = (None, d1)
                   \<and> CreateCertificate A admin_config d1 = (None, d2))))"
proof (intro conjI allI impI)
  show "let r = admin_main cobra A args d in cli_exit r = 0 \<or> cli_exit r = 1 \<and> cli_stderr r \<noteq> []"
    by (rule main_cases [OF assms, of A args d])
       (simp_all add: initCmd_Run_def tlsCertCmd_Run_def createCmd_Run_def Let_def
         split: prod.split option.split sum.split)
next
  fix w assume "plain w" "w \<notin> {''help'', ''completion'', ''init'', ''create'', ''tls-cert''}"
  from main_unknown [OF assms this, of A args]
  show "cli_exit (admin_main cobra A (w # args) d) = 1" "cli_disk (admin_main cobra A (w # args) d) = d"
    by (auto simp: admin_main_def)
next
  fix kvs :: "(string \<times> string) list" assume kvs: "fst ` set kvs \<subseteq> {''name'', ''role'', ''org''}"
  show "let r = admin_main cobra A (''create'' # map flag_arg kvs) d
      in if \<exists>tok. GenerateJWT A d (given kvs ''name'' ''user1'') (given kvs ''role'' ''role1'')
               (given kvs ''org'' ''org1'') LlmDKeyFile = Inr tok
         then cli_exit r = 0 \<and> cli_stderr r = [] else cli_exit r = 1 \<and> cli_stderr r \<noteq> []"
    unfolding main_create [OF assms kvs] Let_def by (rule createCmd_exit)
next
  fix names
  show "let r = admin_main cobra A [''tls-cert'', ''--dns-names='' @ names] d
      in if elems (splitCSV names) \<noteq> [] \<and> (\<exists>d'. GenerateTLSCert A (splitCSV names) d = (None, d'))
         then cli_exit r = 0 \<and> cli_stderr r = [] else cli_exit r = 1 \<and> cli_stderr r \<noteq> []"
    unfolding main_tls_cert [OF assms] Let_def by (rule tlsCertCmd_exit)
next
  show "let r = admin_main cobra A [''init''] d
        in cli_exit r = 0 \<and> cli_stderr r = []
           \<and> (cli_stdout r = [''Creating LLM-D Admin CA Cert.''] \<longleftrightarrow>
                (\<exists>d1 d2. os_MkdirAll (ad_os A) d BaseDirectory 0x1ED = (None, d1)
                   \<and> CreateCertificate A admin_config d1 = (None, d2)))"
    by (auto simp: main_init [OF assms] initCmd_Run_def CreateAdminCerts_def Let_def
        split: prod.splits option.splits)
qed

lemma admin_tool_exits_witness:
  "cli_exit (admin_main demo_cobra demo_admin [''remove''] demo_disk) = 1
     \<and> cli_exit (admin_main demo_cobra demo_admin [''init''] Map.empty) = 0"
proof -
  have "plain ''remove''" by (simp add: plain_def byte_def)
  then show ?thesis
    using admin_tool_exits [OF demo_cobra_conforms, of demo_admin "[]" demo_disk]
      admin_tool_exits [OF demo_cobra_conforms, of demo_admin "[]" Map.empty] by (auto simp: Let_def)
qed

text \<open>
  Without the admin's certificate and key in their files, \<open>tls-cert\<close> fails with an error and
  exit code 1, whatever names it is given, and writes no file.
\<close>

lemma tls_cert_needs_initialization:
  assumes "os_MkdirAll (ad_os A) d BaseDirectory 0x1ED = (None, d1)"
    and "(\<nexists>raw ca. pem_file A d1 LlmDCAFile raw \<and> ParseCertificate A raw = Inr ca)
       \<or> (\<nexists>raw key. pem_file A d1 LlmDKeyFile raw \<and> ParsePKCS1PrivateKey A raw = Inr key)"
  shows "cli_exit (tlsCertCmd_Run A names d) = 1 \<and> cli_stderr (tlsCertCmd_Run A names d) \<noteq> []
     \<and> cli_disk (tlsCertCmd_Run A names d) \<in> {d, d1}"
proof -
  let ?cfg = "tls_config (splitCSV names)"
  have paths: "cf_CAPath ?cfg = LlmDCAFile" "cf_CAKeyPath ?cfg = LlmDKeyFile"
    by (simp_all add: tls_config_def)
  have "load_ca A ?cfg d1 \<noteq> Inr (ca, k)" for ca k
    using assms(2) by (auto simp: load_ca_iff paths)
  moreover have "LlmDCAFile \<noteq> []" by (simp add: LlmDCAFile_def)
  ultimately have "certificate_files A ?cfg d1 \<noteq> Inr r" for r
    by (cases r) (metis certificate_files_done paths(1) surj_pair)
  then obtain e where "certificate_files A ?cfg d1 = Inl e" by (cases "certificate_files A ?cfg d1") auto
  then have "GenerateTLSCert A (splitCSV names) d = (Some e, d1)"
    by (simp add: GenerateTLSCert_def assms(1) CreateCertificate_def)
  then show ?thesis by (simp add: tlsCertCmd_Run_def Let_def)
qed

section \<open>Deployment files\<close>

text \<open>
  A gateway file that is customized without an error had a gateway; what is written is the
  document that was read with the gateway for HTTPS in its place, and every other key as it was.
\<close>

lemma gateway_customized:
  assumes "disk_conforms (cu_os Y) {f}" and "customizeGateway Y f d = Some (None, out, d')"
  shows "\<exists>data data' content. readYAML Y f d = Inr data \<and> glookup data ''gateway'' \<noteq> None
     \<and> glookup data' ''gateway'' = Some https_gateway
     \<and> (\<forall>k. k \<noteq> ''gateway'' \<longrightarrow> glookup data' k = glookup data k)
     \<and> yaml_Marshal Y data' = Inr content \<and> os_ReadFile (cu_os Y) d' f = Inr content"
proof -
  from assms(2) obtain data where data: "readYAML Y f d = Inr data" "glookup data ''gateway'' \<noteq> None"
      and w: "writeYAML Y f (GoMap (AList.update ''gateway'' https_gateway (entries data))) d = (None, out, d')"
    by (auto simp: customizeGateway_eq split: sum.splits if_splits)
  let ?data = "GoMap (AList.update ''gateway'' https_gateway (entries data))"
  from writeYAML_done [OF w assms(1)] obtain content where c: "yaml_Marshal Y ?data = Inr content"
      "os_ReadFile (cu_os Y) d' f = Inr content" .
  have "glookup ?data ''gateway'' = Some https_gateway"
      "\<forall>k. k \<noteq> ''gateway'' \<longrightarrow> glookup ?data k = glookup data k"
    by (simp_all add: glookup_entries update_conv')
  with data c show ?thesis by blast
qed

text \<open>
  A section \<open>v\<close> of a document and its value \<open>v'\<close> after the edit: it is the same value unless it is a
  map with an array of containers; then all its other keys are the same, and so are all containers
  but the first that is named vllm, of which only the arguments are other.
\<close>

definition section_edited :: "json option \<Rightarrow> json option \<Rightarrow> bool" where
  "section_edited v v' \<longleftrightarrow>
     (case as_map v of
        None \<Rightarrow> v' = v
      | Some sec \<Rightarrow>
          (case as_array (glookup sec ''containers'') of
             None \<Rightarrow> v' = v
           | Some cs \<Rightarrow>
               \<exists>sec' cs'. as_map v' = Some sec' \<and> as_array (glookup sec' ''containers'') = Some cs'
                 \<and> (\<forall>k. k \<noteq> ''containers'' \<longrightarrow> glookup sec' k = glookup sec k) \<and> length cs' = length cs
                 \<and> (\<forall>i < length cs.
                      if is_vllm (cs ! i) \<and> (\<forall>j < i. \<not> is_vllm (cs ! j))
                      then \<exists>m m'. as_map (Some (cs ! i)) = Some m \<and> as_map (Some (cs' ! i)) = Some m'
                        \<and> glookup m' ''args'' = Some (JArr loraArgs)
                        \<and> (\<forall>k. k \<noteq> ''args'' \<longrightarrow> glookup m' k = glookup m k)
                      else cs' ! i = cs ! i)))"

lemma vllm_container_edited:
  assumes "is_vllm c"
  shows "\<exists>m m'. as_map (Some c) = Some m \<and> as_map (Some (with_args loraArgs c)) = Some m'
     \<and> glookup m' ''args'' = Some (JArr loraArgs) \<and> (\<forall>k. k \<noteq> ''args'' \<longrightarrow> glookup m' k = glookup m k)"
proof -
  from assms obtain m where "as_map (Some c) = Some m" by (auto simp: is_vllm_def split: option.splits)
  with with_args_container [OF this] show ?thesis by blast
qed

lemma first_vllm_edited:
  "\<forall>i < length cs.
     if is_vllm (cs ! i) \<and> (\<forall>j < i. \<not> is_vllm (cs ! j))
     then \<exists>m m'. as_map (Some (cs ! i)) = Some m \<and> as_map (Some (first_vllm loraArgs cs ! i)) = Some m'
       \<and> glookup m' ''args'' = Some (JArr loraArgs)
       \<and> (\<forall>k. k \<noteq> ''args'' \<longrightarrow> glookup m' k = glookup m k)
     else first_vllm loraArgs cs ! i = cs ! i"
proof (intro allI impI)
  fix i assume i: "i < length cs"
  show "if is_vllm (cs ! i) \<and> (\<forall>j < i. \<not> is_vllm (cs ! j))
     then \<exists>m m'. as_map (Some (cs ! i)) = Some m \<and> as_map (Some (first_vllm loraArgs cs ! i)) = Some m'
       \<and> glookup m' ''args'' = Some (JArr loraArgs)
       \<and> (\<forall>k. k \<noteq> ''args'' \<longrightarrow> glookup m' k = glookup m k)
     else first_vllm loraArgs cs ! i = cs ! i"
  proof (cases "is_vllm (cs ! i) \<and> (\<forall>j < i. \<not> is_vllm (cs ! j))")
    case True
    then have eq: "first_vllm loraArgs cs ! i = with_args loraArgs (cs ! i)"
      unfolding nth_first_vllm [OF i] by (rule if_P)
    from True have "is_vllm (cs ! i)" by blast
    from vllm_container_edited [OF this] show ?thesis unfolding if_P [OF True] eq .
  qed (simp only: nth_first_vllm [OF i] if_False)
qed

lemma edited_service_section:
  assumes "sect \<in> {''decode'', ''prefill''}"
  shows "section_edited (glookup data sect) (glookup (edited_service data) sect)"
proof (cases "\<exists>sec cs. as_map (glookup data sect) = Some sec \<and> as_array (glookup sec ''containers'') = Some cs")
  case True
  then obtain sec cs where sec: "as_map (glookup data sect) = Some sec"
      and cs: "as_array (glookup sec ''containers'') = Some cs" by blast
  from assms have "sect = ''decode'' \<or> sect = ''prefill''" by simp
  from edited_section [OF this sec cs] obtain sec' where
      "as_map (glookup (edited_service data) sect) = Some sec'"
      "as_array (glookup sec' ''containers'') = Some (first_vllm loraArgs cs)"
      "\<forall>k. k \<noteq> ''containers'' \<longrightarrow> glookup sec' k = glookup sec k" by metis
  then show ?thesis
    unfolding section_edited_def sec option.case cs
    by (intro exI [of _ sec'] exI [of _ "first_vllm loraArgs cs"] conjI)
       (assumption | rule length_first_vllm | rule first_vllm_edited)+
next
  case False
  then have "\<forall>sec. as_map (glookup data sect) = Some sec \<longrightarrow> as_array (glookup sec ''containers'') = None"
    by auto
  with edited_other_section [OF assms this] show ?thesis
    by (auto simp: section_edited_def split: option.split)
qed

text \<open>
  C36. A model service file that is customized without an error holds the document that was read,
  changed only in three values: the model artifacts, if they are a map, name the new model; of the
  containers for decoding and for prefilling, if there is such an array, the first named vllm gets
  the LoRA arguments. Everything else is as it was: the other keys of the document, of the
  artifacts, of the sections and of the container, the other containers, and values that have
  another shape. Customizing the document again changes nothing.
\<close>

theorem model_service_customized:
  assumes "disk_conforms (cu_os Y) {f}" and "customizeModelService Y f d = Some (None, out, d')"
  shows "\<exists>data data' content. readYAML Y f d = Inr data
     \<and> yaml_Marshal Y data' = Inr content \<and> os_ReadFile (cu_os Y) d' f = Inr content
     \<and> (\<forall>k. k \<notin> {''modelArtifacts'', ''decode'', ''prefill''} \<longrightarrow> glookup data' k = glookup data k)
     \<and> (case as_map (glookup data ''modelArtifacts'') of
          None \<Rightarrow> glookup data' ''modelArtifacts'' = glookup data ''modelArtifacts''
        | Some ma \<Rightarrow>
            \<exists>ma'. as_map (glookup data' ''modelArtifacts'') = Some ma'
             \<and> glookup ma' ''name'' = Some (JStr llama_name)
             \<and> glookup ma' ''uri'' = Some (JStr (''hf://'' @ llama_name))
             \<and> (\<forall>k. k \<notin> {''name'', ''uri''} \<longrightarrow> glookup ma' k = glookup ma k))
     \<and> section_edited (glookup data ''decode'') (glookup data' ''decode'')
     \<and> section_edited (glookup data ''prefill'') (glookup data' ''prefill'')
     \<and> (\<exists>lines. model_service_edit data' = Some (data', lines))"
proof -
  obtain lines where "customizeModelService Y f d = Some (case readYAML Y f d of
      Inl err \<Rightarrow> (Some err, [], d)
    | Inr data \<Rightarrow> (case writeYAML Y f (edited_service data) d of (err, out, d') \<Rightarrow> (err, lines @ out, d')))"
    using customizeModelService_eq [of Y f d] ..
  with assms(2) obtain data out' where data: "readYAML Y f d = Inr data"
      and w: "writeYAML Y f (edited_service data) d = (None, out', d')"
    by (auto split: sum.splits prod.splits)
  from writeYAML_done [OF w assms(1)] obtain content where c: "yaml_Marshal Y (edited_service data) = Inr content"
      "os_ReadFile (cu_os Y) d' f = Inr content" .
  let ?data = "edited_service data"
  have frame: "\<forall>k. k \<notin> {''modelArtifacts'', ''decode'', ''prefill''} \<longrightarrow> glookup ?data k = glookup data k"
    by (simp add: edited_service_lookup)
  have artifacts: "case as_map (glookup data ''modelArtifacts'') of
       None \<Rightarrow> glookup ?data ''modelArtifacts'' = glookup data ''modelArtifacts''
     | Some ma \<Rightarrow> \<exists>ma'. as_map (glookup ?data ''modelArtifacts'') = Some ma'
         \<and> glookup ma' ''name'' = Some (JStr llama_name) \<and> glookup ma' ''uri'' = Some (JStr (''hf://'' @ llama_name))
         \<and> (\<forall>k. k \<notin> {''name'', ''uri''} \<longrightarrow> glookup ma' k = glookup ma k)"
  proof (cases "as_map (glookup data ''modelArtifacts'')")
    case (Some ma)
    show ?thesis unfolding Some option.case by (rule edited_artifacts [OF Some]) auto
  qed (simp add: edited_other_artifacts)
  have again: "\<exists>lines. model_service_edit ?data = Some (?data, lines)"
    using model_service_edit_eq [of ?data] by (simp add: edited_service_again)
  show ?thesis
    by (rule exI [of _ data], rule exI [of _ ?data], rule exI [of _ content],
        intro conjI data c frame artifacts again edited_service_section) simp_all
qed

lemma model_service_customized_witness:
  "\<exists>out d. customizeModelService demo_yaml ''service.yaml'' demo_files = Some (None, out, d)
     \<and> (\<exists>data'. os_ReadFile map_os d ''service.yaml'' = Inr (print_json (of_map data'))
          \<and> (\<exists>lines. model_service_edit data' = Some (data', lines)))"
proof -
  obtain out d where run: "customizeModelService demo_yaml ''service.yaml'' demo_files = Some (None, out, d)"
    using customizeModelService_eq [of demo_yaml "''service.yaml''" demo_files]
    by (auto simp: demo_read_service writeYAML_def map_os_def)
  have "disk_conforms (cu_os demo_yaml) {''service.yaml''}" by (simp add: map_os_conforms)
  from model_service_customized [OF this run] obtain data' content lines where
      "yaml_Marshal demo_yaml data' = Inr content" "os_ReadFile (cu_os demo_yaml) d ''service.yaml'' = Inr content"
      "model_service_edit data' = Some (data', lines)"
    by (elim exE conjE) (rule that)
  with run show ?thesis by (intro exI conjI) simp_all
qed

text \<open>
  C37. The customizer never panics, whatever its arguments and the documents are: it ends with
  exit code 0 and nothing on the standard error, or with exit code 1 and a message, and then the
  disk is as it was unless the write itself failed.
\<close>

theorem customizer_never_panics:
  "\<exists>r. customizer_main Y os_Args d = Some r
     \<and> (cli_exit r = 0 \<and> cli_stderr r = []
        \<or> cli_exit r = 1 \<and> cli_stderr r \<noteq> []
          \<and> (cli_disk r = d \<or>
             (\<exists>content err. os_WriteFile (cu_os Y) d (os_Args ! 2) content 0x1A4 = (Some err, cli_disk r))))"
proof -
  let ?good = "\<lambda>e::'a edit. fst e = None \<or> snd (snd e) = d
     \<or> (\<exists>content err. os_WriteFile (cu_os Y) d (os_Args ! 2) content 0x1A4 = (Some err, snd (snd e)))"
  have w: "?good (writeYAML Y (os_Args ! 2) data d)" for data
    using writeYAML_disk [of Y "os_Args ! 2" data d]
    by (cases "writeYAML Y (os_Args ! 2) data d"; cases "fst (writeYAML Y (os_Args ! 2) data d)") auto
  have "\<exists>e. customizeGateway Y (os_Args ! 2) d = Some e \<and> ?good e"
    by (cases "readYAML Y (os_Args ! 2) d") (use w in \<open>simp_all add: customizeGateway_eq\<close>)
  moreover have "\<exists>e. customizeModelService Y (os_Args ! 2) d = Some e \<and> ?good e"
  proof (cases "readYAML Y (os_Args ! 2) d")
    case (Inr data)
    with customizeModelService_eq [of Y "os_Args ! 2" d] w [of "edited_service data"] show ?thesis
      by (cases "writeYAML Y (os_Args ! 2) (edited_service data) d") auto
  qed (use customizeModelService_eq [of Y "os_Args ! 2" d] in auto)
  ultimately obtain e1 e2 where e: "customizeGateway Y (os_Args ! 2) d = Some e1" "?good e1"
      "customizeModelService Y (os_Args ! 2) d = Some e2" "?good e2" by blast
  let ?ok = "\<lambda>r. cli_exit r = 0 \<and> cli_stderr r = []
     \<or> cli_exit r = 1 \<and> cli_stderr r \<noteq> []
       \<and> (cli_disk r = d \<or>
          (\<exists>content err. os_WriteFile (cu_os Y) d (os_Args ! 2) content 0x1A4 = (Some err, cli_disk r)))"
  have ok: "?ok (finish e)" if "?good e" for e
    using that by (cases e; cases "fst e") (auto simp: finish_def)
  consider "length os_Args < 3" | "\<not> length os_Args < 3" "os_Args ! 1 = ''gateway''"
    | "\<not> length os_Args < 3" "os_Args ! 1 = ''model-service''"
    | "\<not> length os_Args < 3" "os_Args ! 1 \<noteq> ''gateway''" "os_Args ! 1 \<noteq> ''model-service''" by blast
  then show ?thesis
  proof cases
    case 2
    with e(1) have "customizer_main Y os_Args d = Some (finish e1)" by (simp add: customizer_main_def)
    with ok [OF e(2)] show ?thesis by blast
  next
    case 3
    with e(3) have "customizer_main Y os_Args d = Some (finish e2)" by (simp add: customizer_main_def)
    with ok [OF e(4)] show ?thesis by blast
  qed (simp_all add: customizer_main_def printUsage_def)
qed

end
