(* ===== verification/Replicas.thy ===== *)
theory Replicas
  imports Deployment Runnable
begin

text \<open>
  Several replicas of the process on one cluster. Each has its own memory store; all answer
  requests, since the server is wrapped in \<open>NoLeaderElection\<close>; the reconcilers, which are not,
  run on the leader only when leader election is on, and on every replica otherwise. A replica
  that loses the lead ends and is started again with an empty store.
\<close>

section \<open>The system\<close>

type_synonym replica = "memory \<times> bool"

record 'k fleet =
  rp_cluster :: 'k
  rp_leader :: "nat option"
  rp_state :: "nat \<Rightarrow> replica"

definition fresh :: replica where
  "fresh = (New, False)"

definition reconciles :: "bool \<Rightarrow> 'k fleet \<Rightarrow> nat \<Rightarrow> bool" where
  "reconciles leaderElect w r \<longleftrightarrow> \<not> (leaderElect \<and> NeedLeaderElection Plain) \<or> rp_leader w = Some r"

definition serves :: "bool \<Rightarrow> 'k fleet \<Rightarrow> nat \<Rightarrow> bool" where
  "serves leaderElect w r \<longleftrightarrow>
     \<not> (leaderElect \<and> NeedLeaderElection (NoLeaderElection Plain)) \<or> rp_leader w = Some r"

definition world_of :: "'k fleet \<Rightarrow> nat \<Rightarrow> ('k, memory) world" where
  "world_of w r = (rp_cluster w, rp_state w r)"

definition with_world :: "'k fleet \<Rightarrow> nat \<Rightarrow> ('k, memory) world \<Rightarrow> 'k fleet" where
  "with_world w r x = w\<lparr>rp_cluster := fst x, rp_state := (rp_state w)(r := snd x)\<rparr>"

text \<open>Steps in the run of the replicas, and a replica that ends and is started again.\<close>

inductive fleet_step ::
    "bool \<Rightarrow> ('k, 't, 'o, 't1, 'o1) cluster \<Rightarrow> 'k fleet \<Rightarrow> 'k fleet \<Rightarrow> bool" for leaderElect c where
  change: "outside c (rp_cluster w) k' \<Longrightarrow> fleet_step leaderElect c w (w\<lparr>rp_cluster := k'\<rparr>)"
| elect: "rp_leader w = None \<Longrightarrow> fleet_step leaderElect c w (w\<lparr>rp_leader := Some r\<rparr>)"
| user: "reconciles leaderElect w r \<Longrightarrow>
     User_Reconcile (cl_users c) (Memory id id) n (world_of w r) = Some (e, x) \<Longrightarrow>
     fleet_step leaderElect c w (with_world w r x)"
| model: "reconciles leaderElect w r \<Longrightarrow>
     Model_Reconcile (cl_models c) (Memory id id) n (world_of w r) = Some (e, x) \<Longrightarrow>
     fleet_step leaderElect c w (with_world w r x)"

definition restarted :: "'k fleet \<Rightarrow> nat \<Rightarrow> 'k fleet" where
  "restarted w r =
     w\<lparr>rp_leader := (if rp_leader w = Some r then None else rp_leader w),
       rp_state := (rp_state w)(r := fresh)\<rparr>"

inductive replicas ::
    "bool \<Rightarrow> ('k, 't, 'o, 't1, 'o1) cluster \<Rightarrow> 'k fleet \<Rightarrow> bool" for leaderElect c where
  start: "replicas leaderElect c \<lparr>rp_cluster = k, rp_leader = None, rp_state = (\<lambda>_. fresh)\<rparr>"
| restart: "replicas leaderElect c w \<Longrightarrow> replicas leaderElect c (restarted w r)"
| step: "replicas leaderElect c w \<Longrightarrow> fleet_step leaderElect c w w' \<Longrightarrow> replicas leaderElect c w'"

lemma world_of_simps [simp]:
  "world_of (with_world w r x) r = x"
  "r' \<noteq> r \<Longrightarrow> world_of (with_world w r x) r' = (fst x, rp_state w r')"
  "rp_leader (with_world w r x) = rp_leader w"
  "world_of (w\<lparr>rp_cluster := k'\<rparr>) r = (k', rp_state w r)"
  "world_of (w\<lparr>rp_leader := l\<rparr>) r = world_of w r"
  by (simp_all add: world_of_def with_world_def)

lemma every_replica_serves: "serves leaderElect w r"
  by (simp add: serves_def NoLeaderElection_def)

section \<open>With leader election\<close>

text \<open>
  Only the leader has anything in its store, and what any replica sees is what a single process
  could see.
\<close>

definition one_store :: "('k, 't, 'o, 't1, 'o1) cluster \<Rightarrow> 'k fleet \<Rightarrow> bool" where
  "one_store c w \<longleftrightarrow>
     (\<forall>r. rp_leader w \<noteq> Some r \<longrightarrow> rp_state w r = fresh) \<and> (\<forall>r. process c (world_of w r))"

text \<open>The leader's reconciliation, whose world is \<open>x\<close> afterwards.\<close>

lemma one_store_reconciled:
  assumes "one_store c w" and "rp_leader w = Some r" and "process c x"
  shows "one_store c (with_world w r x)"
  unfolding one_store_def
proof (intro conjI allI impI)
  fix r'
  show "rp_state (with_world w r x) r' = fresh" if "rp_leader (with_world w r x) \<noteq> Some r'"
    using that assms(1,2) by (auto simp: one_store_def with_world_def)
  show "process c (world_of (with_world w r x) r')"
  proof (cases "r' = r")
    case False
    with assms(1,2) have "rp_state w r' = fresh" by (auto simp: one_store_def)
    with False process_among.start [of c "outside c" "fst x"] show ?thesis by (simp add: fresh_def)
  qed (use assms(3) in simp)
qed

lemma one_store_step:
  assumes "fleet_step True c w w'" and "one_store c w"
  shows "one_store c w'"
  using assms
proof (cases rule: fleet_step.cases)
  case (change k')
  have "process c (k', rp_state w r)" for r
    using assms(2) change process_among.change [of c "outside c" "rp_cluster w" "fst (rp_state w r)" "snd (rp_state w r)" k']
    by (simp add: world_of_def one_store_def)
  with change assms(2) show ?thesis by (simp add: one_store_def)
next
  case (elect r)
  with assms(2) show ?thesis by (simp add: one_store_def)
next
  case (user r n e x)
  have "process c x" using assms(2) process_among.user [OF _ user(3)] by (simp add: one_store_def)
  with user assms(2) show ?thesis by (simp add: one_store_reconciled reconciles_def)
next
  case (model r n e x)
  have "process c x" using assms(2) process_among.model [OF _ model(3)] by (simp add: one_store_def)
  with model assms(2) show ?thesis by (simp add: one_store_reconciled reconciles_def)
qed

lemma leader_only: "replicas True c w \<Longrightarrow> one_store c w"
proof (induction rule: replicas.induct)
  case (start k)
  then show ?case using process_among.start [of c "outside c" k] by (simp add: one_store_def world_of_def fresh_def)
next
  case (restart w r)
  then show ?case
    using process_among.start [of c "outside c"] by (auto simp: one_store_def restarted_def world_of_def fresh_def)
next
  case (step w w')
  then show ?case using one_store_step by blast
qed

section \<open>Without leader election\<close>

text \<open>
  Every store is well formed. An entry whose resource is gone stays in a store: no step of any
  replica removes it, as long as no resource with its id appears and the replica is not
  restarted.
\<close>

definition no_user :: "('k, 't, 'o, 't1, 'o1) cluster \<Rightarrow> 'k fleet \<Rightarrow> string \<Rightarrow> bool" where
  "no_user c w i \<longleftrightarrow> (\<forall>n x. cl_uobjs c (rp_cluster w) n = Some x \<longrightarrow> u_Id (usr_Spec x) \<noteq> i)"

definition store_of :: "'k fleet \<Rightarrow> nat \<Rightarrow> memory" where
  "store_of w r = fst (rp_state w r)"

lemma store_of_simps [simp]:
  "store_of (w\<lparr>rp_cluster := k\<rparr>) r = store_of w r"
  "store_of (w\<lparr>rp_leader := l\<rparr>) r = store_of w r"
  "store_of (with_world w r' x) r = (if r = r' then fst (snd x) else store_of w r)"
  by (simp_all add: store_of_def with_world_def)

lemma fleet_step_store:
  assumes c: "cluster_conforms c" and good: "\<forall>r. mem_good (store_of w r)"
    and step: "fleet_step leaderElect c w w'"
  shows "\<forall>r. mem_good (store_of w' r)"
    and "no_user c w i \<Longrightarrow> users_of (store_of w' r) i = users_of (store_of w r) i"
proof -
  have "mem_good (store_of w' r) \<and> (no_user c w i \<longrightarrow> users_of (store_of w' r) i = users_of (store_of w r) i)" for r
    using step
  proof (cases rule: fleet_step.cases)
    case (user r' n e x)
    obtain k' s' b' where x: "x = (k', s', b')" by (cases x)
    have run: "User_Reconcile (cl_users c) (Memory id id) n (rp_cluster w, store_of w r', snd (rp_state w r'))
        = Some (e, (k', s', b'))"
      using user(3) x by (simp add: world_of_def store_of_def)
    from user_reconcile_frame [OF c good [rule_format] run] good show ?thesis
      by (auto simp: user(1) x no_user_def)
  next
    case (model r' n e x)
    obtain k' s' b' where x: "x = (k', s', b')" by (cases x)
    have run: "Model_Reconcile (cl_models c) (Memory id id) n (rp_cluster w, store_of w r', snd (rp_state w r'))
        = Some (e, (k', s', b'))"
      using model(3) x by (simp add: world_of_def store_of_def)
    from model_reconcile_frame [OF c good [rule_format] run] good show ?thesis
      by (auto simp: model(1) x)
  qed (use good in simp_all)
  then show "\<forall>r. mem_good (store_of w' r)"
    and "no_user c w i \<Longrightarrow> users_of (store_of w' r) i = users_of (store_of w r) i" by blast+
qed

lemma replicas_good:
  "cluster_conforms c \<Longrightarrow> replicas leaderElect c w \<Longrightarrow> \<forall>r. mem_good (store_of w r)"
proof (rotate_tac, induction rule: replicas.induct)
  case (restart w r)
  then show ?case by (auto simp: restarted_def store_of_def fresh_def mem_good_New)
next
  case (step w w')
  then show ?case using fleet_step_store(1) by blast
qed (simp add: store_of_def fresh_def mem_good_New)

text \<open>
  Steps at which no resource has the id \<open>i\<close>: of the cluster and of the replicas, and a restart of
  any replica but \<open>r\<close>.
\<close>

definition absent_step ::
    "bool \<Rightarrow> ('k, 't, 'o, 't1, 'o1) cluster \<Rightarrow> nat \<Rightarrow> string \<Rightarrow> 'k fleet \<Rightarrow> 'k fleet \<Rightarrow> bool" where
  "absent_step leaderElect c r i w w' \<longleftrightarrow>
     no_user c w i \<and> (fleet_step leaderElect c w w' \<or> (\<exists>r'. r' \<noteq> r \<and> w' = restarted w r'))"

lemma stale_entry_stays:
  assumes c: "cluster_conforms c"
  shows "(absent_step leaderElect c r i)\<^sup>*\<^sup>* w w' \<Longrightarrow> \<forall>r. mem_good (store_of w r) \<Longrightarrow>
     (\<forall>r. mem_good (store_of w' r)) \<and> users_of (store_of w' r) i = users_of (store_of w r) i"
proof (induction rule: rtranclp_induct)
  case (step w1 w2)
  from step.hyps(2) have none: "no_user c w1 i" by (simp add: absent_step_def)
  from step.hyps(2) consider "fleet_step leaderElect c w1 w2" | r' where "r' \<noteq> r" "w2 = restarted w1 r'"
    by (auto simp: absent_step_def)
  then show ?case
  proof cases
    case 1
    with step none fleet_step_store [OF c _ 1] show ?thesis by simp
  next
    case (2 r')
    with step show ?thesis by (auto simp: restarted_def store_of_def fresh_def mem_good_New)
  qed
qed simp

end
