(* ===== verification/Resync.thy ===== *)
theory Resync
  imports Deployment
begin

text \<open>
  What a round of reconciliations over all resources makes of the store of a process, wherever the
  process was: the catalog of the resources that are not being deleted.
\<close>

section \<open>An available cluster\<close>

text \<open>
  An API server that is reachable and whose state the client has seen: reading answers as the
  cluster is, and adding and removing the finalizer succeeds.
\<close>

definition available :: "('k, 'x) kube \<Rightarrow> string \<Rightarrow> ('k \<Rightarrow> string \<rightharpoonup> 'x) \<Rightarrow> bool" where
  "available K finalizer objs \<longleftrightarrow>
     (\<forall>k n. case objs k n of
        None \<Rightarrow> (\<exists>e. kube_Get K k n = Inl e \<and> IsNotFound K e)
      | Some x \<Rightarrow> kube_Get K k n = Inr x
          \<and> (\<exists>x' k'. kube_Update K k (AddFinalizer K x finalizer) = (None, x', k'))
          \<and> (\<exists>x' k'. kube_Update K k (RemoveFinalizer K x finalizer) = (None, x', k')))"

text \<open>The contents of the objects that are not marked for deletion, by name.\<close>

definition live_objs :: "('k, 'x) kube \<Rightarrow> ('x \<Rightarrow> 'c) \<Rightarrow> (string \<rightharpoonup> 'x) \<Rightarrow> string \<rightharpoonup> 'c" where
  "live_objs K content os n =
     (case os n of None \<Rightarrow> None
      | Some x \<Rightarrow> if GetDeletionTimestamp K x = None then Some (content x) else None)"

lemma live_objs_some:
  "live_objs K content os n = Some c \<longleftrightarrow> (\<exists>x. os n = Some x \<and> GetDeletionTimestamp K x = None \<and> content x = c)"
  by (auto simp: live_objs_def split: option.splits)

text \<open>The objects have distinct ids, and none is empty.\<close>

definition distinct_ids :: "('x \<Rightarrow> string) \<Rightarrow> (string \<rightharpoonup> 'x) \<Rightarrow> bool" where
  "distinct_ids ident os \<longleftrightarrow>
     (\<forall>n x. os n = Some x \<longrightarrow> ident x \<noteq> [])
     \<and> (\<forall>m n x y. os m = Some x \<longrightarrow> os n = Some y \<longrightarrow> ident x = ident y \<longrightarrow> m = n)"

lemma distinct_ids_contents:
  assumes "distinct_ids (\<lambda>x. ident (content x)) os"
    and "\<forall>n x'. os' n = Some x' \<longrightarrow> (\<exists>x. os n = Some x \<and> content x = content x')"
  shows "distinct_ids (\<lambda>x. ident (content x)) os'"
  using assms unfolding distinct_ids_def by metis

section \<open>One round\<close>

context reconciled_store
begin

text \<open>
  What a reconciliation without an error achieves for the object of its name: the store has its
  content, or it is being deleted and no longer has the finalizer.
\<close>

definition settled ::
    "('k, 'x) kube \<Rightarrow> string \<Rightarrow> ('x \<Rightarrow> 'c) \<Rightarrow> (string \<rightharpoonup> 'x) \<Rightarrow> 's \<Rightarrow> string \<Rightarrow> bool" where
  "settled K finalizer content os s n \<longleftrightarrow>
     (\<forall>x. os n = Some x \<longrightarrow>
        (if GetDeletionTimestamp K x = None then specs s (ident (content x)) = Some (content x)
         else \<not> ContainsFinalizer K x finalizer))"

lemma reconcile_settles:
  assumes K: "kube_conforms K name content objs"
    and I: "I s" and good: "\<forall>n x. objs k n = Some x \<longrightarrow> good (content x)"
    and ids: "distinct_ids (\<lambda>x. ident (content x)) (objs k)"
    and run: "reconcile K finalizer (\<lambda>s x. del s (content x)) (\<lambda>s x. sync s (content x)) what n
        (k, s, b) = Some (None, (k', s', b'))"
  shows "settled K finalizer content (objs k') s' n"
    and "settled K finalizer content (objs k) s m \<Longrightarrow> settled K finalizer content (objs k') s' m"
    and "live_objs K content (objs k') = live_objs K content (objs k)"
proof -
  have other: "ident (content y) \<noteq> ident (content x)"
    if "objs k n = Some x" "objs k m = Some y" "m \<noteq> n" for x y m
    using ids that unfolding distinct_ids_def by metis
  have "settled K finalizer content (objs k') s' n
    \<and> (settled K finalizer content (objs k) s m \<longrightarrow> settled K finalizer content (objs k') s' m)
    \<and> live_objs K content (objs k') = live_objs K content (objs k)"
  proof (cases rule: reconcile_cases [OF K I good run, case_names untouched refused deleted synced])
    case untouched
    then show ?thesis by (auto simp: settled_def)
  next
    case (refused x x')
    then show ?thesis by simp
  next
    case (deleted x)
    have "live_objs K content (objs k') m = live_objs K content (objs k) m" for m
      using deleted(1,2,7,8) by (cases "m = n") (auto simp: live_objs_def split: option.splits)
    moreover have here: "settled K finalizer content (objs k') s' n"
      using deleted(2,8,9) by (auto simp: settled_def split: option.splits)
    moreover have "settled K finalizer content (objs k') s' m" if "settled K finalizer content (objs k) s m"
      using that here deleted(5,7) other [OF deleted(1)] by (cases "m = n") (auto simp: settled_def)
    ultimately show ?thesis by auto
  next
    case (synced x x')
    have "live_objs K content (objs k') m = live_objs K content (objs k) m" for m
      using synced(1,2,7,9,10) by (cases "m = n") (auto simp: live_objs_def)
    moreover have here: "settled K finalizer content (objs k') s' n"
      using synced(5,7,9,10) by (simp add: settled_def)
    moreover have "settled K finalizer content (objs k') s' m" if "settled K finalizer content (objs k) s m"
      using that here synced(5,9) other [OF synced(1)] by (cases "m = n") (auto simp: settled_def)
    ultimately show ?thesis by auto
  qed
  then show "settled K finalizer content (objs k') s' n"
    and "settled K finalizer content (objs k) s m \<Longrightarrow> settled K finalizer content (objs k') s' m"
    and "live_objs K content (objs k') = live_objs K content (objs k)" by blast+
qed

text \<open>With an available cluster there is no error.\<close>

lemma reconcile_available:
  assumes K: "kube_conforms K name content objs" and av: "available K finalizer objs"
    and I: "I s" and good: "\<forall>n x. objs k n = Some x \<longrightarrow> good (content x)"
    and ids: "distinct_ids (\<lambda>x. ident (content x)) (objs k)"
  shows "\<exists>w. reconcile K finalizer (\<lambda>s x. del s (content x)) (\<lambda>s x. sync s (content x)) what n
      (k, s, b) = Some (None, w)"
proof (cases "objs k n")
  case None
  with av [unfolded available_def, rule_format, of k n] obtain e where
      "kube_Get K k n = Inl e" "IsNotFound K e" by auto
  then show ?thesis by (simp add: reconcile_def)
next
  case (Some x)
  with av [unfolded available_def, rule_format, of k n] have get: "kube_Get K k n = Inr x"
    and "\<exists>x' k'. kube_Update K k (AddFinalizer K x finalizer) = (None, x', k')"
      "\<exists>x' k'. kube_Update K k (RemoveFinalizer K x finalizer) = (None, x', k')" by auto
  then obtain x1 k1 x2 k2 where up: "kube_Update K k (AddFinalizer K x finalizer) = (None, x1, k1)"
      "kube_Update K k (RemoveFinalizer K x finalizer) = (None, x2, k2)" by blast
  have c1: "content x1 = content x"
    using kube_conforms_Update(2) [OF K up(1)] kube_conforms_finalizers(3) [OF K] by simp
  have "ident (content x) \<noteq> []" using ids Some unfolding distinct_ids_def by blast
  then obtain s1 where sync: "sync s (content x) = Some (None, s1)"
    using sync_eq [OF I, of "content x"] good Some by blast
  obtain s2 where del: "del s (content x) = Some (None, s2)" using del_eq [OF I] by blast
  show ?thesis
  proof (cases "GetDeletionTimestamp K x = None")
    case True
    with get up(1) c1 sync show ?thesis
      by (cases "ContainsFinalizer K x finalizer") (simp_all add: reconcile_def del: split_paired_Ex)
  next
    case False
    with get up(2) del show ?thesis
      by (cases "ContainsFinalizer K x finalizer") (simp_all add: reconcile_def del: split_paired_Ex)
  qed
qed

text \<open>A round over the names \<open>ns\<close>: no error, and every name is settled.\<close>

lemma round_settles:
  assumes K: "kube_conforms K name content objs" and av: "available K finalizer objs"
  shows "I s \<Longrightarrow> \<forall>n x. objs k n = Some x \<longrightarrow> good (content x) \<Longrightarrow>
     distinct_ids (\<lambda>x. ident (content x)) (objs k) \<Longrightarrow> backed K finalizer content (objs k) s \<Longrightarrow>
     \<exists>k' s' b'. reconcile_all (reconcile K finalizer (\<lambda>s x. del s (content x)) (\<lambda>s x. sync s (content x)) what) ns
        (k, s, b) = Some (replicate (length ns) None, (k', s', b'))
      \<and> I s' \<and> backed K finalizer content (objs k') s'
      \<and> live_objs K content (objs k') = live_objs K content (objs k)
      \<and> (\<forall>n. n \<in> set ns \<or> settled K finalizer content (objs k) s n \<longrightarrow> settled K finalizer content (objs k') s' n)"
proof (induction ns arbitrary: k s b)
  case (Cons n ns)
  let ?rec = "reconcile K finalizer (\<lambda>s x. del s (content x)) (\<lambda>s x. sync s (content x)) what"
  note prems = Cons.prems(1-3)
  from reconcile_available [OF K av prems] obtain k1 s1 b1 where
      one: "?rec n (k, s, b) = Some (None, (k1, s1, b1))" by (metis prod_cases3)
  note settles = reconcile_settles [OF K prems one]
  note frame = reconcile_frame [OF K prems(1,2) one]
  have contents: "\<forall>m x'. objs k1 m = Some x' \<longrightarrow> (\<exists>x. objs k m = Some x \<and> content x = content x')"
    using frame(3) by blast
  then have good: "\<forall>n x. objs k1 n = Some x \<longrightarrow> good (content x)" using prems(2) by metis
  from Cons.IH [OF frame(1) good distinct_ids_contents [OF prems(3) contents]
      reconcile_backed(2) [OF K prems(1,2) one Cons.prems(4)], of b1]
  obtain k' s' b' where rest: "reconcile_all ?rec ns (k1, s1, b1) = Some (replicate (length ns) None, (k', s', b'))"
      "I s'" "backed K finalizer content (objs k') s'"
      "live_objs K content (objs k') = live_objs K content (objs k1)"
      "\<forall>n. n \<in> set ns \<or> settled K finalizer content (objs k1) s1 n \<longrightarrow> settled K finalizer content (objs k') s' n"
    by blast
  have "reconcile_all ?rec (n # ns) (k, s, b) = Some (replicate (length (n # ns)) None, (k', s', b'))"
    using one rest(1) by simp
  moreover have "settled K finalizer content (objs k') s' m"
    if "m \<in> set (n # ns) \<or> settled K finalizer content (objs k) s m" for m
    using that settles(1) settles(2) [of m] rest(5) by auto
  ultimately show ?case using rest(2-4) settles(3) by (metis (no_types, lifting))
qed auto

text \<open>Where every object is settled and every spec is backed, the store is the catalog.\<close>

lemma settled_catalog:
  assumes "\<forall>n \<in> dom os. settled K finalizer content os s n" and "backed K finalizer content os s"
  shows "specs s i = Some c \<longleftrightarrow> (\<exists>n. live_objs K content os n = Some c \<and> ident c = i)"
proof
  assume c: "specs s i = Some c"
  with assms(2) obtain n x where x: "os n = Some x" "ContainsFinalizer K x finalizer" "ident (content x) = i"
    unfolding backed_def by blast
  with assms(1) have "settled K finalizer content os s n" by blast
  with x c show "\<exists>n. live_objs K content os n = Some c \<and> ident c = i"
    unfolding settled_def live_objs_some by (metis option.inject)
next
  assume "\<exists>n. live_objs K content os n = Some c \<and> ident c = i"
  then obtain n x where "os n = Some x" "GetDeletionTimestamp K x = None" "content x = c" "ident c = i"
    unfolding live_objs_some by blast
  with assms(1) show "specs s i = Some c" unfolding settled_def by (metis domI)
qed

lemma round_catalog:
  assumes K: "kube_conforms K name content objs" and av: "available K finalizer objs"
    and I: "I s" and good: "\<forall>n x. objs k n = Some x \<longrightarrow> good (content x)"
    and ids: "distinct_ids (\<lambda>x. ident (content x)) (objs k)" and bk: "backed K finalizer content (objs k) s"
    and all: "dom (objs k) \<subseteq> set ns"
  shows "\<exists>k' s' b'. reconcile_all (reconcile K finalizer (\<lambda>s x. del s (content x)) (\<lambda>s x. sync s (content x)) what) ns
        (k, s, b) = Some (replicate (length ns) None, (k', s', b'))
      \<and> I s' \<and> (\<forall>i c. specs s' i = Some c \<longleftrightarrow> (\<exists>n. live_objs K content (objs k) n = Some c \<and> ident c = i))"
proof -
  from round_settles [OF K av I good ids bk, of what ns b] obtain k' s' b' where
      r: "reconcile_all (reconcile K finalizer (\<lambda>s x. del s (content x)) (\<lambda>s x. sync s (content x)) what) ns
        (k, s, b) = Some (replicate (length ns) None, (k', s', b'))" "I s'" "backed K finalizer content (objs k') s'"
      "live_objs K content (objs k') = live_objs K content (objs k)"
      "\<forall>n. n \<in> set ns \<or> settled K finalizer content (objs k) s n \<longrightarrow> settled K finalizer content (objs k') s' n"
    by blast
  have "settled K finalizer content (objs k') s' n" for n
  proof (cases "n \<in> set ns")
    case False
    with all have "settled K finalizer content (objs k) s n" by (auto simp: settled_def)
    with r(5) show ?thesis by blast
  qed (use r(5) in blast)
  with settled_catalog [OF _ r(3)] r(1,2,4) show ?thesis by (metis (no_types, lifting))
qed

end

section \<open>A process and its cluster\<close>

definition cluster_available :: "('k, 't, 'o, 't1, 'o1) cluster \<Rightarrow> bool" where
  "cluster_available c \<longleftrightarrow>
     available (cl_users c) userFinalizer (cl_uobjs c) \<and> available (cl_models c) modelFinalizer (cl_mobjs c)"

lemma reconcile_all_objs_other:
  assumes "\<forall>k x e x' k'. kube_Update K k x = (e, x', k') \<longrightarrow> other k' = other k"
  shows "reconcile_all (reconcile K f del sync what) ns (k, s, b) = Some (es, (k', s', b')) \<Longrightarrow>
     other k' = other k"
proof (induction ns arbitrary: k s b es)
  case (Cons n ns)
  from Cons.prems obtain e k1 s1 b1 es1 where
      "reconcile K f del sync what n (k, s, b) = Some (e, (k1, s1, b1))"
      "reconcile_all (reconcile K f del sync what) ns (k1, s1, b1) = Some (es1, (k', s', b'))"
    by (auto simp: bind_eq_Some_conv)
  with Cons.IH reconcile_objs_other [where other = other, OF assms] show ?case by metis
qed simp

lemma users_round:
  assumes c: "cluster_conforms c" and av: "cluster_available c" and s: "mem_good s"
    and bk: "users_backed c k s" and ids: "distinct_ids (\<lambda>x. u_Id (usr_Spec x)) (cl_uobjs c k)"
    and all: "dom (cl_uobjs c k) \<subseteq> set ns"
  obtains k' s' b' where
    "reconcile_all (User_Reconcile (cl_users c) (Memory uord mord)) ns (k, s, b)
        = Some (replicate (length ns) None, (k', s', b'))"
    "mem_good s'" "models_of s' = models_of s" "cl_mobjs c k' = cl_mobjs c k"
    "\<forall>i u. users_of s' i = Some u \<longleftrightarrow>
       (\<exists>n. live_objs (cl_users c) usr_Spec (cl_uobjs c k) n = Some u \<and> u_Id u = i)"
proof -
  have K: "kube_conforms (cl_users c) (cl_uname c) usr_Spec (cl_uobjs c)"
    and adm: "\<forall>n x. cl_uobjs c k n = Some x \<longrightarrow> good_user (usr_Spec x)"
    and oth: "\<forall>k x e x' k'. kube_Update (cl_users c) k x = (e, x', k') \<longrightarrow> cl_mobjs c k' = cl_mobjs c k"
    using c by (simp_all add: cluster_conforms_def)
  have av': "available (cl_users c) userFinalizer (cl_uobjs c)" using av by (simp add: cluster_available_def)
  have I: "mem_good s \<and> models_of s = models_of s" using s by simp
  from user_store.round_catalog [OF K av' I adm ids bk [unfolded users_backed_iff] all]
  obtain k' s' b' where r: "reconcile_all (User_Reconcile (cl_users c) (Memory uord mord)) ns (k, s, b)
        = Some (replicate (length ns) None, (k', s', b'))" "mem_good s' \<and> models_of s' = models_of s"
      "\<forall>i u. users_of s' i = Some u \<longleftrightarrow>
         (\<exists>n. live_objs (cl_users c) usr_Spec (cl_uobjs c k) n = Some u \<and> u_Id u = i)"
    unfolding User_Reconcile_memory by blast
  have "cl_mobjs c k' = cl_mobjs c k"
    using reconcile_all_objs_other [where other = "cl_mobjs c", OF oth r(1) [unfolded User_Reconcile_memory]] .
  with that r show ?thesis by blast
qed

lemma models_round:
  assumes c: "cluster_conforms c" and av: "cluster_available c" and s: "mem_good s"
    and bk: "models_backed c k s" and ids: "distinct_ids (\<lambda>x. m_Id (mod_Spec x)) (cl_mobjs c k)"
    and all: "dom (cl_mobjs c k) \<subseteq> set ns"
  obtains k' s' b' where
    "reconcile_all (Model_Reconcile (cl_models c) (Memory uord mord)) ns (k, s, b)
        = Some (replicate (length ns) None, (k', s', b'))"
    "mem_good s'" "users_of s' = users_of s"
    "\<forall>i m. models_of s' i = Some m \<longleftrightarrow>
       (\<exists>n. live_objs (cl_models c) mod_Spec (cl_mobjs c k) n = Some m \<and> m_Id m = i)"
proof -
  have K: "kube_conforms (cl_models c) (cl_mname c) mod_Spec (cl_mobjs c)"
    and adm: "\<forall>n x. cl_mobjs c k n = Some x \<longrightarrow> good_model (mod_Spec x)"
    using c by (simp_all add: cluster_conforms_def)
  have av': "available (cl_models c) modelFinalizer (cl_mobjs c)" using av by (simp add: cluster_available_def)
  have I: "mem_good s \<and> users_of s = users_of s" using s by simp
  from model_store.round_catalog [OF K av' I adm ids bk [unfolded models_backed_iff] all] that
  show ?thesis unfolding Model_Reconcile_memory by blast
qed

end
