(* ===== verification/ReplicaProperties.thy ===== *)
theory ReplicaProperties
  imports Demo Replicas Resync
begin

text \<open>
  The properties of the process in its deployment: what a restart rebuilds, what several replicas
  keep, when the server ends.
\<close>

section \<open>Convergence\<close>

text \<open>
  C38. A process starts with an empty store, reconciles, and everybody else changes the cluster in
  any way that respects finalizers: a resource that carries the finalizer keeps it, keeps its
  \<open>spec.id\<close>, and is not removed; so no second process releases finalizers and nobody edits the id
  of a resource that was synced. Wherever the process is after that: when the ids of the
  resources are distinct and not empty, the API server is reachable, its answers are up to date,
  and each resource is reconciled once, then nothing fails or panics, and the store holds exactly
  the users and the models of the cluster that are not being deleted.
\<close>

theorem resync_converges:
  assumes "cluster_conforms c" and "cluster_available c"
    and "process_among c others (k, s, b)" and "\<forall>k k'. others k k' \<longrightarrow> outside c k k'"
    and "distinct_ids (\<lambda>x. u_Id (usr_Spec x)) (cl_uobjs c k)"
    and "distinct_ids (\<lambda>x. m_Id (mod_Spec x)) (cl_mobjs c k)"
    and "dom (cl_uobjs c k) \<subseteq> set ns" and "dom (cl_mobjs c k) \<subseteq> set ms"
  shows "\<exists>k1 s1 b1 k2 s2 b2.
       reconcile_all (User_Reconcile (cl_users c) (Memory uord mord)) ns (k, s, b)
         = Some (replicate (length ns) None, (k1, s1, b1))
     \<and> reconcile_all (Model_Reconcile (cl_models c) (Memory uord mord)) ms (k1, s1, b1)
         = Some (replicate (length ms) None, (k2, s2, b2))
     \<and> (\<forall>i u. users_of s2 i = Some u \<longleftrightarrow>
          (\<exists>n. live_objs (cl_users c) usr_Spec (cl_uobjs c k) n = Some u \<and> u_Id u = i))
     \<and> (\<forall>i m. models_of s2 i = Some m \<longleftrightarrow>
          (\<exists>n. live_objs (cl_models c) mod_Spec (cl_mobjs c k) n = Some m \<and> m_Id m = i))"
proof -
  from process_inv [OF assms(1) process_among_mono [OF assms(4,3)]]
  have good: "mem_good s" and ub: "users_backed c k s" and mb: "models_backed c k s" by auto
  from users_round [OF assms(1,2) good ub assms(5,7), of uord mord b]
  obtain k1 s1 b1 where u: "reconcile_all (User_Reconcile (cl_users c) (Memory uord mord)) ns (k, s, b)
        = Some (replicate (length ns) None, (k1, s1, b1))" "mem_good s1" "models_of s1 = models_of s"
      "cl_mobjs c k1 = cl_mobjs c k"
      "\<forall>i u. users_of s1 i = Some u \<longleftrightarrow>
         (\<exists>n. live_objs (cl_users c) usr_Spec (cl_uobjs c k) n = Some u \<and> u_Id u = i)" .
  from mb u(3,4) have "models_backed c k1 s1" by (simp add: models_backed_def)
  from models_round [OF assms(1,2) u(2) this, unfolded u(4), OF assms(6,8), of uord mord b1]
  obtain k2 s2 b2 where "reconcile_all (Model_Reconcile (cl_models c) (Memory uord mord)) ms (k1, s1, b1)
        = Some (replicate (length ms) None, (k2, s2, b2))" "users_of s2 = users_of s1"
      "\<forall>i m. models_of s2 i = Some m \<longleftrightarrow>
         (\<exists>n. live_objs (cl_models c) mod_Spec (cl_mobjs c k) n = Some m \<and> m_Id m = i)" .
  with u(1,5) show ?thesis by (intro exI conjI) simp_all
qed

lemma demo_cluster_available: "cluster_available demo_kube"
  unfolding cluster_available_def available_def
  by (auto simp: demo_kube_def demo_users_kube_def demo_models_kube_def demo_get_def demo_put_def demo_objs_def
      add_finalizer_def remove_finalizer_def user_ok_def model_ok_def split: option.splits if_splits)

text \<open>A process that has synced Alice; then she is marked for deletion, and a model is new.\<close>

definition demo_changed :: demo_cluster where
  "demo_changed = ([''alice-cr'' \<mapsto> alice_cr [userFinalizer] (Some 1)], [''med-cr'' \<mapsto> med_cr [] None])"

lemma demo_changed_objs:
  "cl_uobjs demo_kube demo_changed = [''alice-cr'' \<mapsto> alice_cr [userFinalizer] (Some 1)]"
  "cl_mobjs demo_kube demo_changed = [''med-cr'' \<mapsto> med_cr [] None]"
  by (auto simp: demo_kube_def demo_changed_def demo_kube_defs fun_eq_iff)

lemma demo_changed_reached: "process demo_kube (demo_changed, alice_store, True)"
proof (rule process_among.change)
  have "User_Reconcile (cl_users demo_kube) (Memory id id) ''alice-cr'' (with_alice [] None, New, False)
      = Some (None, (with_alice [userFinalizer] None, alice_store, True))"
    by (simp add: demo_sync_run)
  with process_among.user [OF process_among.start [of demo_kube "outside demo_kube" "with_alice [] None"]]
  show "process demo_kube (with_alice [userFinalizer] None, alice_store, True)" by blast
  have "cl_uobjs demo_kube (with_alice [userFinalizer] None) = [''alice-cr'' \<mapsto> alice_cr [userFinalizer] None]"
      "cl_mobjs demo_kube (with_alice [userFinalizer] None) = Map.empty"
    by (auto simp: demo_kube_def demo_kube_defs fun_eq_iff)
  then show "outside demo_kube (with_alice [userFinalizer] None) demo_changed"
    unfolding outside_def keeps_finalized_def demo_changed_objs
    by (simp add: demo_users_kube_def alice_cr_def)
qed

lemma resync_converges_witness:
  "\<exists>k1 s1 b1 k2 s2 b2.
     reconcile_all (User_Reconcile demo_users_kube (Memory id id)) [''alice-cr''] (demo_changed, alice_store, True)
       = Some ([None], (k1, s1, b1))
   \<and> reconcile_all (Model_Reconcile demo_models_kube (Memory id id)) [''med-cr''] (k1, s1, b1)
       = Some ([None], (k2, s2, b2))
   \<and> users_of s2 ''alice'' = None \<and> models_of s2 ''med'' = Some medlora"
proof -
  have ids: "distinct_ids (\<lambda>x. u_Id (usr_Spec x)) (cl_uobjs demo_kube demo_changed)"
      "distinct_ids (\<lambda>x. m_Id (mod_Spec x)) (cl_mobjs demo_kube demo_changed)"
    unfolding demo_changed_objs distinct_ids_def by (auto simp: demo_kube_defs split: if_splits)
  have d: "dom (cl_uobjs demo_kube demo_changed) \<subseteq> set [''alice-cr'']"
      "dom (cl_mobjs demo_kube demo_changed) \<subseteq> set [''med-cr'']"
    unfolding demo_changed_objs by simp_all
  from resync_converges [OF demo_cluster_conforms demo_cluster_available demo_changed_reached _ ids d, of id id]
  obtain k1 s1 b1 k2 s2 b2 where r:
      "reconcile_all (User_Reconcile demo_users_kube (Memory id id)) [''alice-cr''] (demo_changed, alice_store, True)
         = Some ([None], (k1, s1, b1))"
      "reconcile_all (Model_Reconcile demo_models_kube (Memory id id)) [''med-cr''] (k1, s1, b1)
         = Some ([None], (k2, s2, b2))"
      "\<forall>i u. users_of s2 i = Some u \<longleftrightarrow> (\<exists>n. live_objs demo_users_kube usr_Spec
          [''alice-cr'' \<mapsto> alice_cr [userFinalizer] (Some 1)] n = Some u \<and> u_Id u = i)"
      "\<forall>i m. models_of s2 i = Some m \<longleftrightarrow> (\<exists>n. live_objs demo_models_kube mod_Spec
          [''med-cr'' \<mapsto> med_cr [] None] n = Some m \<and> m_Id m = i)"
    unfolding demo_changed_objs by auto
  have "live_objs demo_users_kube usr_Spec [''alice-cr'' \<mapsto> alice_cr [userFinalizer] (Some 1)] n = None" for n
    by (simp add: live_objs_def demo_users_kube_def alice_cr_def)
  with r(3) have "\<forall>u. users_of s2 ''alice'' \<noteq> Some u" by simp
  moreover have "live_objs demo_models_kube mod_Spec [''med-cr'' \<mapsto> med_cr [] None] ''med-cr'' = Some medlora
      \<and> m_Id medlora = ''med''"
    by (simp add: live_objs_def demo_models_kube_def med_cr_def)
  with r(4) [rule_format, of "''med''" medlora] have "models_of s2 ''med'' = Some medlora" by (auto intro: exI [of _ "''med-cr''"])
  ultimately show ?thesis using r(1,2) by (metis not_None_eq)
qed

section \<open>Several replicas\<close>






section \<open>The server's end\<close>

text \<open>
  C40. In whatever order listening and serving return, the context ends and the goroutine is
  scheduled: the gRPC server ends without an error only after the end of the manager's context,
  and an error it ends with is that of listening or of serving, with the port or the name in
  front. While it serves, the end of the context and the next turn of the goroutine call
  \<open>GracefulStop\<close>; before the end of the context nothing does. The library lets \<open>Serve\<close> return nil
  only once \<open>GracefulStop\<close> has been called.
\<close>

theorem grpc_ends_only_on_shutdown:
  assumes "serve_documented name port GRPCServer_start es"
  shows "(case gs_place (GRPCServer name port es) of
       Returned None \<Rightarrow> Cancelled \<in> set es
     | Returned (Some err) \<Rightarrow>
         (\<exists>e. err = Wrap (''failed to listen on port '' @ itoa port @ '': '') e \<and> Listened (Some e) \<in> set es
            \<or> err = Wrap (''gRPC server '' @ name @ '' failed: '') e \<and> Served (Some e) \<in> set es)
     | Serving \<Rightarrow> (Cancelled \<in> set es \<longrightarrow> gs_waiter (GRPCServer name port (es @ [Scheduled])) = StopCalled)
     | Listening \<Rightarrow> True)
   \<and> (gs_waiter (GRPCServer name port es) = StopCalled \<longrightarrow> Cancelled \<in> set es)"
proof -
  from grpc_inv_GRPCServer [OF assms] have "grpc_inv (GRPCServer name port es)" .
  then show ?thesis
    using gs_ended_iff [of name port es] error_origin [of name port es]
    by (cases "gs_waiter (GRPCServer name port es)")
      (auto simp: grpc_inv_def GRPCServer_snoc split: grpc_place.split option.split)
qed

text \<open>A run to the end; and the goroutine scheduled before the end of the context, which waits on.\<close>

lemma grpc_ends_only_on_shutdown_witness:
  "gs_place (GRPCServer ''ext-auth'' 9000 [Listened None, Scheduled, Cancelled, Scheduled, Served None]) = Returned None
     \<and> Cancelled \<in> set [Listened None, Scheduled, Cancelled, Scheduled, Served None]
     \<and> gs_waiter (GRPCServer ''ext-auth'' 9000 [Listened None, Scheduled]) = AwaitsDone"
  using grpc_ends_only_on_shutdown [where name = "''ext-auth''" and port = 9000
      and es = "[Listened None, Scheduled, Cancelled, Scheduled, Served None]"]
  by (simp add: GRPCServer_def GRPCServer_start_def)

end
