(* ===== verification/Caches.thy ===== *)
theory Caches
  imports Deployment
begin

text \<open>
  The reconcilers with the client they really have: reads come from a cache that follows the API
  server at some distance, and an update is accepted only when the object it was made from is the
  one the API server holds; when the answer is lost, an update may have been made although it
  reports an error. \<open>Deployment\<close> is the case of a cache that is never behind.
\<close>

section \<open>The client\<close>

text \<open>
  \<open>log k n\<close> are the versions of the object \<open>n\<close> from the one in the cache, the first, to the one the
  API server holds, the last; \<open>None\<close> is a time without an object. Every version has its own
  resource version \<open>ver\<close>. The cache may get ahead in an update.
\<close>

definition accepted ::
    "('k, 'x) kube \<Rightarrow> ('x \<Rightarrow> string) \<Rightarrow> ('x \<Rightarrow> 'c) \<Rightarrow> ('x \<Rightarrow> 'r) \<Rightarrow> ('k \<Rightarrow> string \<Rightarrow> 'x option list)
      \<Rightarrow> 'k \<Rightarrow> 'x \<Rightarrow> 'k \<Rightarrow> bool" where
  "accepted K name content ver log k x k' \<longleftrightarrow>
     (\<exists>y v j. last (log k (name x)) = Some y \<and> ver y = ver x
        \<and> log k' = (log k)(name x := drop j (log k (name x) @ [v])) \<and> j \<le> length (log k (name x))
        \<and> (case v of None \<Rightarrow> GetDeletionTimestamp K x \<noteq> None
           | Some x' \<Rightarrow> content x' = content x \<and> GetDeletionTimestamp K x' = GetDeletionTimestamp K x
               \<and> (\<forall>f. ContainsFinalizer K x' f = ContainsFinalizer K x f)))"

definition cached_conforms ::
    "('k, 'x) kube \<Rightarrow> ('x \<Rightarrow> string) \<Rightarrow> ('x \<Rightarrow> 'c) \<Rightarrow> ('x \<Rightarrow> 'r) \<Rightarrow> ('k \<Rightarrow> string \<Rightarrow> 'x option list) \<Rightarrow> bool"
where
  "cached_conforms K name content ver log \<longleftrightarrow>
     (\<forall>k n. log k n \<noteq> []
        \<and> (\<forall>i j x y. i < length (log k n) \<longrightarrow> j < length (log k n) \<longrightarrow>
             log k n ! i = Some x \<longrightarrow> log k n ! j = Some y \<longrightarrow> ver x = ver y \<longrightarrow> i = j))
     \<and> (\<forall>k n x. kube_Get K k n = Inr x \<longrightarrow> hd (log k n) = Some x \<and> name x = n)
     \<and> (\<forall>x f. name (AddFinalizer K x f) = name x \<and> name (RemoveFinalizer K x f) = name x
          \<and> ver (AddFinalizer K x f) = ver x \<and> ver (RemoveFinalizer K x f) = ver x
          \<and> GetDeletionTimestamp K (AddFinalizer K x f) = GetDeletionTimestamp K x
          \<and> GetDeletionTimestamp K (RemoveFinalizer K x f) = GetDeletionTimestamp K x)
     \<and> finalizer_laws K content
     \<and> (\<forall>k x e x' k'. kube_Update K k x = (e, x', k') \<longrightarrow>
          (accepted K name content ver log k x k' \<or> e \<noteq> None \<and> log k' = log k)
          \<and> (e = None \<longrightarrow> content x' = content x \<and> (\<forall>f. ContainsFinalizer K x' f = ContainsFinalizer K x f)))"

text \<open>An accepted update of the object in the cache: the cache was not behind.\<close>

lemma accepted_cached:
  assumes K: "cached_conforms K name content ver log"
    and hd: "hd (log k n) = Some x0" and x: "name x = n" "ver x = ver x0"
    and acc: "accepted K name content ver log k x k'"
  obtains v l where "log k n = [Some x0]" "log k' = (log k)(n := l)" "l = [Some x0, v] \<or> l = [v]"
    "case v of None \<Rightarrow> GetDeletionTimestamp K x \<noteq> None
     | Some x' \<Rightarrow> content x' = content x \<and> GetDeletionTimestamp K x' = GetDeletionTimestamp K x
         \<and> (\<forall>f. ContainsFinalizer K x' f = ContainsFinalizer K x f)"
proof -
  from acc x(1) obtain y v j where y: "last (log k n) = Some y" "ver y = ver x"
      and l: "log k' = (log k)(n := drop j (log k n @ [v]))" "j \<le> length (log k n)"
      and v: "case v of None \<Rightarrow> GetDeletionTimestamp K x \<noteq> None
     | Some x' \<Rightarrow> content x' = content x \<and> GetDeletionTimestamp K x' = GetDeletionTimestamp K x
         \<and> (\<forall>f. ContainsFinalizer K x' f = ContainsFinalizer K x f)"
    unfolding accepted_def by blast
  note logs = K [unfolded cached_conforms_def, THEN conjunct1, THEN spec [of _ k], THEN spec [of _ n]]
  from logs have ne: "log k n \<noteq> []" by (rule conjunct1)
  note dist = logs [THEN conjunct2, rule_format]
  from ne have len: "0 < length (log k n)" "length (log k n) - 1 < length (log k n)" by simp_all
  have "log k n ! 0 = Some x0" using hd ne by (simp add: hd_conv_nth)
  moreover have "log k n ! (length (log k n) - 1) = Some y" using y(1) ne by (simp add: last_conv_nth)
  ultimately have "0 = length (log k n) - 1" using dist [OF len] y(2) x(2) by simp
  with ne have "length (log k n) = 1" by (cases "log k n") auto
  then have one: "log k n = [Some x0]" using hd by (cases "log k n") auto
  moreover from l(2) one have "j = 0 \<or> j = 1" by auto
  then have "drop j (log k n @ [v]) = [Some x0, v] \<or> drop j (log k n @ [v]) = [v]"
    by (auto simp: one)
  ultimately show ?thesis using that l(1) v by blast
qed

section \<open>Reconciling from the cache\<close>

text \<open>
  What the log must keep for the store to be right about the id \<open>i\<close>: an object in view that has
  the id, carries the finalizer and is not marked for deletion still does where it is now.
\<close>

definition holds_finalizer ::
    "('k, 'x) kube \<Rightarrow> string \<Rightarrow> ('x \<Rightarrow> string) \<Rightarrow> string \<Rightarrow> 'x option \<Rightarrow> bool" where
  "holds_finalizer K finalizer ident i v \<longleftrightarrow>
     (\<exists>x. v = Some x \<and> ContainsFinalizer K x finalizer \<and> ident x = i)"

definition faithful_log :: "('k, 'x) kube \<Rightarrow> string \<Rightarrow> ('x \<Rightarrow> string) \<Rightarrow> string \<Rightarrow> 'x option list \<Rightarrow> bool" where
  "faithful_log K finalizer ident i l \<longleftrightarrow>
     (\<forall>x. Some x \<in> set l \<longrightarrow> GetDeletionTimestamp K x = None \<longrightarrow> holds_finalizer K finalizer ident i (Some x) \<longrightarrow>
        holds_finalizer K finalizer ident i (last l))"

context reconciled_store
begin

definition cached_backed ::
    "('k, 'x) kube \<Rightarrow> string \<Rightarrow> ('x \<Rightarrow> 'c) \<Rightarrow> string \<Rightarrow> (string \<Rightarrow> 'x option list) \<Rightarrow> 's \<Rightarrow> bool" where
  "cached_backed K finalizer content i logs s \<longleftrightarrow>
     (specs s i \<noteq> None \<longrightarrow>
        (\<exists>n. holds_finalizer K finalizer (\<lambda>x. ident (content x)) i (last (logs n))))"

text \<open>The facts about one object that a reconciliation uses.\<close>

lemma cached_object:
  assumes K: "cached_conforms K name content ver log" and x: "kube_Get K k n = Inr x"
  shows "hd (log k n) = Some x" and "name (AddFinalizer K x f) = n" and "name (RemoveFinalizer K x f) = n"
    and "ver (AddFinalizer K x f) = ver x" and "ver (RemoveFinalizer K x f) = ver x"
    and "GetDeletionTimestamp K (AddFinalizer K x f) = GetDeletionTimestamp K x"
    and "ContainsFinalizer K (AddFinalizer K x f) f" and "\<not> ContainsFinalizer K (RemoveFinalizer K x f) f"
    and "content (AddFinalizer K x f) = content x"
  using K x unfolding cached_conforms_def finalizer_laws_def by auto

lemma cached_update:
  assumes "cached_conforms K name content ver log" and "kube_Update K k y = (e, x, k')"
  shows "accepted K name content ver log k y k' \<or> e \<noteq> None \<and> log k' = log k"
    and "e = None \<Longrightarrow> content x = content y"
  using assms unfolding cached_conforms_def by blast+

lemma sync_cases:
  assumes "I s" and "good c"
  shows "\<exists>e s1. sync s c = Some (e, s1)
     \<and> (e \<noteq> None \<and> s1 = s \<or> e = None \<and> I s1 \<and> specs s1 = (specs s)(ident c \<mapsto> c))"
  using sync_eq [OF assms] sync_err [OF assms(1), of c] by (cases "ident c = []") auto

text \<open>The branches of a reconciliation.\<close>

lemma cached_marked:
  assumes K: "cached_conforms K name content ver log" and I: "I s"
    and get: "kube_Get K k n = Inr x" and marked: "GetDeletionTimestamp K x \<noteq> None"
    and fin: "ContainsFinalizer K x finalizer"
    and run: "reconcile K finalizer (\<lambda>s x. del s (content x)) (\<lambda>s x. sync s (content x)) what n
        (k, s, b) = Some (e, (k', s', b'))"
  shows "I s' \<and> specs s' = (specs s)(ident (content x) := None)
     \<and> (log k' = log k \<or> (\<exists>v l. log k n = [Some x] \<and> log k' = (log k)(n := l) \<and> (l = [Some x, v] \<or> l = [v])
         \<and> (\<forall>x'. v = Some x' \<longrightarrow> \<not> ContainsFinalizer K x' finalizer)))"
proof -
  let ?y = "RemoveFinalizer K x finalizer"
  note o = cached_object [OF K get]
  obtain s1 where s1: "del s (content x) = Some (None, s1)" "I s1"
      "specs s1 = (specs s)(ident (content x) := None)" using del_eq [OF I] by blast
  obtain x1 where up: "kube_Update K k ?y = (e, x1, k')" and s': "s' = s1"
    using run get marked fin s1(1) by (auto simp: reconcile_def split: prod.splits)
  have "log k' = log k \<or> (\<exists>v l. log k n = [Some x] \<and> log k' = (log k)(n := l) \<and> (l = [Some x, v] \<or> l = [v])
     \<and> (\<forall>x'. v = Some x' \<longrightarrow> \<not> ContainsFinalizer K x' finalizer))"
  proof (cases "accepted K name content ver log k ?y k'")
    case True
    from accepted_cached [OF K o(1) o(3,5) True] obtain v l where "log k n = [Some x]"
        "log k' = (log k)(n := l)" "l = [Some x, v] \<or> l = [v]"
        "case v of None \<Rightarrow> GetDeletionTimestamp K ?y \<noteq> None
         | Some x' \<Rightarrow> content x' = content ?y \<and> GetDeletionTimestamp K x' = GetDeletionTimestamp K ?y
             \<and> (\<forall>f. ContainsFinalizer K x' f = ContainsFinalizer K ?y f)" .
    with o(8) show ?thesis by (intro disjI2 exI [of _ v] exI [of _ l]) auto
  qed (use cached_update(1) [OF K up] in blast)
  with s1 s' show ?thesis by blast
qed

lemma cached_unstamped:
  assumes K: "cached_conforms K name content ver log" and I: "I s" and good: "good (content x)"
    and get: "kube_Get K k n = Inr x" and live: "GetDeletionTimestamp K x = None"
    and fin: "\<not> ContainsFinalizer K x finalizer"
    and run: "reconcile K finalizer (\<lambda>s x. del s (content x)) (\<lambda>s x. sync s (content x)) what n
        (k, s, b) = Some (e, (k', s', b'))"
  shows "s' = s \<and> log k' = log k
     \<or> (\<exists>x' l. log k n = [Some x] \<and> log k' = (log k)(n := l) \<and> (l = [Some x, Some x'] \<or> l = [Some x'])
         \<and> content x' = content x \<and> ContainsFinalizer K x' finalizer
         \<and> (s' = s \<or> I s' \<and> specs s' = (specs s)(ident (content x) \<mapsto> content x)))"
proof -
  let ?y = "AddFinalizer K x finalizer"
  note o = cached_object [OF K get]
  obtain e1 x1 k1 where up: "kube_Update K k ?y = (e1, x1, k1)" by (cases "kube_Update K k ?y") auto
  have k': "k' = k1"
    using run get live fin up by (auto simp: reconcile_def bind_eq_Some_conv split: option.splits)
  have s': "s' = s \<or> e1 = None \<and> I s' \<and> specs s' = (specs s)(ident (content x) \<mapsto> content x)"
  proof (cases e1)
    case (Some err)
    with run get live fin up show ?thesis by (simp add: reconcile_def)
  next
    case None
    then have c1: "content x1 = content x" using cached_update(2) [OF K up] o(9) by simp
    from sync_cases [OF I good] run get live fin up None show ?thesis
      unfolding c1 [symmetric] by (auto simp: reconcile_def split: option.splits)
  qed
  show ?thesis
  proof (cases "accepted K name content ver log k ?y k1")
    case True
    from accepted_cached [OF K o(1) o(2,4) True] obtain v l where a: "log k n = [Some x]"
        "log k1 = (log k)(n := l)" "l = [Some x, v] \<or> l = [v]"
        "case v of None \<Rightarrow> GetDeletionTimestamp K ?y \<noteq> None
         | Some x' \<Rightarrow> content x' = content ?y \<and> GetDeletionTimestamp K x' = GetDeletionTimestamp K ?y
             \<and> (\<forall>f. ContainsFinalizer K x' f = ContainsFinalizer K ?y f)" .
    with live o(6) obtain x' where v: "v = Some x'" by (cases v) auto
    with a(4) o(7,9) have "content x' = content x" "ContainsFinalizer K x' finalizer" by auto
    with a(1-3) k' v s' show ?thesis by blast
  next
    case False
    with cached_update(1) [OF K up] s' k' show ?thesis by auto
  qed
qed

lemma cached_reconcile_cases:
  assumes K: "cached_conforms K name content ver log"
    and I: "I s" and good: "\<forall>x. hd (log k n) = Some x \<longrightarrow> good (content x)"
    and run: "reconcile K finalizer (\<lambda>s x. del s (content x)) (\<lambda>s x. sync s (content x)) what n
        (k, s, b) = Some (e, (k', s', b'))"
  obtains (untouched) "s' = s" "log k' = log k"
  | (stamped) x x' l where "log k n = [Some x]" "log k' = (log k)(n := l)" "l = [Some x, Some x'] \<or> l = [Some x']"
      "\<not> ContainsFinalizer K x finalizer" "content x' = content x" "ContainsFinalizer K x' finalizer"
      "s' = s \<or> I s' \<and> specs s' = (specs s)(ident (content x) \<mapsto> content x)"
  | (deleted) x where "hd (log k n) = Some x" "GetDeletionTimestamp K x \<noteq> None" "I s'"
      "specs s' = (specs s)(ident (content x) := None)"
      "log k' = log k \<or> (\<exists>v l. log k n = [Some x] \<and> log k' = (log k)(n := l) \<and> (l = [Some x, v] \<or> l = [v])
         \<and> (\<forall>x'. v = Some x' \<longrightarrow> \<not> ContainsFinalizer K x' finalizer))"
  | (synced) x where "hd (log k n) = Some x" "GetDeletionTimestamp K x = None"
      "ContainsFinalizer K x finalizer" "I s'" "specs s' = (specs s)(ident (content x) \<mapsto> content x)"
      "log k' = log k"
proof (cases "kube_Get K k n")
  case (Inl err)
  with run have "s' = s" "k' = k" by (auto simp: reconcile_def)
  then show ?thesis using untouched by simp
next
  case (Inr x)
  from cached_object(1) [OF K Inr] have x: "hd (log k n) = Some x" .
  with good have gx: "good (content x)" by blast
  consider "GetDeletionTimestamp K x \<noteq> None" "\<not> ContainsFinalizer K x finalizer"
    | "GetDeletionTimestamp K x \<noteq> None" "ContainsFinalizer K x finalizer"
    | "GetDeletionTimestamp K x = None" "\<not> ContainsFinalizer K x finalizer"
    | "GetDeletionTimestamp K x = None" "ContainsFinalizer K x finalizer" by blast
  then show ?thesis
  proof cases
    case 1
    with run Inr have "s' = s" "k' = k" by (auto simp: reconcile_def)
    then show ?thesis using untouched by simp
  next
    case 2
    with cached_marked [OF K I Inr 2 run] deleted x show ?thesis by blast
  next
    case 3
    from cached_unstamped [OF K I gx Inr 3 run] untouched stamped 3(2) show ?thesis by blast
  next
    case 4
    from sync_cases [OF I gx] run Inr 4 have "k' = k"
      "s' = s \<or> I s' \<and> specs s' = (specs s)(ident (content x) \<mapsto> content x)"
      by (auto simp: reconcile_def split: option.splits)
    then show ?thesis using untouched synced x 4 by auto
  qed
qed

text \<open>It keeps the invariant, and a spec in the store stays backed.\<close>

lemma stamped_backed:
  assumes faith: "\<forall>n. faithful_log K finalizer (\<lambda>x. ident (content x)) i (logs n)"
    and bk: "cached_backed K finalizer content i logs s"
    and x: "logs n = [Some x]" "l = [Some x, Some x'] \<or> l = [Some x']" "\<not> ContainsFinalizer K x finalizer"
      "content x' = content x" "ContainsFinalizer K x' finalizer"
    and s': "s' = s \<or> specs s' = (specs s)(ident (content x) \<mapsto> content x)"
  shows "(\<forall>m. faithful_log K finalizer (\<lambda>x. ident (content x)) i ((logs(n := l)) m))
     \<and> cached_backed K finalizer content i (logs(n := l)) s'"
proof -
  let ?id = "\<lambda>x. ident (content x)"
  have l: "faithful_log K finalizer ?id i l" "last l = Some x'"
    using x by (auto simp: faithful_log_def holds_finalizer_def)
  have holder: "holds_finalizer K finalizer ?id j (last (logs m)) \<Longrightarrow>
      holds_finalizer K finalizer ?id j (last ((logs(n := l)) m))" for j m
    using x(1,3) by (cases "m = n") (auto simp: holds_finalizer_def)
  have "holds_finalizer K finalizer ?id (?id x) (last ((logs(n := l)) n))"
    using x(4,5) l(2) by (simp add: holds_finalizer_def)
  with s' bk holder have "cached_backed K finalizer content i (logs(n := l)) s'"
    unfolding cached_backed_def by (metis fun_upd_apply)
  with faith l(1) show ?thesis by simp
qed

lemma deleted_backed:
  assumes faith: "\<forall>n. faithful_log K finalizer (\<lambda>x. ident (content x)) i (logs n)"
    and bk: "cached_backed K finalizer content i logs s"
    and x: "GetDeletionTimestamp K x \<noteq> None" "specs s' = (specs s)(ident (content x) := None)"
    and logs': "logs' = logs \<or> (\<exists>v l. logs n = [Some x] \<and> logs' = logs(n := l) \<and> (l = [Some x, v] \<or> l = [v])
         \<and> (\<forall>x'. v = Some x' \<longrightarrow> \<not> ContainsFinalizer K x' finalizer))"
  shows "(\<forall>m. faithful_log K finalizer (\<lambda>x. ident (content x)) i (logs' m))
     \<and> cached_backed K finalizer content i logs' s'"
proof -
  let ?id = "\<lambda>x. ident (content x)"
  have other: "holds_finalizer K finalizer ?id j (last (logs' m))"
    if "holds_finalizer K finalizer ?id j (last (logs m))" "j \<noteq> ?id x" for j m
    using that logs' by (cases "m = n") (auto simp: holds_finalizer_def)
  have "cached_backed K finalizer content i logs' s'"
    using bk other x(2) unfolding cached_backed_def by (metis fun_upd_apply)
  moreover have "\<forall>m. faithful_log K finalizer ?id i (logs' m)"
    using logs'
  proof
    assume "\<exists>v l. logs n = [Some x] \<and> logs' = logs(n := l) \<and> (l = [Some x, v] \<or> l = [v])
       \<and> (\<forall>x'. v = Some x' \<longrightarrow> \<not> ContainsFinalizer K x' finalizer)"
    then obtain v l where l: "logs' = logs(n := l)" "l = [Some x, v] \<or> l = [v]"
        "\<forall>x'. v = Some x' \<longrightarrow> \<not> ContainsFinalizer K x' finalizer" by blast
    with x(1) have "faithful_log K finalizer ?id i l" by (auto simp: faithful_log_def holds_finalizer_def)
    with faith show ?thesis by (simp add: l(1))
  qed (use faith in simp)
  ultimately show ?thesis by blast
qed

lemma cached_reconcile_inv:
  assumes K: "cached_conforms K name content ver log"
    and I: "I s" and good: "\<forall>n x. Some x \<in> set (log k n) \<longrightarrow> good (content x)"
    and run: "reconcile K finalizer (\<lambda>s x. del s (content x)) (\<lambda>s x. sync s (content x)) what n
        (k, s, b) = Some (e, (k', s', b'))"
  shows "I s'"
    and "\<forall>n. faithful_log K finalizer (\<lambda>x. ident (content x)) i (log k n) \<Longrightarrow>
       cached_backed K finalizer content i (log k) s \<Longrightarrow>
       (\<forall>n. faithful_log K finalizer (\<lambda>x. ident (content x)) i (log k' n))
         \<and> cached_backed K finalizer content i (log k') s'"
proof -
  have ne: "log k n \<noteq> []" using K by (simp add: cached_conforms_def)
  then have seen: "Some x \<in> set (log k n)" if "hd (log k n) = Some x" for x using that hd_in_set by metis
  have g: "\<forall>x. hd (log k n) = Some x \<longrightarrow> good (content x)" using good seen by blast
  note cs = cached_reconcile_cases [OF K I g run, case_names untouched stamped deleted synced]
  show "I s'" by (rule cs) (use I in auto)
  assume faith: "\<forall>n. faithful_log K finalizer (\<lambda>x. ident (content x)) i (log k n)"
    and bk: "cached_backed K finalizer content i (log k) s"
  show "(\<forall>n. faithful_log K finalizer (\<lambda>x. ident (content x)) i (log k' n))
     \<and> cached_backed K finalizer content i (log k') s'"
  proof (cases rule: cs)
    case untouched
    with faith bk show ?thesis by simp
  next
    case (stamped x x' l)
    have "s' = s \<or> specs s' = (specs s)(ident (content x) \<mapsto> content x)" using stamped(7) by blast
    from stamped_backed [OF faith bk stamped(1,3,4,5,6) this] stamped(2) show ?thesis by auto
  next
    case (deleted x)
    from deleted_backed [OF faith bk deleted(2,4,5)] show ?thesis by blast
  next
    case (synced x)
    have "holds_finalizer K finalizer (\<lambda>x. ident (content x)) i (last (log k n))" if "ident (content x) = i"
      using faith seen [OF synced(1)] synced(2,3) that by (auto simp: faithful_log_def holds_finalizer_def)
    with bk have "cached_backed K finalizer content i (log k) s'"
      unfolding cached_backed_def synced(5) by auto
    with synced(6) faith show ?thesis by simp
  qed
qed

end

section \<open>Changes by others\<close>

text \<open>
  Other clients add versions, and the cache catches up with some of them. What a property needs of
  the others is about one id: as long as an object with the id carries the finalizer, nobody else
  removes the finalizer, changes the id or removes the object.
\<close>

definition keeps_version ::
    "('k, 'x) kube \<Rightarrow> string \<Rightarrow> ('x \<Rightarrow> string) \<Rightarrow> string \<Rightarrow> 'x option \<Rightarrow> 'x option \<Rightarrow> bool" where
  "keeps_version K finalizer ident i v w \<longleftrightarrow>
     (holds_finalizer K finalizer ident i v \<longrightarrow> holds_finalizer K finalizer ident i w)"

definition log_grows ::
    "('k, 'x) kube \<Rightarrow> string \<Rightarrow> ('x \<Rightarrow> string) \<Rightarrow> string \<Rightarrow> 'x option list \<Rightarrow> 'x option list \<Rightarrow> bool" where
  "log_grows K finalizer ident i l l' \<longleftrightarrow>
     (\<exists>vs j. l' = drop j (l @ vs) \<and> j < length (l @ vs)
        \<and> successively (keeps_version K finalizer ident i) (last l # vs))"

lemma chain_last:
  "successively (keeps_version K f ident i) (v # vs) \<Longrightarrow> w \<in> set (v # vs) \<Longrightarrow>
     holds_finalizer K f ident i w \<Longrightarrow> holds_finalizer K f ident i (last (v # vs))"
proof (induction vs arbitrary: v w)
  case (Cons u vs)
  show ?case
  proof (cases "w = v")
    case True
    with Cons.prems have "holds_finalizer K f ident i u" by (simp add: keeps_version_def)
    with Cons.IH [of u u] Cons.prems(1) show ?thesis by simp
  next
    case False
    with Cons.IH [of u w] Cons.prems show ?thesis by simp
  qed
qed simp

lemma log_grows_last:
  assumes "log_grows K f ident i l l'" and "l \<noteq> []"
  obtains vs where "last l' = last (last l # vs)" "set l' \<subseteq> set l \<union> set vs"
    "successively (keeps_version K f ident i) (last l # vs)"
proof -
  from assms(1) obtain vs j where l': "l' = drop j (l @ vs)" "j < length (l @ vs)"
      and c: "successively (keeps_version K f ident i) (last l # vs)"
    unfolding log_grows_def by blast
  have "last l' = last (l @ vs)" unfolding l'(1) by (rule last_drop) (rule l'(2))
  moreover have "last (l @ vs) = last (last l # vs)" by simp
  moreover have "set l' \<subseteq> set l \<union> set vs" unfolding l'(1) using set_drop_subset [of j "l @ vs"] by simp
  ultimately show ?thesis using c that by metis
qed

lemma log_grows_holds:
  assumes "log_grows K f ident i l l'" and "l \<noteq> []" and "holds_finalizer K f ident i (last l)"
  shows "holds_finalizer K f ident i (last l')"
  using log_grows_last [OF assms(1,2)] chain_last [of K f ident i "last l" _ "last l"] assms(3)
  by (metis list.set_intros(1))

lemma log_grows_faithful:
  assumes g: "log_grows K f ident i l l'" and l: "l \<noteq> []" and faith: "faithful_log K f ident i l"
  shows "faithful_log K f ident i l'"
  unfolding faithful_log_def
proof (intro allI impI)
  fix x assume x: "Some x \<in> set l'" "GetDeletionTimestamp K x = None" "holds_finalizer K f ident i (Some x)"
  show "holds_finalizer K f ident i (last l')"
  proof (cases "Some x \<in> set l")
    case True
    with faith x(2,3) have "holds_finalizer K f ident i (last l)" by (simp add: faithful_log_def)
    from log_grows_holds [OF g l this] show ?thesis .
  next
    case False
    from log_grows_last [OF g l] obtain vs where "last l' = last (last l # vs)" "set l' \<subseteq> set l \<union> set vs"
        "successively (keeps_version K f ident i) (last l # vs)" .
    with chain_last [of K f ident i "last l" vs "Some x"] x(1,3) False show ?thesis by auto
  qed
qed

section \<open>One process with a cache\<close>

record ('k, 't, 'o, 't1, 'o1, 'r) cached_cluster =
  cc_users :: "('k, ('t, 'o) User) kube"
  cc_models :: "('k, ('t1, 'o1) Model) kube"
  cc_uname :: "('t, 'o) User \<Rightarrow> string"
  cc_mname :: "('t1, 'o1) Model \<Rightarrow> string"
  cc_uver :: "('t, 'o) User \<Rightarrow> 'r"
  cc_mver :: "('t1, 'o1) Model \<Rightarrow> 'r"
  cc_ulog :: "'k \<Rightarrow> string \<Rightarrow> ('t, 'o) User option list"
  cc_mlog :: "'k \<Rightarrow> string \<Rightarrow> ('t1, 'o1) Model option list"

definition cached_cluster_conforms :: "('k, 't, 'o, 't1, 'o1, 'r) cached_cluster \<Rightarrow> bool" where
  "cached_cluster_conforms c \<longleftrightarrow>
     cached_conforms (cc_users c) (cc_uname c) usr_Spec (cc_uver c) (cc_ulog c)
     \<and> cached_conforms (cc_models c) (cc_mname c) mod_Spec (cc_mver c) (cc_mlog c)
     \<and> (\<forall>k x e x' k'. kube_Update (cc_users c) k x = (e, x', k') \<longrightarrow> cc_mlog c k' = cc_mlog c k)
     \<and> (\<forall>k x e x' k'. kube_Update (cc_models c) k x = (e, x', k') \<longrightarrow> cc_ulog c k' = cc_ulog c k)
     \<and> (\<forall>k n x. Some x \<in> set (cc_ulog c k n) \<longrightarrow> good_user (usr_Spec x))
     \<and> (\<forall>k n x. Some x \<in> set (cc_mlog c k n) \<longrightarrow> good_model (mod_Spec x))"

definition user_id :: "('t, 'o) User \<Rightarrow> string" where
  "user_id x = u_Id (usr_Spec x)"

definition model_id :: "('t, 'o) Model \<Rightarrow> string" where
  "model_id x = m_Id (mod_Spec x)"

text \<open>
  The cache is filled with the objects as they are before the reconcilers start. Then this process
  reconciles, and the others, which may be replicas of it, make whatever changes \<open>others\<close> allows.
\<close>

inductive cached_process ::
    "('k, 't, 'o, 't1, 'o1, 'r) cached_cluster \<Rightarrow> ('k \<Rightarrow> 'k \<Rightarrow> bool) \<Rightarrow> ('k, memory) world \<Rightarrow> bool"
  for c others where
  start: "(\<And>n. length (cc_ulog c k n) = 1) \<Longrightarrow> (\<And>n. length (cc_mlog c k n) = 1) \<Longrightarrow>
     cached_process c others (k, New, False)"
| change: "cached_process c others (k, s, b) \<Longrightarrow> others k k' \<Longrightarrow> cached_process c others (k', s, b)"
| user: "cached_process c others w \<Longrightarrow>
     User_Reconcile (cc_users c) (Memory id id) n w = Some (e, w') \<Longrightarrow> cached_process c others w'"
| model: "cached_process c others w \<Longrightarrow>
     Model_Reconcile (cc_models c) (Memory id id) n w = Some (e, w') \<Longrightarrow> cached_process c others w'"

text \<open>What a property about a user or a model needs of the others.\<close>

definition user_kept :: "('k, 't, 'o, 't1, 'o1, 'r) cached_cluster \<Rightarrow> string \<Rightarrow> 'k \<Rightarrow> 'k \<Rightarrow> bool" where
  "user_kept c i k k' \<longleftrightarrow>
     (\<forall>n. log_grows (cc_users c) userFinalizer user_id i (cc_ulog c k n) (cc_ulog c k' n))"

definition model_kept :: "('k, 't, 'o, 't1, 'o1, 'r) cached_cluster \<Rightarrow> string \<Rightarrow> 'k \<Rightarrow> 'k \<Rightarrow> bool" where
  "model_kept c i k k' \<longleftrightarrow>
     (\<forall>n. log_grows (cc_models c) modelFinalizer model_id i (cc_mlog c k n) (cc_mlog c k' n))"

text \<open>The invariants: one of the store, and one for each id that the others respect.\<close>

definition user_in_cluster :: "('k, 't, 'o, 't1, 'o1, 'r) cached_cluster \<Rightarrow> string \<Rightarrow> 'k \<Rightarrow> memory \<Rightarrow> bool" where
  "user_in_cluster c i k s \<longleftrightarrow>
     (\<forall>n. faithful_log (cc_users c) userFinalizer user_id i (cc_ulog c k n))
     \<and> user_store.cached_backed (cc_users c) userFinalizer usr_Spec i (cc_ulog c k) s"

definition model_in_cluster :: "('k, 't, 'o, 't1, 'o1, 'r) cached_cluster \<Rightarrow> string \<Rightarrow> 'k \<Rightarrow> memory \<Rightarrow> bool" where
  "model_in_cluster c i k s \<longleftrightarrow>
     (\<forall>n. faithful_log (cc_models c) modelFinalizer model_id i (cc_mlog c k n))
     \<and> model_store.cached_backed (cc_models c) modelFinalizer mod_Spec i (cc_mlog c k) s"

lemma faithful_singleton: "length l = 1 \<Longrightarrow> faithful_log K f ident i l"
  by (cases l) (auto simp: faithful_log_def holds_finalizer_def)

lemmas in_cluster_defs = user_in_cluster_def model_in_cluster_def user_store.cached_backed_def
  model_store.cached_backed_def user_id_def [abs_def, symmetric] model_id_def [abs_def, symmetric]

text \<open>A reconciliation keeps them, whatever the ids.\<close>

lemma cached_user_step:
  assumes c: "cached_cluster_conforms c" and s: "mem_good s"
    and run: "User_Reconcile (cc_users c) (Memory id id) n (k, s, b) = Some (e, (k', s', b'))"
  shows "mem_good s'" and "user_in_cluster c i k s \<Longrightarrow> user_in_cluster c i k' s'"
    and "model_in_cluster c i k s \<Longrightarrow> model_in_cluster c i k' s'"
proof -
  have K: "cached_conforms (cc_users c) (cc_uname c) usr_Spec (cc_uver c) (cc_ulog c)"
    and good: "\<forall>n x. Some x \<in> set (cc_ulog c k n) \<longrightarrow> good_user (usr_Spec x)"
    and oth: "\<forall>k x e x' k'. kube_Update (cc_users c) k x = (e, x', k') \<longrightarrow> cc_mlog c k' = cc_mlog c k"
    using c by (simp_all add: cached_cluster_conforms_def)
  have I: "mem_good s \<and> models_of s = models_of s" using s by simp
  note inv = user_store.cached_reconcile_inv [OF K I good run [unfolded User_Reconcile_memory]]
  have ml: "cc_mlog c k' = cc_mlog c k"
    by (rule reconcile_objs_other [where other = "cc_mlog c", OF oth run [unfolded User_Reconcile_memory]])
  show "mem_good s'" using inv(1) by simp
  show "user_in_cluster c i k s \<Longrightarrow> user_in_cluster c i k' s'"
    using inv(2) [of i] by (simp add: user_in_cluster_def user_id_def [abs_def])
  show "model_in_cluster c i k s \<Longrightarrow> model_in_cluster c i k' s'"
    using inv(1) by (simp add: model_in_cluster_def model_store.cached_backed_def ml)
qed

lemma cached_model_step:
  assumes c: "cached_cluster_conforms c" and s: "mem_good s"
    and run: "Model_Reconcile (cc_models c) (Memory id id) n (k, s, b) = Some (e, (k', s', b'))"
  shows "mem_good s'" and "model_in_cluster c i k s \<Longrightarrow> model_in_cluster c i k' s'"
    and "user_in_cluster c i k s \<Longrightarrow> user_in_cluster c i k' s'"
proof -
  have K: "cached_conforms (cc_models c) (cc_mname c) mod_Spec (cc_mver c) (cc_mlog c)"
    and good: "\<forall>n x. Some x \<in> set (cc_mlog c k n) \<longrightarrow> good_model (mod_Spec x)"
    and oth: "\<forall>k x e x' k'. kube_Update (cc_models c) k x = (e, x', k') \<longrightarrow> cc_ulog c k' = cc_ulog c k"
    using c by (simp_all add: cached_cluster_conforms_def)
  have I: "mem_good s \<and> users_of s = users_of s" using s by simp
  note inv = model_store.cached_reconcile_inv [OF K I good run [unfolded Model_Reconcile_memory]]
  have ul: "cc_ulog c k' = cc_ulog c k"
    by (rule reconcile_objs_other [where other = "cc_ulog c", OF oth run [unfolded Model_Reconcile_memory]])
  show "mem_good s'" using inv(1) by simp
  show "model_in_cluster c i k s \<Longrightarrow> model_in_cluster c i k' s'"
    using inv(2) [of i] by (simp add: model_in_cluster_def model_id_def [abs_def])
  show "user_in_cluster c i k s \<Longrightarrow> user_in_cluster c i k' s'"
    using inv(1) by (simp add: user_in_cluster_def user_store.cached_backed_def ul)
qed

lemma cached_process_inv:
  assumes c: "cached_cluster_conforms c"
  shows "cached_process c others w \<Longrightarrow>
     (case w of (k, s, b) \<Rightarrow> mem_good s
        \<and> (\<forall>i. (\<forall>k k'. others k k' \<longrightarrow> user_kept c i k k') \<longrightarrow> user_in_cluster c i k s)
        \<and> (\<forall>i. (\<forall>k k'. others k k' \<longrightarrow> model_kept c i k k') \<longrightarrow> model_in_cluster c i k s))"
proof (induction rule: cached_process.induct)
  case (start k)
  then show ?case by (simp add: in_cluster_defs faithful_singleton mem_good_New mem_inv_New)
next
  case (change k s b k')
  have ne: "cc_ulog c k n \<noteq> []" "cc_mlog c k n \<noteq> []" for n
    using c by (simp_all add: cached_cluster_conforms_def cached_conforms_def)
  have "user_in_cluster c i k' s" if "user_kept c i k k'" "user_in_cluster c i k s" for i
    using that log_grows_holds [OF _ ne(1)] log_grows_faithful [OF _ ne(1)]
    unfolding in_cluster_defs user_kept_def by meson
  moreover have "model_in_cluster c i k' s" if "model_kept c i k k'" "model_in_cluster c i k s" for i
    using that log_grows_holds [OF _ ne(2)] log_grows_faithful [OF _ ne(2)]
    unfolding in_cluster_defs model_kept_def by meson
  ultimately show ?case using change.IH change.hyps(2) by simp
next
  case (user w n e w')
  obtain k s b k' s' b' where w: "w = (k, s, b)" "w' = (k', s', b')" by (cases w; cases w')
  with user.IH have "mem_good s" by simp
  from cached_user_step [OF c this user.hyps(2) [unfolded w]] user.IH w show ?case by simp
next
  case (model w n e w')
  obtain k s b k' s' b' where w: "w = (k, s, b)" "w' = (k', s', b')" by (cases w; cases w')
  with model.IH have "mem_good s" by simp
  from cached_model_step [OF c this model.hyps(2) [unfolded w]] model.IH w show ?case by simp
qed

text \<open>A user without a resource is in no store.\<close>

lemma cached_process_revoked:
  assumes "cached_cluster_conforms c" and "cached_process c others (k, s, b)"
  shows "mem_good s"
    and "\<forall>k k'. others k k' \<longrightarrow> user_kept c i k k' \<Longrightarrow>
      \<forall>n x. last (cc_ulog c k n) = Some x \<longrightarrow> u_Id (usr_Spec x) \<noteq> i \<Longrightarrow> users_of s i = None"
proof -
  from cached_process_inv [OF assms] have "mem_good s"
    and u: "(\<forall>k k'. others k k' \<longrightarrow> user_kept c i k k') \<longrightarrow> user_in_cluster c i k s" by simp_all
  then show "mem_good s" by simp
  show "\<forall>k k'. others k k' \<longrightarrow> user_kept c i k k' \<Longrightarrow>
      \<forall>n x. last (cc_ulog c k n) = Some x \<longrightarrow> u_Id (usr_Spec x) \<noteq> i \<Longrightarrow> users_of s i = None"
    using u [unfolded in_cluster_defs] unfolding holds_finalizer_def user_id_def by blast
qed

end
