(* ===== verification/CacheProperties.thy ===== *)
theory CacheProperties
  imports Demo Caches
begin

text \<open>
  The properties of a process that reads from a cache, and a concrete cluster with versions on
  which they apply.
\<close>

section \<open>A cluster with versions\<close>

record vmeta = meta +
  mt_ResourceVersion :: nat

text \<open>
  The versions of one kind of object: those under the right name, admitted, with resource
  versions of their own.
\<close>

definition versions_ok :: "('x \<Rightarrow> vmeta) \<Rightarrow> ('x \<Rightarrow> bool) \<Rightarrow> string \<Rightarrow> 'x option list \<Rightarrow> bool" where
  "versions_ok mt ok n l \<longleftrightarrow> l \<noteq> []
     \<and> (\<forall>v \<in> set l. case v of None \<Rightarrow> True | Some x \<Rightarrow> ok x \<and> mt_Name (mt x) = n)
     \<and> distinct (map (\<lambda>x. mt_ResourceVersion (mt x)) (List.map_filter (\<lambda>v. v) l))"

definition demo_log :: "('x \<Rightarrow> vmeta) \<Rightarrow> ('x \<Rightarrow> bool) \<Rightarrow> (string \<Rightarrow> 'x option list) \<Rightarrow> string \<Rightarrow> 'x option list" where
  "demo_log mt ok raw n = (if versions_ok mt ok n (raw n) then raw n else [None])"

definition next_version :: "('x \<Rightarrow> vmeta) \<Rightarrow> 'x option list \<Rightarrow> nat" where
  "next_version mt l = Suc (sum_list (map (\<lambda>x. mt_ResourceVersion (mt x)) (List.map_filter (\<lambda>v. v) l)))"

definition demo_write ::
    "('x \<Rightarrow> vmeta) \<Rightarrow> ('x \<Rightarrow> bool) \<Rightarrow> (nat \<Rightarrow> 'x \<Rightarrow> 'x) \<Rightarrow> 'x \<Rightarrow> (string \<Rightarrow> 'x option list)
      \<Rightarrow> ('x \<times> (string \<Rightarrow> 'x option list)) option" where
  "demo_write mt ok restamp x raw =
     (let n = mt_Name (mt x); l = demo_log mt ok raw n; x' = restamp (next_version mt l) x in
      case last l of
        None \<Rightarrow> None
      | Some y \<Rightarrow>
          if mt_ResourceVersion (mt y) \<noteq> mt_ResourceVersion (mt x) \<or> \<not> ok x then None
          else Some (x', raw(n := l @ [if mt_DeletionTimestamp (mt x) \<noteq> None \<and> mt_Finalizers (mt x) = []
                                       then None else Some x'])))"

definition demo_read :: "('x \<Rightarrow> vmeta) \<Rightarrow> ('x \<Rightarrow> bool) \<Rightarrow> (string \<Rightarrow> 'x option list) \<Rightarrow> string \<Rightarrow> 'x result" where
  "demo_read mt ok raw n = (case hd (demo_log mt ok raw n) of None \<Rightarrow> Inl (Errorf ''not found'') | Some x \<Rightarrow> Inr x)"

lemma versions_distinct:
  assumes "distinct (map f (List.map_filter (\<lambda>v. v) l))"
    and "i < length l" "j < length l" "l ! i = Some x" "l ! j = Some y" "f x = f y"
  shows "i = j"
  using assms
proof (induction l arbitrary: i j)
  case (Cons v l)
  have no: False if "v = Some z" "l ! m = Some w" "m < length l" "f z = f w" for z w m
  proof -
    from that(2,3) have "w \<in> set (List.map_filter (\<lambda>v. v) l)"
      by (force simp: List.map_filter_def in_set_conv_nth)
    with Cons.prems(1) that(1,4) show False by (auto simp: List.map_filter_simps)
  qed
  have d: "distinct (map f (List.map_filter (\<lambda>v. v) l))"
    using Cons.prems(1) by (cases v) (simp_all add: List.map_filter_simps)
  show ?case
  proof (cases i; cases j)
    fix i' j' assume "i = Suc i'" "j = Suc j'"
    with Cons.IH [OF d, of i' j'] Cons.prems show ?thesis by simp
  next
    fix j' assume "i = 0" "j = Suc j'"
    with no [of x j' y] Cons.prems show ?thesis by simp
  next
    fix i' assume "i = Suc i'" "j = 0"
    with no [of y i' x] Cons.prems show ?thesis by simp
  qed simp
qed simp

lemma next_version_new:
  "Some z \<in> set l \<Longrightarrow> mt_ResourceVersion (mt z) < next_version mt l"
  unfolding next_version_def less_Suc_eq_le
  by (rule member_le_sum_list) (auto simp: List.map_filter_def intro!: imageI rev_image_eqI [of "Some z"])

lemma map_filter_append: "List.map_filter f (xs @ ys) = List.map_filter f xs @ List.map_filter f ys"
  by (simp add: List.map_filter_def)

lemma versions_ok_append:
  assumes l: "versions_ok mt ok n l" and v: "case v of None \<Rightarrow> True
      | Some x \<Rightarrow> ok x \<and> mt_Name (mt x) = n \<and> mt_ResourceVersion (mt x) = next_version mt l"
  shows "versions_ok mt ok n (l @ [v])"
proof -
  have "mt_ResourceVersion (mt z) \<noteq> next_version mt l" if "z \<in> set (List.map_filter (\<lambda>v. v) l)" for z
  proof -
    from that have "Some z \<in> set l" by (auto simp: List.map_filter_def)
    from next_version_new [OF this, of mt] show ?thesis by simp
  qed
  with l v show ?thesis
    by (cases v) (force simp: versions_ok_def map_filter_append List.map_filter_simps)+
qed

lemma demo_log_ok:
  "demo_log mt ok raw n \<noteq> []" "Some x \<in> set (demo_log mt ok raw n) \<Longrightarrow> ok x \<and> mt_Name (mt x) = n"
  "i < length (demo_log mt ok raw n) \<Longrightarrow> j < length (demo_log mt ok raw n) \<Longrightarrow>
     demo_log mt ok raw n ! i = Some x \<Longrightarrow> demo_log mt ok raw n ! j = Some y \<Longrightarrow>
     mt_ResourceVersion (mt x) = mt_ResourceVersion (mt y) \<Longrightarrow> i = j"
proof -
  show "demo_log mt ok raw n \<noteq> []" by (simp add: demo_log_def versions_ok_def)
  show "Some x \<in> set (demo_log mt ok raw n) \<Longrightarrow> ok x \<and> mt_Name (mt x) = n"
    by (force simp: demo_log_def versions_ok_def split: if_splits)
  assume x: "i < length (demo_log mt ok raw n)" "j < length (demo_log mt ok raw n)"
    "demo_log mt ok raw n ! i = Some x" "demo_log mt ok raw n ! j = Some y"
    "mt_ResourceVersion (mt x) = mt_ResourceVersion (mt y)"
  show "i = j"
  proof (cases "versions_ok mt ok n (raw n)")
    case True
    then have "distinct (map (\<lambda>x. mt_ResourceVersion (mt x)) (List.map_filter (\<lambda>v. v) (raw n)))"
      by (simp add: versions_ok_def)
    from versions_distinct [OF this] x True show ?thesis by (simp add: demo_log_def)
  next
    case False
    with x show ?thesis by (simp add: demo_log_def)
  qed
qed

text \<open>A write that succeeds adds a version to the log.\<close>

lemma demo_write_some:
  assumes w: "demo_write mt ok restamp x raw = Some (x', raw')"
    and re: "\<And>r x. ok (restamp r x) = ok x" "\<And>r x. mt (restamp r x) = mt x\<lparr>mt_ResourceVersion := r\<rparr>"
  shows "\<exists>y v. last (demo_log mt ok raw (mt_Name (mt x))) = Some y
     \<and> mt_ResourceVersion (mt y) = mt_ResourceVersion (mt x) \<and> (\<exists>r. x' = restamp r x)
     \<and> demo_log mt ok raw' = (demo_log mt ok raw)
          (mt_Name (mt x) := demo_log mt ok raw (mt_Name (mt x)) @ [v])
     \<and> (v = Some x' \<or> v = None \<and> mt_DeletionTimestamp (mt x) \<noteq> None)"
proof -
  let ?n = "mt_Name (mt x)"
  let ?l = "demo_log mt ok raw ?n"
  from w obtain y where y: "last ?l = Some y" "mt_ResourceVersion (mt y) = mt_ResourceVersion (mt x)" "ok x"
      and x': "x' = restamp (next_version mt ?l) x"
      and raw': "raw' = raw(?n := ?l @ [if mt_DeletionTimestamp (mt x) \<noteq> None \<and> mt_Finalizers (mt x) = []
                                       then None else Some x'])"
    by (auto simp: demo_write_def Let_def split: option.splits if_splits)
  let ?v = "if mt_DeletionTimestamp (mt x) \<noteq> None \<and> mt_Finalizers (mt x) = [] then None else Some x'"
  from y(1) have "versions_ok mt ok ?n ?l" by (auto simp: demo_log_def split: if_splits)
  from versions_ok_append [OF this, of ?v] have "versions_ok mt ok ?n (?l @ [?v])"
    using re y(3) by (simp add: x')
  then have "demo_log mt ok raw' m = ((demo_log mt ok raw)(?n := ?l @ [?v])) m" for m
    unfolding raw' demo_log_def [of mt ok "raw(?n := _)"] by (simp add: demo_log_def [of mt ok raw m])
  then have l: "demo_log mt ok raw' = (demo_log mt ok raw)(?n := ?l @ [?v])" by blast
  have v: "?v = Some x' \<or> ?v = None \<and> mt_DeletionTimestamp (mt x) \<noteq> None" by simp
  from y x' l v show ?thesis by blast
qed

type_synonym vuser = "(unit, vmeta) User"
type_synonym vmodel = "(unit, vmeta) Model"
type_synonym vcluster = "(string \<Rightarrow> vuser option list) \<times> (string \<Rightarrow> vmodel option list)"

definition restamp_user :: "nat \<Rightarrow> vuser \<Rightarrow> vuser" where
  "restamp_user r x = x\<lparr>usr_ObjectMeta := (usr_ObjectMeta x)\<lparr>mt_ResourceVersion := r\<rparr>\<rparr>"

definition restamp_model :: "nat \<Rightarrow> vmodel \<Rightarrow> vmodel" where
  "restamp_model r x = x\<lparr>mod_ObjectMeta := (mod_ObjectMeta x)\<lparr>mt_ResourceVersion := r\<rparr>\<rparr>"

definition cached_users :: "(vcluster, vuser) kube" where
  "cached_users =
     \<lparr>kube_Get = (\<lambda>k n. demo_read usr_ObjectMeta (\<lambda>x. good_user (usr_Spec x)) (fst k) n),
      kube_Update = (\<lambda>k x. case demo_write usr_ObjectMeta (\<lambda>x. good_user (usr_Spec x)) restamp_user x (fst k) of
          None \<Rightarrow> (Some (Errorf ''conflict''), x, k) | Some (x', raw) \<Rightarrow> (None, x', (raw, snd k))),
      IsNotFound = (\<lambda>e. e = Errorf ''not found''),
      GetDeletionTimestamp = (\<lambda>x. mt_DeletionTimestamp (usr_ObjectMeta x)),
      ContainsFinalizer = (\<lambda>x f. f \<in> set (mt_Finalizers (usr_ObjectMeta x))),
      AddFinalizer = (\<lambda>x f. x\<lparr>usr_ObjectMeta := add_finalizer f (usr_ObjectMeta x)\<rparr>),
      RemoveFinalizer = (\<lambda>x f. x\<lparr>usr_ObjectMeta := remove_finalizer f (usr_ObjectMeta x)\<rparr>)\<rparr>"

definition cached_models :: "(vcluster, vmodel) kube" where
  "cached_models =
     \<lparr>kube_Get = (\<lambda>k n. demo_read mod_ObjectMeta (\<lambda>x. good_model (mod_Spec x)) (snd k) n),
      kube_Update = (\<lambda>k x. case demo_write mod_ObjectMeta (\<lambda>x. good_model (mod_Spec x)) restamp_model x (snd k) of
          None \<Rightarrow> (Some (Errorf ''conflict''), x, k) | Some (x', raw) \<Rightarrow> (None, x', (fst k, raw))),
      IsNotFound = (\<lambda>e. e = Errorf ''not found''),
      GetDeletionTimestamp = (\<lambda>x. mt_DeletionTimestamp (mod_ObjectMeta x)),
      ContainsFinalizer = (\<lambda>x f. f \<in> set (mt_Finalizers (mod_ObjectMeta x))),
      AddFinalizer = (\<lambda>x f. x\<lparr>mod_ObjectMeta := add_finalizer f (mod_ObjectMeta x)\<rparr>),
      RemoveFinalizer = (\<lambda>x f. x\<lparr>mod_ObjectMeta := remove_finalizer f (mod_ObjectMeta x)\<rparr>)\<rparr>"

definition demo_cached :: "(vcluster, unit, vmeta, unit, vmeta, nat) cached_cluster" where
  "demo_cached =
     \<lparr>cc_users = cached_users, cc_models = cached_models,
      cc_uname = (\<lambda>x. mt_Name (usr_ObjectMeta x)), cc_mname = (\<lambda>x. mt_Name (mod_ObjectMeta x)),
      cc_uver = (\<lambda>x. mt_ResourceVersion (usr_ObjectMeta x)), cc_mver = (\<lambda>x. mt_ResourceVersion (mod_ObjectMeta x)),
      cc_ulog = (\<lambda>k. demo_log usr_ObjectMeta (\<lambda>x. good_user (usr_Spec x)) (fst k)),
      cc_mlog = (\<lambda>k. demo_log mod_ObjectMeta (\<lambda>x. good_model (mod_Spec x)) (snd k))\<rparr>"

lemma demo_read_some:
  "demo_read mt ok raw n = Inr x \<Longrightarrow> hd (demo_log mt ok raw n) = Some x \<and> mt_Name (mt x) = n"
  using demo_log_ok(1) [of mt ok raw n] demo_log_ok(2) [of x mt ok raw n]
  by (cases "demo_log mt ok raw n") (auto simp: demo_read_def split: option.splits)

text \<open>The client's contract, for either kind of object: its metadata, and its log.\<close>

definition meta_laws :: "('k, 'x) kube \<Rightarrow> ('x \<Rightarrow> vmeta) \<Rightarrow> ('x \<Rightarrow> 'c) \<Rightarrow> bool" where
  "meta_laws K mt content \<longleftrightarrow>
     (\<forall>x f. mt (AddFinalizer K x f) = add_finalizer f (mt x)
        \<and> mt (RemoveFinalizer K x f) = remove_finalizer f (mt x)
        \<and> content (AddFinalizer K x f) = content x \<and> content (RemoveFinalizer K x f) = content x)
     \<and> (\<forall>x. GetDeletionTimestamp K x = mt_DeletionTimestamp (mt x))
     \<and> (\<forall>x f. ContainsFinalizer K x f = (f \<in> set (mt_Finalizers (mt x))))"

definition log_laws ::
    "('k, 'x) kube \<Rightarrow> ('x \<Rightarrow> vmeta) \<Rightarrow> ('x \<Rightarrow> bool) \<Rightarrow> (nat \<Rightarrow> 'x \<Rightarrow> 'x)
      \<Rightarrow> ('k \<Rightarrow> string \<Rightarrow> 'x option list) \<Rightarrow> bool" where
  "log_laws K mt ok restamp raw \<longleftrightarrow>
     (\<forall>k n. kube_Get K k n = demo_read mt ok (raw k) n)
     \<and> (\<forall>k x e x' k'. kube_Update K k x = (e, x', k') \<longrightarrow> e \<noteq> None \<and> raw k' = raw k
          \<or> e = None \<and> demo_write mt ok restamp x (raw k) = Some (x', raw k'))"

definition restamp_laws ::
    "('x \<Rightarrow> vmeta) \<Rightarrow> ('x \<Rightarrow> bool) \<Rightarrow> ('x \<Rightarrow> 'c) \<Rightarrow> (nat \<Rightarrow> 'x \<Rightarrow> 'x) \<Rightarrow> bool" where
  "restamp_laws mt ok content restamp \<longleftrightarrow>
     (\<forall>r x. ok (restamp r x) = ok x \<and> content (restamp r x) = content x
        \<and> mt (restamp r x) = mt x\<lparr>mt_ResourceVersion := r\<rparr>)"

lemma finalizer_meta [simp]:
  "mt_ResourceVersion (add_finalizer f m) = mt_ResourceVersion m"
  "mt_ResourceVersion (remove_finalizer f m) = mt_ResourceVersion m"
  "mt_DeletionTimestamp (remove_finalizer f m) = mt_DeletionTimestamp m"
  by (simp_all add: add_finalizer_def remove_finalizer_def)

lemma demo_write_accepted:
  assumes M: "meta_laws K mt content" and R: "restamp_laws mt ok content restamp"
    and w: "demo_write mt ok restamp x (raw k) = Some (x', raw k')"
  shows "accepted K (\<lambda>x. mt_Name (mt x)) content (\<lambda>x. mt_ResourceVersion (mt x))
           (\<lambda>k. demo_log mt ok (raw k)) k x k'
     \<and> content x' = content x \<and> (\<forall>f. ContainsFinalizer K x' f = ContainsFinalizer K x f)"
proof -
  have re: "ok (restamp r x) = ok x" "content (restamp r x) = content x"
      "mt (restamp r x) = mt x\<lparr>mt_ResourceVersion := r\<rparr>" for r x
    using R by (simp_all add: restamp_laws_def)
  from demo_write_some [OF w re(1,3)] obtain y v r where
      y: "last (demo_log mt ok (raw k) (mt_Name (mt x))) = Some y"
      "mt_ResourceVersion (mt y) = mt_ResourceVersion (mt x)" and x': "x' = restamp r x"
      and l: "demo_log mt ok (raw k') = (demo_log mt ok (raw k))
          (mt_Name (mt x) := demo_log mt ok (raw k) (mt_Name (mt x)) @ [v])"
      and v: "v = Some x' \<or> v = None \<and> mt_DeletionTimestamp (mt x) \<noteq> None" by blast
  have gd: "GetDeletionTimestamp K z = mt_DeletionTimestamp (mt z)"
      "ContainsFinalizer K z f = (f \<in> set (mt_Finalizers (mt z)))" for z f
    using M by (simp_all add: meta_laws_def)
  have same: "content x' = content x" "\<forall>f. ContainsFinalizer K x' f = ContainsFinalizer K x f"
      "GetDeletionTimestamp K x' = GetDeletionTimestamp K x"
    by (simp_all add: gd x' re)
  have "case v of None \<Rightarrow> GetDeletionTimestamp K x \<noteq> None
     | Some x' \<Rightarrow> content x' = content x \<and> GetDeletionTimestamp K x' = GetDeletionTimestamp K x
         \<and> (\<forall>f. ContainsFinalizer K x' f = ContainsFinalizer K x f)"
    using v same gd(1) by auto
  then have "accepted K (\<lambda>x. mt_Name (mt x)) content (\<lambda>x. mt_ResourceVersion (mt x))
           (\<lambda>k. demo_log mt ok (raw k)) k x k'"
    unfolding accepted_def l using y
    by (intro exI [of _ y] exI [of _ v] exI [of _ "0::nat"]) simp
  with same show ?thesis by blast
qed

lemma log_laws_conform:
  assumes M: "meta_laws K mt content" and R: "restamp_laws mt ok content restamp"
    and L: "log_laws K mt ok restamp raw"
  shows "cached_conforms K (\<lambda>x. mt_Name (mt x)) content (\<lambda>x. mt_ResourceVersion (mt x))
           (\<lambda>k. demo_log mt ok (raw k))"
  unfolding cached_conforms_def
proof (intro conjI allI impI)
  fix k x e x' k' assume u: "kube_Update K k x = (e, x', k')"
  with L have c: "e \<noteq> None \<and> raw k' = raw k
          \<or> e = None \<and> demo_write mt ok restamp x (raw k) = Some (x', raw k')"
    unfolding log_laws_def by blast
  then show "accepted K (\<lambda>x. mt_Name (mt x)) content (\<lambda>x. mt_ResourceVersion (mt x)) (\<lambda>k. demo_log mt ok (raw k)) k x k'
      \<or> e \<noteq> None \<and> demo_log mt ok (raw k') = demo_log mt ok (raw k)"
    using demo_write_accepted [OF M R, of x raw k x' k'] by auto
  show "content x' = content x" and "ContainsFinalizer K x' f = ContainsFinalizer K x f" if "e = None" for f
    using c that demo_write_accepted [OF M R, of x raw k x' k'] by simp_all
next
  fix k n x assume "kube_Get K k n = Inr x"
  then have "demo_read mt ok (raw k) n = Inr x" using L by (simp add: log_laws_def)
  then show "hd (demo_log mt ok (raw k) n) = Some x" "mt_Name (mt x) = n"
    using demo_read_some [of mt ok "raw k" n x] by simp_all
next
  fix k n show "demo_log mt ok (raw k) n \<noteq> []" by (rule demo_log_ok(1))
next
  fix k n i j x y
  assume "i < length (demo_log mt ok (raw k) n)" "j < length (demo_log mt ok (raw k) n)"
    "demo_log mt ok (raw k) n ! i = Some x" "demo_log mt ok (raw k) n ! j = Some y"
    "mt_ResourceVersion (mt x) = mt_ResourceVersion (mt y)"
  then show "i = j" by (rule demo_log_ok(3))
next
  show "finalizer_laws K content" using M by (simp add: meta_laws_def finalizer_laws_def)
qed (use M in \<open>simp_all add: meta_laws_def\<close>)

lemma demo_cached_laws:
  "meta_laws cached_users usr_ObjectMeta usr_Spec" "meta_laws cached_models mod_ObjectMeta mod_Spec"
  "restamp_laws usr_ObjectMeta (\<lambda>x. good_user (usr_Spec x)) usr_Spec restamp_user"
  "restamp_laws mod_ObjectMeta (\<lambda>x. good_model (mod_Spec x)) mod_Spec restamp_model"
  "log_laws cached_users usr_ObjectMeta (\<lambda>x. good_user (usr_Spec x)) restamp_user fst"
  "log_laws cached_models mod_ObjectMeta (\<lambda>x. good_model (mod_Spec x)) restamp_model snd"
  by (auto simp: meta_laws_def log_laws_def restamp_laws_def cached_users_def cached_models_def
      restamp_user_def restamp_model_def split: option.splits)

lemma demo_cached_conforms: "cached_cluster_conforms demo_cached"
  unfolding cached_cluster_conforms_def demo_cached_def cached_cluster.select_convs
  by (intro conjI log_laws_conform [OF demo_cached_laws(1,3,5)] log_laws_conform [OF demo_cached_laws(2,4,6)])
     (auto simp: cached_users_def cached_models_def split: option.splits dest: demo_log_ok(2))

section \<open>The store and the cluster\<close>

text \<open>Alice's resource, new, and with the finalizer and a version of its own.\<close>

definition alice_at :: "nat \<Rightarrow> string list \<Rightarrow> vuser" where
  "alice_at r fs = \<lparr>usr_TypeMeta = (), usr_ObjectMeta = \<lparr>mt_Name = ''alice-cr'',
     mt_DeletionTimestamp = None, mt_Finalizers = fs, mt_ResourceVersion = r\<rparr>, usr_Spec = alice, usr_Status = ()\<rparr>"

definition alice_log :: "vuser option list \<Rightarrow> vcluster" where
  "alice_log l = ((\<lambda>_. [None])(''alice-cr'' := l), \<lambda>_. [None])"

lemma demo_cached_start: "cached_process demo_cached others (alice_log [Some (alice_at 1 [])], New, False)"
  by (rule cached_process.start) (simp_all add: demo_cached_def alice_log_def demo_log_def)

lemma demo_cached_run:
  "User_Reconcile cached_users (Memory id id) ''alice-cr'' (alice_log [Some (alice_at 1 [])], New, False)
     = Some (None, (alice_log [Some (alice_at 1 []), Some (alice_at 2 [userFinalizer])], alice_store, True))"
  by (simp add: User_Reconcile_memory reconcile_def cached_users_def demo_read_def demo_write_def demo_log_def
      versions_ok_def next_version_def alice_log_def alice_at_def List.map_filter_simps add_finalizer_def
      restamp_user_def Memory_SyncUser_def good_user_wf New_def gmake_def alice_store_def Let_def
      numeral_2_eq_2)

text \<open>Somebody deletes it before it has the finalizer, and the cache is behind.\<close>

definition deletes_alice :: "vcluster \<Rightarrow> vcluster \<Rightarrow> bool" where
  "deletes_alice k k' \<longleftrightarrow> k = alice_log [Some (alice_at 1 [])] \<and> k' = alice_log [Some (alice_at 1 []), None]"

lemma log_stays: "l \<noteq> [] \<Longrightarrow> log_grows K f ident i l l"
  unfolding log_grows_def by (intro exI [of _ "[]"] exI [of _ "0::nat"]) simp

lemma demo_log_gone: "deletes_alice k k' \<Longrightarrow> user_kept demo_cached i k k'"
  "deletes_alice k k' \<Longrightarrow> model_kept demo_cached i k k'"
proof -
  have ok: "versions_ok usr_ObjectMeta (\<lambda>x. good_user (usr_Spec x)) ''alice-cr'' [Some (alice_at 1 [])]"
    "versions_ok usr_ObjectMeta (\<lambda>x. good_user (usr_Spec x)) ''alice-cr'' [Some (alice_at 1 []), None]"
    by (simp_all add: versions_ok_def alice_at_def List.map_filter_simps)
  have "log_grows cached_users userFinalizer user_id i [Some (alice_at 1 [])] [Some (alice_at 1 []), None]"
    unfolding log_grows_def
    by (intro exI [of _ "[None]"] exI [of _ "0::nat"])
       (simp add: keeps_version_def holds_finalizer_def cached_users_def alice_at_def)
  then show "deletes_alice k k' \<Longrightarrow> user_kept demo_cached i k k'"
    using ok by (simp add: deletes_alice_def user_kept_def log_stays demo_cached_def demo_log_def alice_log_def)
  show "deletes_alice k k' \<Longrightarrow> model_kept demo_cached i k k'"
    by (simp add: deletes_alice_def model_kept_def log_stays demo_cached_def demo_log_def alice_log_def)
qed

text \<open>
  C9. A process reads from a cache which may be behind; its updates are accepted only on the current
  version of an object and may fail although they were made; others, replicas among them, change the
  cluster. At every moment of the run, an id of a user in the store is the id of a resource whose
  current version carries the finalizer, provided that the others respect that id: while a resource
  with the id carries the finalizer, they neither remove the finalizer nor change the id nor remove
  the resource. The same holds for models.
\<close>

theorem cached_store_live:
  assumes "cached_cluster_conforms c" and "cached_process c others (k, s, b)"
  shows "((\<forall>k k'. others k k' \<longrightarrow> user_kept c i k k') \<longrightarrow> users_of s i \<noteq> None \<longrightarrow>
            (\<exists>n x. last (cc_ulog c k n) = Some x \<and> ContainsFinalizer (cc_users c) x userFinalizer
               \<and> u_Id (usr_Spec x) = i))
     \<and> ((\<forall>k k'. others k k' \<longrightarrow> model_kept c i k k') \<longrightarrow> models_of s i \<noteq> None \<longrightarrow>
            (\<exists>n x. last (cc_mlog c k n) = Some x \<and> ContainsFinalizer (cc_models c) x modelFinalizer
               \<and> m_Id (mod_Spec x) = i))"
  using cached_process_inv [OF assms]
  by (simp add: in_cluster_defs holds_finalizer_def user_id_def model_id_def)

lemma cached_store_live_witness:
  "\<exists>n x. last (cc_ulog demo_cached (alice_log [Some (alice_at 1 []), Some (alice_at 2 [userFinalizer])]) n) = Some x
     \<and> ContainsFinalizer cached_users x userFinalizer \<and> u_Id (usr_Spec x) = ''alice''"
proof -
  have p: "cached_process demo_cached deletes_alice
      (alice_log [Some (alice_at 1 []), Some (alice_at 2 [userFinalizer])], alice_store, True)"
    using cached_process.user [OF demo_cached_start, of "''alice-cr''" None] demo_cached_run
    by (simp add: demo_cached_def)
  from cached_store_live [OF demo_cached_conforms p, of "''alice''", THEN conjunct1] demo_log_gone(1)
  show ?thesis by (simp add: demo_cached_def)
qed

text \<open>
  The cache may then still show the object without the finalizer: an update made from it is
  refused.
\<close>

lemma demo_stale_update:
  "fst (kube_Update cached_users (alice_log [Some (alice_at 1 []), Some (alice_at 2 [userFinalizer])])
     (AddFinalizer cached_users (alice_at 1 []) userFinalizer)) \<noteq> None"
  by (simp add: cached_users_def demo_write_def demo_log_def versions_ok_def alice_log_def alice_at_def
      List.map_filter_simps add_finalizer_def good_user_wf Let_def)

end
