(* ===== verification/Locking.thy ===== *)
theory Locking
  imports MemoryStore
begin

text \<open>
  The memory store as many goroutines call it at once: the lock, the steps between taking and
  releasing it, and the loops over the maps entry by entry. It justifies that \<open>MemoryStore\<close> takes
  each method as one step: no access to a map races with a write, and the calls answer as if each
  ran by itself when it released the lock.
\<close>

section \<open>Calls\<close>

datatype call =
    CGetUser string | CListUsers | CUserExists string
  | CSyncUser "UserSpec ptr" | CDeleteUser string
  | CGetModel string | CListModels | CListModelsByType string | CModelExists string
  | CSyncModel "ModelSpec ptr" | CDeleteModel string

datatype answer =
    AUser "UserSpec ptr result" | AUsers "UserSpec list result"
  | AModel "ModelSpec ptr result" | AModels "ModelSpec list result"
  | AExists "bool result" | AError "goerror option"

text \<open>A call as one step of a store.\<close>

fun perform :: "'s Store \<Rightarrow> call \<Rightarrow> 's \<Rightarrow> (answer \<times> 's) outcome" where
  "perform S (CGetUser i) s = map_option (\<lambda>r. (AUser r, s)) (GetUser S s i)"
| "perform S CListUsers s = map_option (\<lambda>r. (AUsers r, s)) (ListUsers S s)"
| "perform S (CUserExists i) s = map_option (\<lambda>r. (AExists r, s)) (UserExists S s i)"
| "perform S (CSyncUser u) s = map_option (\<lambda>(e, s'). (AError e, s')) (SyncUser S s u)"
| "perform S (CDeleteUser i) s = map_option (\<lambda>(e, s'). (AError e, s')) (DeleteUser S s i)"
| "perform S (CGetModel i) s = map_option (\<lambda>r. (AModel r, s)) (GetModel S s i)"
| "perform S CListModels s = map_option (\<lambda>r. (AModels r, s)) (ListModels S s)"
| "perform S (CListModelsByType t) s = map_option (\<lambda>r. (AModels r, s)) (ListModelsByType S s t)"
| "perform S (CModelExists i) s = map_option (\<lambda>r. (AExists r, s)) (ModelExists S s i)"
| "perform S (CSyncModel m) s = map_option (\<lambda>(e, s'). (AError e, s')) (SyncModel S s m)"
| "perform S (CDeleteModel i) s = map_option (\<lambda>(e, s'). (AError e, s')) (DeleteModel S s i)"

text \<open>The methods that take the lock for writing, and the returns before it is taken.\<close>

fun writes :: "call \<Rightarrow> bool" where
  "writes (CSyncUser u) = True"
| "writes (CDeleteUser i) = True"
| "writes (CSyncModel m) = True"
| "writes (CDeleteModel i) = True"
| "writes _ = False"

fun early_return :: "call \<Rightarrow> answer option" where
  "early_return (CSyncUser user) =
     (case user of
        None \<Rightarrow> Some (AError (Some (Errorf ''user cannot be nil'')))
      | Some u \<Rightarrow> if u_Id u = [] then Some (AError (Some (Errorf ''user id cannot be empty''))) else None)"
| "early_return (CSyncModel model) =
     (case model of
        None \<Rightarrow> Some (AError (Some (Errorf ''model cannot be nil'')))
      | Some m \<Rightarrow> if m_Id m = [] then Some (AError (Some (Errorf ''model id cannot be empty''))) else None)"
| "early_return _ = None"

fun call_wf :: "call \<Rightarrow> bool" where
  "call_wf (CSyncUser u) = pred_option wf_user u"
| "call_wf (CSyncModel m) = pred_option wf_model m"
| "call_wf _ = True"

section \<open>Inside the lock\<close>

text \<open>
  Where a method is between taking the lock and releasing it: before its first step, after the
  lookup, after the copy of the argument, in the loop with the keys already visited and the list
  so far, at its return, or in a panic.
\<close>

datatype frame =
    Entry
  | FoundUser "UserSpec ptr option" | FoundModel "ModelSpec ptr option"
  | CopiedUser "UserSpec ptr" | CopiedModel "ModelSpec ptr"
  | RangeUsers "string list" "UserSpec list" | RangeModels "string list" "ModelSpec list"
  | Return answer
  | Panic

text \<open>
  One iteration of a loop over the live map: it visits some entry whose key was not visited
  before. Each next frame is a list, of one frame for every entry it may visit.
\<close>

definition range_next ::
    "('a \<Rightarrow> 'a outcome) \<Rightarrow> ('a \<Rightarrow> bool) \<Rightarrow> (string, 'a ptr) gomap \<Rightarrow> string list \<Rightarrow> 'a list
      \<Rightarrow> (string list \<times> 'a list) outcome list" where
  "range_next into keep m seen acc =
     map (\<lambda>(k, p). do { x \<leftarrow> p;
              if keep x then do { c \<leftarrow> into x; Some (seen @ [k], acc @ [c]) } else Some (seen @ [k], acc) })
         (filter (\<lambda>(k, p). k \<notin> set seen) (entries m))"

definition ranged :: "('b \<Rightarrow> frame) \<Rightarrow> frame \<Rightarrow> 'b outcome list \<Rightarrow> frame list" where
  "ranged go end nexts =
     (if nexts = [] then [end] else map (\<lambda>r. case r of None \<Rightarrow> Panic | Some x \<Rightarrow> go x) nexts)"

text \<open>
  The next frames and maps, method by method. Every step reads or writes at most one entry of one
  map.
\<close>

type_synonym steps = "(frame \<times> memory) list"

definition body_GetUser :: "string \<Rightarrow> frame \<Rightarrow> memory \<Rightarrow> steps" where
  "body_GetUser i f s = (case f of
       Entry \<Rightarrow> [(FoundUser (glookup (mem_users s) i), s)]
     | FoundUser None \<Rightarrow> [(Return (AUser (Inl (Errorf (''user not found: '' @ i)))), s)]
     | FoundUser (Some user) \<Rightarrow>
         [(case UserSpec_DeepCopy user of None \<Rightarrow> Panic | Some c \<Rightarrow> Return (AUser (Inr c)), s)]
     | _ \<Rightarrow> [])"

definition body_ListUsers :: "frame \<Rightarrow> memory \<Rightarrow> steps" where
  "body_ListUsers f s = (case f of
       Entry \<Rightarrow> [(RangeUsers [] [], s)]
     | RangeUsers seen users \<Rightarrow>
         map (\<lambda>g. (g, s)) (ranged (case_prod RangeUsers) (Return (AUsers (Inr users)))
           (range_next UserSpec_DeepCopyInto (\<lambda>_. True) (mem_users s) seen users))
     | _ \<Rightarrow> [])"

definition body_UserExists :: "string \<Rightarrow> frame \<Rightarrow> memory \<Rightarrow> steps" where
  "body_UserExists i f s = (case f of
       Entry \<Rightarrow> [(Return (AExists (Inr (glookup (mem_users s) i \<noteq> None))), s)]
     | _ \<Rightarrow> [])"

definition body_SyncUser :: "UserSpec ptr \<Rightarrow> frame \<Rightarrow> memory \<Rightarrow> steps" where
  "body_SyncUser user f s = (case f of
       Entry \<Rightarrow> [(case UserSpec_DeepCopy user of None \<Rightarrow> Panic | Some c \<Rightarrow> CopiedUser c, s)]
     | CopiedUser c \<Rightarrow>
         [case do { u \<leftarrow> user; gset (u_Id u) c (mem_users s) } of
            None \<Rightarrow> (Panic, s) | Some m \<Rightarrow> (Return (AError None), s\<lparr>mem_users := m\<rparr>)]
     | _ \<Rightarrow> [])"

definition body_DeleteUser :: "string \<Rightarrow> frame \<Rightarrow> memory \<Rightarrow> steps" where
  "body_DeleteUser i f s = (case f of
       Entry \<Rightarrow> [(Return (AError None), s\<lparr>mem_users := gdelete i (mem_users s)\<rparr>)]
     | _ \<Rightarrow> [])"

definition body_GetModel :: "string \<Rightarrow> frame \<Rightarrow> memory \<Rightarrow> steps" where
  "body_GetModel i f s = (case f of
       Entry \<Rightarrow> [(FoundModel (glookup (mem_models s) i), s)]
     | FoundModel None \<Rightarrow> [(Return (AModel (Inl (Errorf (''model not found: '' @ i)))), s)]
     | FoundModel (Some model) \<Rightarrow>
         [(case ModelSpec_DeepCopy model of None \<Rightarrow> Panic | Some c \<Rightarrow> Return (AModel (Inr c)), s)]
     | _ \<Rightarrow> [])"

definition body_ListModels :: "(ModelSpec \<Rightarrow> bool) \<Rightarrow> frame \<Rightarrow> memory \<Rightarrow> steps" where
  "body_ListModels keep f s = (case f of
       Entry \<Rightarrow> [(RangeModels [] [], s)]
     | RangeModels seen models \<Rightarrow>
         map (\<lambda>g. (g, s)) (ranged (case_prod RangeModels) (Return (AModels (Inr models)))
           (range_next ModelSpec_DeepCopyInto keep (mem_models s) seen models))
     | _ \<Rightarrow> [])"

definition body_ModelExists :: "string \<Rightarrow> frame \<Rightarrow> memory \<Rightarrow> steps" where
  "body_ModelExists i f s = (case f of
       Entry \<Rightarrow> [(Return (AExists (Inr (glookup (mem_models s) i \<noteq> None))), s)]
     | _ \<Rightarrow> [])"

definition body_SyncModel :: "ModelSpec ptr \<Rightarrow> frame \<Rightarrow> memory \<Rightarrow> steps" where
  "body_SyncModel model f s = (case f of
       Entry \<Rightarrow> [(case ModelSpec_DeepCopy model of None \<Rightarrow> Panic | Some c \<Rightarrow> CopiedModel c, s)]
     | CopiedModel c \<Rightarrow>
         [case do { m \<leftarrow> model; gset (m_Id m) c (mem_models s) } of
            None \<Rightarrow> (Panic, s) | Some g \<Rightarrow> (Return (AError None), s\<lparr>mem_models := g\<rparr>)]
     | _ \<Rightarrow> [])"

definition body_DeleteModel :: "string \<Rightarrow> frame \<Rightarrow> memory \<Rightarrow> steps" where
  "body_DeleteModel i f s = (case f of
       Entry \<Rightarrow> [(Return (AError None), s\<lparr>mem_models := gdelete i (mem_models s)\<rparr>)]
     | _ \<Rightarrow> [])"

fun body :: "call \<Rightarrow> frame \<Rightarrow> memory \<Rightarrow> steps" where
  "body (CGetUser i) = body_GetUser i"
| "body CListUsers = body_ListUsers"
| "body (CUserExists i) = body_UserExists i"
| "body (CSyncUser u) = body_SyncUser u"
| "body (CDeleteUser i) = body_DeleteUser i"
| "body (CGetModel i) = body_GetModel i"
| "body CListModels = body_ListModels (\<lambda>_. True)"
| "body (CListModelsByType t) = body_ListModels (\<lambda>m. m_Type m = t)"
| "body (CModelExists i) = body_ModelExists i"
| "body (CSyncModel m) = body_SyncModel m"
| "body (CDeleteModel i) = body_DeleteModel i"

lemmas body_defs = body_GetUser_def body_ListUsers_def body_UserExists_def body_SyncUser_def
  body_DeleteUser_def body_GetModel_def body_ListModels_def body_ModelExists_def body_SyncModel_def
  body_DeleteModel_def

text \<open>
  The map that the next step reads or writes. The first step of \<open>ListUsers\<close> and \<open>ListModels\<close> reads
  the length of the map for the capacity of the slice, on which no frame depends.
\<close>

datatype field = Users | Models

fun reads_next :: "call \<Rightarrow> frame \<Rightarrow> field option" where
  "reads_next (CGetUser i) Entry = Some Users"
| "reads_next CListUsers Entry = Some Users"
| "reads_next (CUserExists i) Entry = Some Users"
| "reads_next c (RangeUsers seen acc) = Some Users"
| "reads_next (CGetModel i) Entry = Some Models"
| "reads_next CListModels Entry = Some Models"
| "reads_next (CModelExists i) Entry = Some Models"
| "reads_next c (RangeModels seen acc) = Some Models"
| "reads_next c f = None"

fun writes_next :: "call \<Rightarrow> frame \<Rightarrow> field option" where
  "writes_next (CSyncUser u) (CopiedUser c) = Some Users"
| "writes_next (CDeleteUser i) Entry = Some Users"
| "writes_next (CSyncModel m) (CopiedModel c) = Some Models"
| "writes_next (CDeleteModel i) Entry = Some Models"
| "writes_next c f = None"

text \<open>They are the maps the step depends on, and those it changes.\<close>

lemma body_writes:
  assumes "(f', s') \<in> set (body c f s)"
  shows "writes_next c f \<noteq> Some Users \<Longrightarrow> mem_users s' = mem_users s"
    and "writes_next c f \<noteq> Some Models \<Longrightarrow> mem_models s' = mem_models s"
  using assms by (cases c; force simp: body_defs split: frame.splits option.splits)+

lemma body_reads:
  assumes "writes_next c f = None"
    and "reads_next c f = Some Users \<Longrightarrow> mem_users s = mem_users s'"
    and "reads_next c f = Some Models \<Longrightarrow> mem_models s = mem_models s'"
  shows "map fst (body c f s) = map fst (body c f s')"
  using assms by (cases c; cases f; simp add: body_defs comp_def split: option.splits)

section \<open>Goroutines\<close>

text \<open>
  A goroutine is in no call of the store, waits for the lock in one, or is inside. The log
  has the calls that are over with their answers, in the order in which they gave up the lock (or
  returned without it). A goroutine that calls again is another call in the same place.
\<close>

datatype pc = Outside | Waiting call | Inside call frame

record mutex =
  mu_readers :: "nat set"
  mu_writer :: "nat option"

record shared =
  sh_mu :: mutex
  sh_mem :: memory
  sh_pc :: "nat \<Rightarrow> pc"
  sh_log :: "(nat \<times> call \<times> answer) list"

definition begin_state :: shared where
  "begin_state = \<lparr>sh_mu = \<lparr>mu_readers = {}, mu_writer = None\<rparr>, sh_mem = New, sh_pc = \<lambda>_. Outside, sh_log = []\<rparr>"

definition RLock :: "nat \<Rightarrow> mutex \<Rightarrow> mutex option" where
  "RLock t mu = (if mu_writer mu = None then Some (mu\<lparr>mu_readers := insert t (mu_readers mu)\<rparr>) else None)"

definition Lock :: "nat \<Rightarrow> mutex \<Rightarrow> mutex option" where
  "Lock t mu = (if mu_writer mu = None \<and> mu_readers mu = {} then Some (mu\<lparr>mu_writer := Some t\<rparr>) else None)"

definition acquire :: "call \<Rightarrow> nat \<Rightarrow> mutex \<Rightarrow> mutex option" where
  "acquire c = (if writes c then Lock else RLock)"

definition release :: "call \<Rightarrow> nat \<Rightarrow> mutex \<Rightarrow> mutex" where
  "release c t mu = (if writes c then mu\<lparr>mu_writer := None\<rparr> else mu\<lparr>mu_readers := mu_readers mu - {t}\<rparr>)"

inductive goes :: "shared \<Rightarrow> shared \<Rightarrow> bool" where
  refused: "sh_pc w t = Waiting c \<Longrightarrow> early_return c = Some a \<Longrightarrow>
     goes w (w\<lparr>sh_pc := (sh_pc w)(t := Outside), sh_log := sh_log w @ [(t, c, a)]\<rparr>)"
| locked: "sh_pc w t = Waiting c \<Longrightarrow> early_return c = None \<Longrightarrow> acquire c t (sh_mu w) = Some mu \<Longrightarrow>
     goes w (w\<lparr>sh_mu := mu, sh_pc := (sh_pc w)(t := Inside c Entry)\<rparr>)"
| ran: "sh_pc w t = Inside c f \<Longrightarrow> (f', s) \<in> set (body c f (sh_mem w)) \<Longrightarrow>
     goes w (w\<lparr>sh_mem := s, sh_pc := (sh_pc w)(t := Inside c f')\<rparr>)"
| unlocked: "sh_pc w t = Inside c (Return a) \<Longrightarrow>
     goes w (w\<lparr>sh_mu := release c t (sh_mu w), sh_pc := (sh_pc w)(t := Outside),
               sh_log := sh_log w @ [(t, c, a)]\<rparr>)"

inductive occurs :: "shared \<Rightarrow> bool" where
  begun: "occurs begin_state"
| calls: "occurs w \<Longrightarrow> sh_pc w t = Outside \<Longrightarrow> call_wf c \<Longrightarrow>
     occurs (w\<lparr>sh_pc := (sh_pc w)(t := Waiting c)\<rparr>)"
| goes: "occurs w \<Longrightarrow> goes w w' \<Longrightarrow> occurs w'"

text \<open>The calls of a log, one after the other, give its answers and leave the state.\<close>

inductive sequential :: "(nat \<times> call \<times> answer) list \<Rightarrow> memory \<Rightarrow> bool" where
  none: "sequential [] New"
| one_more: "sequential l s \<Longrightarrow> range_order uord \<Longrightarrow> range_order mord \<Longrightarrow>
     perform (Memory uord mord) c s = Some (a, s') \<Longrightarrow> sequential (l @ [(t, c, a)]) s'"

section \<open>Who holds the lock\<close>

definition holds :: "shared \<Rightarrow> nat \<Rightarrow> call \<Rightarrow> bool" where
  "holds w t c \<longleftrightarrow> (\<exists>f. sh_pc w t = Inside c f)"

definition lock_inv :: "shared \<Rightarrow> bool" where
  "lock_inv w \<longleftrightarrow>
     (\<forall>t. (\<exists>c. holds w t c \<and> writes c) \<longleftrightarrow> mu_writer (sh_mu w) = Some t)
     \<and> (\<forall>t. (\<exists>c. holds w t c \<and> \<not> writes c) \<longleftrightarrow> t \<in> mu_readers (sh_mu w))
     \<and> (mu_writer (sh_mu w) \<noteq> None \<longrightarrow> mu_readers (sh_mu w) = {})"

text \<open>A writer inside is alone.\<close>

lemma writer_alone:
  assumes "lock_inv w" and "sh_pc w t = Inside c f" and "writes c" and "sh_pc w t' = Inside c' f'"
  shows "t' = t"
proof -
  have h: "holds w t c" "holds w t' c'" using assms(2,4) by (auto simp: holds_def)
  with assms(1,3) have "mu_writer (sh_mu w) = Some t" unfolding lock_inv_def by metis
  moreover from this assms(1) have "mu_readers (sh_mu w) = {}" unfolding lock_inv_def by simp
  ultimately show ?thesis using assms(1) h(2) unfolding lock_inv_def by (metis empty_iff option.inject)
qed

lemma lock_inv_outside:
  assumes "lock_inv w" and "sh_mu w' = sh_mu w" and "\<forall>t c. holds w' t c \<longleftrightarrow> holds w t c"
  shows "lock_inv w'"
  using assms unfolding lock_inv_def by simp

lemma lock_inv_acquire:
  assumes w: "lock_inv w" and t: "sh_pc w t = Waiting c" and a: "acquire c t (sh_mu w) = Some mu"
  shows "lock_inv (w\<lparr>sh_mu := mu, sh_pc := (sh_pc w)(t := Inside c Entry)\<rparr>)"
  using w a t
  by (auto simp: lock_inv_def holds_def acquire_def RLock_def Lock_def split: if_splits)

lemma lock_inv_release:
  assumes w: "lock_inv w" and t: "sh_pc w t = Inside c f"
  shows "lock_inv (w\<lparr>sh_mu := release c t (sh_mu w), sh_pc := (sh_pc w)(t := Outside), sh_log := l\<rparr>)"
proof (cases "writes c")
  case True
  with w t have "mu_writer (sh_mu w) = Some t" "mu_readers (sh_mu w) = {}"
    unfolding lock_inv_def holds_def by (metis, metis option.discI)
  moreover have "\<not> holds w t' c'" if "t' \<noteq> t" for t' c'
    using writer_alone [OF w t True] that by (auto simp: holds_def)
  ultimately show ?thesis using True by (auto simp: lock_inv_def holds_def release_def)
next
  case False
  with w t show ?thesis by (auto simp: lock_inv_def holds_def release_def)
qed

lemma lock_inv_step:
  assumes "lock_inv w" and "goes w w'"
  shows "lock_inv w'"
  using assms(2,1)
proof cases
  case (refused t c a)
  then show ?thesis using assms(1) by (intro lock_inv_outside [OF assms(1)]) (auto simp: holds_def)
next
  case (locked t c mu)
  then show ?thesis using lock_inv_acquire assms(1) by simp
next
  case (ran t c f f' s)
  then show ?thesis using assms(1) by (intro lock_inv_outside [OF assms(1)]) (auto simp: holds_def)
next
  case (unlocked t c a)
  then show ?thesis using lock_inv_release assms(1) by simp
qed

lemma lock_inv_occurs: "occurs w \<Longrightarrow> lock_inv w"
proof (induction rule: occurs.induct)
  case begun
  show ?case by (simp add: lock_inv_def holds_def begin_state_def)
next
  case (calls w t c)
  then show ?case by (intro lock_inv_outside [OF calls.IH]) (auto simp: holds_def)
next
  case (goes w w')
  then show ?case using lock_inv_step by blast
qed

section \<open>A loop over the live map\<close>

text \<open>
  The keys visited so far and the list so far come from the copying loop over some entries of the
  map, in some order. When no entry is left, the order is one of the whole map.
\<close>

definition visited ::
    "('a \<Rightarrow> 'a outcome) \<Rightarrow> ('a \<Rightarrow> bool) \<Rightarrow> (string, 'a ptr) gomap \<Rightarrow> string list \<Rightarrow> 'a list \<Rightarrow> bool" where
  "visited into keep m seen acc \<longleftrightarrow>
     (\<exists>es. map fst es = seen \<and> distinct seen \<and> set es \<subseteq> set (entries m)
        \<and> copy_all into keep (map snd es) [] = Some acc)"

lemma copy_all_append:
  "copy_all into keep (ps @ qs) acc =
     do { acc' \<leftarrow> copy_all into keep ps acc; copy_all into keep qs acc' }"
proof (induction ps arbitrary: acc)
  case (Cons p ps)
  then show ?case by (cases p) (auto split: Option.bind_splits)
qed simp

lemma visited_none: "visited into keep m [] []"
  by (simp add: visited_def)

lemma visited_next:
  assumes v: "visited into keep m seen acc" and n: "Some (seen', acc') \<in> set (range_next into keep m seen acc)"
  shows "visited into keep m seen' acc'"
proof -
  from v obtain es where es: "map fst es = seen" "distinct seen" "set es \<subseteq> set (entries m)"
      "copy_all into keep (map snd es) [] = Some acc" unfolding visited_def by blast
  from n obtain k p where kp: "(k, p) \<in> set (entries m)" "k \<notin> set seen"
      and step: "do { x \<leftarrow> p; if keep x then do { c \<leftarrow> into x; Some (seen @ [k], acc @ [c]) }
             else Some (seen @ [k], acc) } = Some (seen', acc')"
    unfolding range_next_def by auto
  from step have "seen' = seen @ [k]" "copy_all into keep [p] acc = Some acc'"
    by (auto split: Option.bind_splits if_splits)
  with es kp show ?thesis
    unfolding visited_def by (intro exI [of _ "es @ [(k, p)]"]) (simp add: copy_all_append)
qed

lemma range_no_panic:
  assumes m: "ptr_map idf good m" and into: "\<And>x. good x \<Longrightarrow> into x = Some x"
  shows "None \<notin> set (range_next into keep m seen acc)"
proof
  assume "None \<in> set (range_next into keep m seen acc)"
  then obtain k p where kp: "(k, p) \<in> set (entries m)"
      and none: "do { x \<leftarrow> p; if keep x then do { c \<leftarrow> into x; Some (seen @ [k], acc @ [c]) }
             else Some (seen @ [k], acc) } = None"
    unfolding range_next_def by auto
  from m kp have "ptr_entry idf good (k, p)" by (auto simp: ptr_map_def list_all_iff)
  then obtain x where "p = Some x" "good x" by (auto simp: ptr_entry_def split: option.splits)
  with into none show False by (simp split: if_splits)
qed

lemma visited_all:
  assumes v: "visited into keep m seen acc" and e: "range_next into keep m seen acc = []" and m: "gwf m"
  shows "\<exists>ord. range_order ord \<and> copy_all into keep (map snd (ord (entries m))) [] = Some acc"
proof -
  from v obtain es where es: "map fst es = seen" "distinct seen" "set es \<subseteq> set (entries m)"
      "copy_all into keep (map snd es) [] = Some acc" unfolding visited_def by blast
  have keys: "k \<in> set seen" if "(k, p) \<in> set (entries m)" for k p
    using e that unfolding range_next_def by (auto simp: filter_empty_conv)
  have "set (entries m) \<subseteq> set es"
  proof
    fix kp assume kp: "kp \<in> set (entries m)"
    obtain k p where [simp]: "kp = (k, p)" by (cases kp)
    from keys kp es(1) obtain q where "(k, q) \<in> set es" by force
    moreover from this es(3) kp m have "q = p" by (auto simp: gwf_def dest: eq_key_imp_eq_value)
    ultimately show "kp \<in> set es" by simp
  qed
  moreover have "distinct es" using es(1,2) by (metis distinct_map)
  moreover have "distinct (entries m)" using m by (simp add: gwf_def distinct_map)
  ultimately have "mset es = mset (entries m)" using es(3) by (simp add: set_eq_iff_mset_eq_distinct subset_antisym)
  then have "range_order (\<lambda>xs. if xs = entries m then es else xs)" by (simp add: range_order_def)
  then show ?thesis using es(4) by (intro exI [of _ "\<lambda>xs. if xs = entries m then es else xs"]) simp
qed

section \<open>Every call is one step\<close>

fun models_kept :: "call \<Rightarrow> (ModelSpec \<Rightarrow> bool) option" where
  "models_kept CListModels = Some (\<lambda>_. True)"
| "models_kept (CListModelsByType t) = Some (\<lambda>m. m_Type m = t)"
| "models_kept _ = None"

definition performs :: "call \<Rightarrow> memory \<Rightarrow> answer \<Rightarrow> memory \<Rightarrow> bool" where
  "performs c s a s' \<longleftrightarrow>
     (\<exists>uord mord. range_order uord \<and> range_order mord \<and> perform (Memory uord mord) c s = Some (a, s'))"

text \<open>A frame against the store when the lock was last free.\<close>

fun frame_ok :: "call \<Rightarrow> frame \<Rightarrow> memory \<Rightarrow> memory \<Rightarrow> bool" where
  "frame_ok c Entry s0 s \<longleftrightarrow> s = s0"
| "frame_ok c (FoundUser p) s0 s \<longleftrightarrow> s = s0 \<and> (\<exists>i. c = CGetUser i \<and> p = glookup (mem_users s) i)"
| "frame_ok c (FoundModel p) s0 s \<longleftrightarrow> s = s0 \<and> (\<exists>i. c = CGetModel i \<and> p = glookup (mem_models s) i)"
| "frame_ok c (CopiedUser p) s0 s \<longleftrightarrow> s = s0 \<and> c = CSyncUser p"
| "frame_ok c (CopiedModel p) s0 s \<longleftrightarrow> s = s0 \<and> c = CSyncModel p"
| "frame_ok c (RangeUsers seen acc) s0 s \<longleftrightarrow>
     s = s0 \<and> c = CListUsers \<and> visited UserSpec_DeepCopyInto (\<lambda>_. True) (mem_users s) seen acc"
| "frame_ok c (RangeModels seen acc) s0 s \<longleftrightarrow>
     s = s0 \<and> (\<exists>keep. models_kept c = Some keep \<and> visited ModelSpec_DeepCopyInto keep (mem_models s) seen acc)"
| "frame_ok c (Return a) s0 s \<longleftrightarrow> performs c s0 a s"
| "frame_ok c Panic s0 s \<longleftrightarrow> False"

lemma performsI:
  "range_order uord \<Longrightarrow> range_order mord \<Longrightarrow> perform (Memory uord mord) c s = Some (a, s') \<Longrightarrow> performs c s a s'"
  by (auto simp: performs_def)

lemma performs_early:
  "early_return c = Some a \<Longrightarrow> performs c s a s"
  unfolding performs_def
  by (intro exI [of _ id])
     (cases c; auto simp: Memory_def Memory_SyncUser_def Memory_SyncModel_def split: option.splits if_splits)

lemma perform_inv:
  assumes "mem_inv s" and "call_wf c" and "performs c s a s'"
  shows "mem_inv s'" and "\<not> writes c \<Longrightarrow> s' = s"
proof -
  from assms(3) obtain uord mord where p: "perform (Memory uord mord) c s = Some (a, s')"
    unfolding performs_def by blast
  show "\<not> writes c \<Longrightarrow> s' = s" using p by (cases c) auto
  have "\<exists>x e. op_wf x \<and> store_step (Memory uord mord) x s = Some (e, s')" if "writes c"
  proof (cases c)
    case (CSyncUser u)
    then show ?thesis using p assms(2) by (intro exI [of _ "OpSyncUser u"]) auto
  next
    case (CDeleteUser i)
    then show ?thesis using p assms(2) by (intro exI [of _ "OpDeleteUser i"]) auto
  next
    case (CSyncModel m)
    then show ?thesis using p assms(2) by (intro exI [of _ "OpSyncModel m"]) auto
  next
    case (CDeleteModel i)
    then show ?thesis using p assms(2) by (intro exI [of _ "OpDeleteModel i"]) auto
  qed (use that in simp_all)
  then show "mem_inv s'"
    using Memory_step [OF assms(1), of _ uord mord] \<open>\<not> writes c \<Longrightarrow> s' = s\<close> assms(1) by fastforce
qed

text \<open>A loop in the lock: it goes on visiting, or has been around the map.\<close>

lemma ranged_frames:
  assumes "g \<in> set (ranged go end nexts)"
  shows "nexts = [] \<and> g = end \<or> (\<exists>x. Some x \<in> set nexts \<and> g = go x) \<or> None \<in> set nexts"
  using assms by (auto simp: ranged_def split: if_splits option.splits)

lemma ranged_users:
  assumes s: "mem_inv s" and v: "visited UserSpec_DeepCopyInto (\<lambda>_. True) (mem_users s) seen acc"
    and g: "g \<in> set (ranged (case_prod RangeUsers) (Return (AUsers (Inr acc)))
              (range_next UserSpec_DeepCopyInto (\<lambda>_. True) (mem_users s) seen acc))"
  shows "frame_ok CListUsers g s s"
proof -
  have m: "ptr_map u_Id wf_user (mem_users s)" using s by (simp add: mem_inv_def)
  consider "range_next UserSpec_DeepCopyInto (\<lambda>_. True) (mem_users s) seen acc = []" "g = Return (AUsers (Inr acc))"
    | seen' acc' where "Some (seen', acc') \<in> set (range_next UserSpec_DeepCopyInto (\<lambda>_. True) (mem_users s) seen acc)"
        "g = RangeUsers seen' acc'"
    using ranged_frames [OF g] range_no_panic [OF m UserSpec_DeepCopyInto_id] by fastforce
  then show ?thesis
  proof cases
    case 1
    from visited_all [OF v 1(1)] m obtain ord where "range_order ord"
        "copy_all UserSpec_DeepCopyInto (\<lambda>_. True) (map snd (ord (entries (mem_users s)))) [] = Some acc"
      by (auto simp: ptr_map_def)
    then show ?thesis
      by (simp add: 1) (rule performsI [of ord id], simp_all add: Memory_def Memory_ListUsers_def)
  next
    case 2
    then show ?thesis using visited_next [OF v 2(1)] by simp
  qed
qed

lemma ranged_models:
  assumes s: "mem_inv s" and c: "models_kept c = Some keep"
    and v: "visited ModelSpec_DeepCopyInto keep (mem_models s) seen acc"
    and g: "g \<in> set (ranged (case_prod RangeModels) (Return (AModels (Inr acc)))
              (range_next ModelSpec_DeepCopyInto keep (mem_models s) seen acc))"
  shows "frame_ok c g s s"
proof -
  have m: "ptr_map m_Id wf_model (mem_models s)" using s by (simp add: mem_inv_def)
  consider "range_next ModelSpec_DeepCopyInto keep (mem_models s) seen acc = []" "g = Return (AModels (Inr acc))"
    | seen' acc' where "Some (seen', acc') \<in> set (range_next ModelSpec_DeepCopyInto keep (mem_models s) seen acc)"
        "g = RangeModels seen' acc'"
    using ranged_frames [OF g] range_no_panic [OF m ModelSpec_DeepCopyInto_id] by fastforce
  then show ?thesis
  proof cases
    case 1
    from visited_all [OF v 1(1)] m obtain ord where "range_order ord"
        "copy_all ModelSpec_DeepCopyInto keep (map snd (ord (entries (mem_models s)))) [] = Some acc"
      by (auto simp: ptr_map_def)
    then show ?thesis using c
      by (cases c)
         (auto simp: 1 Memory_def Memory_ListModels_def Memory_ListModelsByType_def intro!: performsI [of id ord])
  next
    case 2
    then show ?thesis using visited_next [OF v 2(1)] c by simp
  qed
qed

lemma performs_id:
  "perform (Memory id id) c s = Some (a, s') \<Longrightarrow> performs c s a s'"
  by (rule performsI [of id id]) simp_all

text \<open>A step of a method keeps its frame right.\<close>

lemmas memory_methods = Memory_def Memory_GetUser_def Memory_UserExists_def Memory_DeleteUser_def
  Memory_GetModel_def Memory_ModelExists_def Memory_DeleteModel_def Memory_SyncUser_def Memory_SyncModel_def

lemma get_frame:
  assumes "mem_inv s" and "frame_ok c f s s" and "(f', s') \<in> set (body c f s)"
    and "c = CGetUser i \<or> c = CGetModel i"
  shows "frame_ok c f' s s'"
  using assms(4)
proof
  assume "c = CGetUser i"
  then show ?thesis using assms(2,3) mem_lookup(1,3) [OF assms(1), of i]
    by (cases "users_of s i")
       (auto simp: body_defs memory_methods pred_option_def split: frame.splits option.splits intro!: performs_id)
next
  assume "c = CGetModel i"
  then show ?thesis using assms(2,3) mem_lookup(2,4) [OF assms(1), of i]
    by (cases "models_of s i")
       (auto simp: body_defs memory_methods pred_option_def split: frame.splits option.splits intro!: performs_id)
qed

lemma sync_user_frame:
  assumes "mem_inv s" and "call_wf c" "early_return c = None" and "frame_ok c f s s"
    and "(f', s') \<in> set (body c f s)" and c: "c = CSyncUser u"
  shows "frame_ok c f' s s'"
proof -
  obtain w where w: "u = Some w" "u_Id w \<noteq> []" "wf_user w"
    using assms(2,3) c by (cases u) (auto split: if_splits)
  from ptr_map_gset [of u_Id wf_user "mem_users s" w] assms(1) w(2,3) obtain m
    where "gset (u_Id w) (Some w) (mem_users s) = Some m" by (auto simp: mem_inv_def)
  then show ?thesis using assms(4,5) w c
    by (auto simp: body_defs memory_methods split: frame.splits intro!: performs_id)
qed

lemma sync_model_frame:
  assumes "mem_inv s" and "call_wf c" "early_return c = None" and "frame_ok c f s s"
    and "(f', s') \<in> set (body c f s)" and c: "c = CSyncModel u"
  shows "frame_ok c f' s s'"
proof -
  obtain w where w: "u = Some w" "m_Id w \<noteq> []" "wf_model w"
    using assms(2,3) c by (cases u) (auto split: if_splits)
  from ptr_map_gset [of m_Id wf_model "mem_models s" w] assms(1) w(2,3) obtain m
    where "gset (m_Id w) (Some w) (mem_models s) = Some m" by (auto simp: mem_inv_def)
  then show ?thesis using assms(4,5) w c
    by (auto simp: body_defs memory_methods split: frame.splits intro!: performs_id)
qed

lemma body_frame:
  assumes s0: "mem_inv s0" and c: "call_wf c" "early_return c = None" and f: "frame_ok c f s0 s"
    and b: "(f', s') \<in> set (body c f s)"
  shows "frame_ok c f' s0 s'"
proof -
  have same: "s = s0" if "\<forall>a. f \<noteq> Return a" using f that by (cases f) auto
  have nret: "\<forall>a. f \<noteq> Return a" using b by (cases c) (auto simp: body_defs)
  note f' = f [unfolded same [OF nret]] and b' = b [unfolded same [OF nret]]
  show ?thesis
  proof (cases c)
    case CListUsers
    then show ?thesis using b' f' ranged_users [OF s0]
      by (auto simp: body_defs visited_none split: frame.splits)
  next
    case CListModels
    then show ?thesis using b' f' ranged_models [OF s0, of c]
      by (auto simp: body_defs visited_none split: frame.splits)
  next
    case (CListModelsByType t)
    then show ?thesis using b' f' ranged_models [OF s0, of c]
      by (auto simp: body_defs visited_none split: frame.splits)
  next
    case (CSyncUser u)
    then show ?thesis by (rule sync_user_frame [OF s0 c f' b'])
  next
    case (CSyncModel u)
    then show ?thesis by (rule sync_model_frame [OF s0 c f' b'])
  next
    case (CGetUser i)
    then show ?thesis using get_frame [OF s0 f' b'] by blast
  next
    case (CGetModel i)
    then show ?thesis using get_frame [OF s0 f' b'] by blast
  qed (use b' f' in \<open>auto simp: body_defs memory_methods split: frame.splits intro!: performs_id\<close>)
qed

text \<open>A step of a method that only reads leaves the store.\<close>

lemma body_reader: "(f', s') \<in> set (body c f s) \<Longrightarrow> \<not> writes c \<Longrightarrow> s' = s"
  by (cases c) (auto simp: body_defs split: frame.splits option.splits)

definition calls_ok :: "shared \<Rightarrow> memory \<Rightarrow> bool" where
  "calls_ok w s0 \<longleftrightarrow>
     sequential (sh_log w) s0 \<and> mem_inv s0
     \<and> (mu_writer (sh_mu w) = None \<longrightarrow> sh_mem w = s0)
     \<and> (\<forall>t c f. sh_pc w t = Inside c f \<longrightarrow> call_wf c \<and> early_return c = None \<and> frame_ok c f s0 (sh_mem w))
     \<and> (\<forall>t c. sh_pc w t = Waiting c \<longrightarrow> call_wf c)"

lemma calls_okD:
  assumes "calls_ok w s0"
  shows "sequential (sh_log w) s0" and "mem_inv s0" and "mu_writer (sh_mu w) = None \<Longrightarrow> sh_mem w = s0"
    and "sh_pc w t = Inside c f \<Longrightarrow> call_wf c"
    and "sh_pc w t = Inside c f \<Longrightarrow> early_return c = None"
    and "sh_pc w t = Inside c f \<Longrightarrow> frame_ok c f s0 (sh_mem w)"
    and "sh_pc w t = Waiting c \<Longrightarrow> call_wf c"
  using assms unfolding calls_ok_def by blast+

lemma log_one_more:
  "sequential l s \<Longrightarrow> performs c s a s' \<Longrightarrow> sequential (l @ [(t, c, a)]) s'"
  unfolding performs_def by (blast intro: sequential.one_more)

text \<open>With a writer inside, no other frame depends on the store.\<close>

lemma others_outside:
  assumes "lock_inv w" and "sh_pc w t = Inside c f" and "writes c" and "t' \<noteq> t"
  shows "sh_pc w t' \<noteq> Inside c' f'"
  using writer_alone [OF assms(1,2,3), of t' c' f'] assms(4) by blast

lemma calls_ok_ran:
  assumes w: "calls_ok w s0" "lock_inv w" and t: "sh_pc w t = Inside c f"
    and b: "(f', s) \<in> set (body c f (sh_mem w))"
  shows "calls_ok (w\<lparr>sh_mem := s, sh_pc := (sh_pc w)(t := Inside c f')\<rparr>) s0"
proof -
  note ok = calls_okD [OF w(1)]
  have f': "frame_ok c f' s0 s"
    using body_frame [OF ok(2) ok(4) [OF t] ok(5) [OF t] ok(6) [OF t] b] .
  show ?thesis
  proof (cases "writes c")
    case True
    have "mu_writer (sh_mu w) \<noteq> None"
      using w(2) t True unfolding lock_inv_def holds_def by (metis option.distinct(1))
    then show ?thesis
      using ok f' t others_outside [OF w(2) t True] by (auto simp: calls_ok_def)
  next
    case False
    then have "s = sh_mem w" by (rule body_reader [OF b])
    then show ?thesis using ok f' t by (auto simp: calls_ok_def)
  qed
qed

lemma calls_ok_unlocked:
  assumes w: "calls_ok w s0" "lock_inv w" and t: "sh_pc w t = Inside c (Return a)"
  shows "calls_ok (w\<lparr>sh_mu := release c t (sh_mu w), sh_pc := (sh_pc w)(t := Outside),
                     sh_log := sh_log w @ [(t, c, a)]\<rparr>) (sh_mem w)"
proof -
  note ok = calls_okD [OF w(1)]
  from ok(6) [OF t] have p: "performs c s0 a (sh_mem w)" by simp
  note inv = perform_inv [OF ok(2) ok(4) [OF t] p]
  show ?thesis
  proof (cases "writes c")
    case True
    then show ?thesis
      using ok log_one_more [OF ok(1) p] inv(1) others_outside [OF w(2) t True]
      by (auto simp: calls_ok_def release_def)
  next
    case False
    with inv(2) have s0: "sh_mem w = s0" by simp
    then show ?thesis using ok log_one_more [OF ok(1) p] False by (auto simp: calls_ok_def release_def)
  qed
qed

lemma calls_ok_step:
  assumes w: "calls_ok w s0" "lock_inv w" and g: "goes w w'"
  shows "\<exists>s. calls_ok w' s"
  using g
proof cases
  case (refused t c a)
  then have "calls_ok w' s0"
    using calls_okD [OF w(1)] log_one_more [OF _ performs_early] by (auto simp: calls_ok_def)
  then show ?thesis by blast
next
  case (locked t c mu)
  have "mu_writer (sh_mu w) = None"
    using locked(4) by (auto simp: acquire_def Lock_def RLock_def split: if_splits)
  then have "calls_ok w' s0" using locked calls_okD [OF w(1)] by (auto simp: calls_ok_def)
  then show ?thesis by blast
next
  case (ran t c f f' s)
  then show ?thesis using calls_ok_ran [OF w] by blast
next
  case (unlocked t c a)
  then show ?thesis using calls_ok_unlocked [OF w] by blast
qed

lemma calls_ok_occurs: "occurs w \<Longrightarrow> \<exists>s. calls_ok w s"
proof (induction rule: occurs.induct)
  case begun
  have "calls_ok begin_state New"
    by (simp add: calls_ok_def begin_state_def sequential.none mem_inv_New)
  then show ?case by blast
next
  case (calls w t c)
  then obtain s where "calls_ok w s" by blast
  with calls.hyps have "calls_ok (w\<lparr>sh_pc := (sh_pc w)(t := Waiting c)\<rparr>) s" by (auto simp: calls_ok_def)
  then show ?case by blast
next
  case (goes w w')
  then show ?case using calls_ok_step lock_inv_occurs by blast
qed

text \<open>A method that is inside can take a step.\<close>

lemma ranged_some [simp]: "ranged go end nexts \<noteq> []"
  by (simp add: ranged_def)

lemma body_goes:
  assumes "frame_ok c f s0 s" and "early_return c = None" and "\<forall>a. f \<noteq> Return a"
  shows "body c f s \<noteq> []"
  using assms by (cases f; cases c) (auto simp: body_defs split: option.splits)

lemma inside_goes:
  assumes "calls_ok w s0" and "sh_pc w t = Inside c f"
  shows "\<exists>w'. goes w w'"
proof (cases "\<exists>a. f = Return a")
  case True
  then show ?thesis using goes.unlocked assms(2) by blast
next
  case False
  with body_goes [OF calls_okD(6,5) [OF assms]] obtain f' s where "(f', s) \<in> set (body c f (sh_mem w))"
    by (metis list.set_intros(1) neq_Nil_conv prod.exhaust)
  then show ?thesis using goes.ran [OF assms(2)] by blast
qed

lemma waiting_goes:
  assumes o: "lock_inv w" "calls_ok w s0" and t: "sh_pc w t = Waiting c"
  shows "\<exists>w'. goes w w'"
proof (cases "\<exists>t c f. sh_pc w t = Inside c f")
  case True
  then show ?thesis using inside_goes [OF o(2)] by blast
next
  case False
  then have free: "mu_writer (sh_mu w) = None" "mu_readers (sh_mu w) = {}"
    using o(1) unfolding lock_inv_def holds_def by (auto intro: classical)
  then obtain mu where "acquire c t (sh_mu w) = Some mu"
    by (cases "writes c") (simp_all add: acquire_def Lock_def RLock_def)
  then show ?thesis using goes.locked [OF t] goes.refused [OF t] by (cases "early_return c") blast+
qed

section \<open>Calls return\<close>

text \<open>
  What a method has left to do inside, at most: the entries of the maps it may still visit. Only
  a goroutine that enters can add to the work of all, and those that wait become fewer by it.
\<close>

definition unseen :: "(string, 'a) gomap \<Rightarrow> string list \<Rightarrow> nat" where
  "unseen m seen = length (filter (\<lambda>(k, p). k \<notin> set seen) (entries m))"

fun frame_work :: "memory \<Rightarrow> frame \<Rightarrow> nat" where
  "frame_work s Entry = 3 + unseen (mem_users s) [] + unseen (mem_models s) []"
| "frame_work s (RangeUsers seen acc) = 2 + unseen (mem_users s) seen"
| "frame_work s (RangeModels seen acc) = 2 + unseen (mem_models s) seen"
| "frame_work s (Return a) = 1"
| "frame_work s Panic = 1"
| "frame_work s _ = 2"

fun pc_work :: "memory \<Rightarrow> pc \<Rightarrow> nat" where
  "pc_work s (Inside c f) = frame_work s f"
| "pc_work s _ = 0"

definition busy :: "shared \<Rightarrow> nat set" where
  "busy w = {t. sh_pc w t \<noteq> Outside}"

definition queue :: "shared \<Rightarrow> nat set" where
  "queue w = {t. \<exists>c. sh_pc w t = Waiting c}"

definition work :: "shared \<Rightarrow> nat" where
  "work w = (\<Sum>t \<in> busy w. pc_work (sh_mem w) (sh_pc w t))"

lemma range_next_unseen:
  assumes "Some (seen', acc') \<in> set (range_next into keep m seen acc)"
  shows "unseen m seen' < unseen m seen"
proof -
  from assms obtain k p where kp: "(k, p) \<in> set (entries m)" "k \<notin> set seen" "seen' = seen @ [k]"
    unfolding range_next_def by (auto split: Option.bind_splits if_splits)
  have "unseen m seen' = length (filter (\<lambda>(j, q). j \<noteq> k) (filter (\<lambda>(j, q). j \<notin> set seen) (entries m)))"
    unfolding unseen_def kp(3) filter_filter by (rule arg_cong [of _ _ length], rule filter_cong) auto
  also have "\<dots> < unseen m seen"
    unfolding unseen_def by (rule length_filter_less [of "(k, p)"]) (use kp in auto)
  finally show ?thesis .
qed

lemma ranged_work:
  assumes g: "g \<in> set (ranged go end (range_next into keep m seen acc))"
    and e: "frame_work s end < n" "frame_work s Panic < n"
    and go: "\<forall>seen' acc'. unseen m seen' < unseen m seen \<longrightarrow> frame_work s (go (seen', acc')) < n"
  shows "frame_work s g < n"
proof -
  consider "g = end" | "g = Panic"
    | x where "Some x \<in> set (range_next into keep m seen acc)" "g = go x"
    using g by (auto simp: ranged_def split: if_splits option.splits)
  then show ?thesis
  proof cases
    case (3 x)
    then show ?thesis using go range_next_unseen [of "fst x" "snd x" into keep m seen acc] by (cases x) simp
  qed (use e in simp_all)
qed

lemma body_work:
  assumes "(f', s') \<in> set (body c f s)"
  shows "frame_work s' f' < frame_work s f"
  using assms
  by (cases c)
     (auto simp: body_defs split: frame.splits option.splits elim!: ranged_work)

lemma busy_finite: "occurs w \<Longrightarrow> finite (busy w)"
proof (induction rule: occurs.induct)
  case begun
  show ?case by (simp add: busy_def begin_state_def)
next
  case (calls w t c)
  have "busy (w\<lparr>sh_pc := (sh_pc w)(t := Waiting c)\<rparr>) \<subseteq> insert t (busy w)" by (auto simp: busy_def)
  then show ?case using calls.IH finite_subset by blast
next
  case (goes w w')
  from goes.hyps(2) have "busy w' \<subseteq> busy w" by cases (auto simp: busy_def split: if_splits)
  then show ?case using goes.IH finite_subset by blast
qed

lemma ran_work:
  assumes o: "lock_inv w" "finite (busy w)" and t: "sh_pc w t = Inside c f"
    and b: "(f', s) \<in> set (body c f (sh_mem w))"
  shows "work (w\<lparr>sh_mem := s, sh_pc := (sh_pc w)(t := Inside c f')\<rparr>) < work w"
proof -
  let ?w = "w\<lparr>sh_mem := s, sh_pc := (sh_pc w)(t := Inside c f')\<rparr>"
  have busy: "busy ?w = busy w" using t by (auto simp: busy_def)
  have "pc_work s (sh_pc w t') \<le> pc_work (sh_mem w) (sh_pc w t')" if "t' \<noteq> t" for t'
  proof (cases "writes c")
    case True
    with others_outside [OF o(1) t True that] show ?thesis by (cases "sh_pc w t'") auto
  next
    case False
    with body_reader [OF b] show ?thesis by simp
  qed
  then have "\<forall>t' \<in> busy w. pc_work (sh_mem ?w) (sh_pc ?w t') \<le> pc_work (sh_mem w) (sh_pc w t')"
    using body_work [OF b] t by auto
  moreover have "\<exists>t' \<in> busy w. pc_work (sh_mem ?w) (sh_pc ?w t') < pc_work (sh_mem w) (sh_pc w t')"
    using body_work [OF b] t by (intro bexI [of _ t]) (auto simp: busy_def)
  ultimately show ?thesis
    unfolding work_def busy by (rule sum_strict_mono_ex1 [OF o(2)])
qed

lemma frame_work_pos: "0 < frame_work s f"
  by (cases f) auto

lemma unlocked_work:
  assumes "finite (busy w)" and t: "sh_pc w t = Inside c f"
  shows "work (w\<lparr>sh_mu := mu, sh_pc := (sh_pc w)(t := Outside), sh_log := l\<rparr>) < work w"
proof -
  let ?w = "w\<lparr>sh_mu := mu, sh_pc := (sh_pc w)(t := Outside), sh_log := l\<rparr>"
  have busy: "busy ?w = busy w - {t}" "t \<in> busy w" using t by (auto simp: busy_def)
  have "work ?w = (\<Sum>t' \<in> busy w - {t}. pc_work (sh_mem w) (sh_pc w t'))"
    unfolding work_def busy(1) by (rule sum.cong) auto
  then show ?thesis
    using sum.remove [OF assms(1) busy(2), of "\<lambda>t'. pc_work (sh_mem w) (sh_pc w t')"] t frame_work_pos
    by (simp add: work_def)
qed

lemma queue_finite: "finite (busy w) \<Longrightarrow> finite (queue w)"
  by (rule finite_subset [of _ "busy w"]) (auto simp: queue_def busy_def)

lemma goes_measure:
  assumes "lock_inv w" and "finite (busy w)" and "goes w w'"
  shows "card (queue w') < card (queue w) \<or> card (queue w') = card (queue w) \<and> work w' < work w"
  using assms(3)
proof cases
  case (refused t c a)
  then have "queue w' = queue w - {t}" "t \<in> queue w" by (auto simp: queue_def)
  then show ?thesis using card_Diff1_less [OF queue_finite [OF assms(2)]] by simp
next
  case (locked t c mu)
  then have "queue w' = queue w - {t}" "t \<in> queue w" by (auto simp: queue_def)
  then show ?thesis using card_Diff1_less [OF queue_finite [OF assms(2)]] by simp
next
  case (ran t c f f' s)
  then have "queue w' = queue w" by (auto simp: queue_def)
  then show ?thesis using ran_work [OF assms(1,2) ran(2,3)] ran(1) by simp
next
  case (unlocked t c a)
  then have "queue w' = queue w" by (auto simp: queue_def)
  then show ?thesis using unlocked_work [OF assms(2) unlocked(2)] unlocked(1) by simp
qed

lemma goes_wf: "wf {(w', w). occurs w \<and> goes w w'}"
proof (rule wf_subset)
  show "wf (measures [\<lambda>w. card (queue w), work])" by simp
  show "{(w', w). occurs w \<and> goes w w'} \<subseteq> measures [\<lambda>w. card (queue w), work]"
    using goes_measure lock_inv_occurs busy_finite by fastforce
qed

lemma stuck_outside:
  assumes "occurs w" and "\<nexists>w'. goes w w'"
  shows "sh_pc w t = Outside"
  using calls_ok_occurs [OF assms(1)] lock_inv_occurs [OF assms(1)] inside_goes waiting_goes assms(2)
  by (cases "sh_pc w t") blast+

section \<open>Races\<close>

text \<open>Two goroutines whose next steps touch one map, one of them writing.\<close>

definition races :: "shared \<Rightarrow> bool" where
  "races w \<longleftrightarrow> (\<exists>t t' c c' f f' m. t \<noteq> t' \<and> sh_pc w t = Inside c f \<and> sh_pc w t' = Inside c' f'
     \<and> writes_next c f = Some m \<and> (reads_next c' f' = Some m \<or> writes_next c' f' = Some m))"

lemma writes_next_writes: "writes_next c f = Some m \<Longrightarrow> writes c"
  by (cases "(c, f)" rule: writes_next.cases) auto

lemma no_race: "lock_inv w \<Longrightarrow> \<not> races w"
  unfolding races_def by (metis others_outside writes_next_writes)

end
