(* ===== verification/LockingProperties.thy ===== *)
theory LockingProperties
  imports Demo Locking
begin

text \<open>
  The properties of the memory store under concurrent calls, and an interleaving on which they
  apply.
\<close>

section \<open>An interleaving\<close>

text \<open>
  Goroutine 0 syncs a user; while 1 lists the users inside the lock, 2 waits to delete one.
\<close>

definition moment ::
    "nat set \<Rightarrow> nat option \<Rightarrow> memory \<Rightarrow> (nat \<Rightarrow> pc) \<Rightarrow> (nat \<times> call \<times> answer) list \<Rightarrow> shared" where
  "moment rs wr s p l = \<lparr>sh_mu = \<lparr>mu_readers = rs, mu_writer = wr\<rparr>, sh_mem = s, sh_pc = p, sh_log = l\<rparr>"

lemma moment_begin: "begin_state = moment {} None New (\<lambda>_. Outside) []"
  by (simp add: begin_state_def moment_def)

lemma moment_call:
  "occurs (moment rs wr s p l) \<Longrightarrow> p t = Outside \<Longrightarrow> call_wf c \<Longrightarrow> occurs (moment rs wr s (p(t := Waiting c)) l)"
  using occurs.calls [of "moment rs wr s p l" t c] by (simp add: moment_def)

lemma moment_read:
  "occurs (moment rs None s p l) \<Longrightarrow> p t = Waiting c \<Longrightarrow> early_return c = None \<Longrightarrow> \<not> writes c \<Longrightarrow>
     occurs (moment (insert t rs) None s (p(t := Inside c Entry)) l)"
  using occurs.goes [OF _ goes.locked [of "moment rs None s p l" t c]]
  by (simp add: moment_def acquire_def RLock_def)

lemma moment_write:
  "occurs (moment {} None s p l) \<Longrightarrow> p t = Waiting c \<Longrightarrow> early_return c = None \<Longrightarrow> writes c \<Longrightarrow>
     occurs (moment {} (Some t) s (p(t := Inside c Entry)) l)"
  using occurs.goes [OF _ goes.locked [of "moment {} None s p l" t c]]
  by (simp add: moment_def acquire_def Lock_def)

lemma moment_ran:
  "occurs (moment rs wr s p l) \<Longrightarrow> p t = Inside c f \<Longrightarrow> (f', s') \<in> set (body c f s) \<Longrightarrow>
     occurs (moment rs wr s' (p(t := Inside c f')) l)"
  using occurs.goes [OF _ goes.ran [of "moment rs wr s p l" t c f f' s']] by (simp add: moment_def)

lemma moment_wrote:
  "occurs (moment rs wr s p l) \<Longrightarrow> p t = Inside c (Return a) \<Longrightarrow> writes c \<Longrightarrow>
     occurs (moment rs None s (p(t := Outside)) (l @ [(t, c, a)]))"
  using occurs.goes [OF _ goes.unlocked [of "moment rs wr s p l" t c a]] by (simp add: moment_def release_def)

lemma demo_synced:
  "occurs (moment {} None alice_store (\<lambda>_. Outside) [(0, CSyncUser (Some alice), AError None)])"
proof -
  let ?c = "CSyncUser (Some alice)"
  let ?p = "\<lambda>x. (\<lambda>_. Outside)(0 := x)"
  have "occurs (moment {} None New (\<lambda>_. Outside) [])" using occurs.begun by (simp add: moment_begin)
  from moment_call [OF this, where t = 0 and c = ?c] have "occurs (moment {} None New (?p (Waiting ?c)) [])"
    by (simp add: good_user_wf)
  from moment_write [OF this, where t = 0 and c = ?c] have "occurs (moment {} (Some 0) New (?p (Inside ?c Entry)) [])"
    by simp
  from moment_ran [OF this, where t = 0 and c = ?c and f' = "CopiedUser (Some alice)" and s' = New]
  have "occurs (moment {} (Some 0) New (?p (Inside ?c (CopiedUser (Some alice)))) [])"
    by (simp add: body_defs good_user_wf)
  from moment_ran [OF this, where t = 0 and c = ?c and f' = "Return (AError None)" and s' = alice_store]
  have "occurs (moment {} (Some 0) alice_store (?p (Inside ?c (Return (AError None)))) [])"
    by (simp add: body_defs New_def gmake_def alice_store_def)
  from moment_wrote [OF this, where t = 0 and c = ?c and a = "AError None"] show ?thesis by (simp add: fun_upd_idem)
qed

definition demo_moment :: shared where
  "demo_moment = moment {1} None alice_store
     ((\<lambda>_. Outside)(1 := Inside CListUsers (RangeUsers [''alice''] [alice]), 2 := Waiting (CDeleteUser ''alice'')))
     [(0, CSyncUser (Some alice), AError None)]"

lemma demo_moment_occurs: "occurs demo_moment"
proof -
  let ?l = "[(0::nat, CSyncUser (Some alice), AError None)]"
  let ?p = "\<lambda>x. (\<lambda>_. Outside)(1 := x)"
  let ?q = "\<lambda>x. (?p x)(2 := Waiting (CDeleteUser ''alice''))"
  from moment_call [OF demo_synced, where t = 1 and c = CListUsers]
  have "occurs (moment {} None alice_store (?p (Waiting CListUsers)) ?l)" by simp
  from moment_read [OF this, where t = 1 and c = CListUsers]
  have "occurs (moment {1} None alice_store (?p (Inside CListUsers Entry)) ?l)" by simp
  from moment_ran [OF this, where t = 1 and c = CListUsers and f' = "RangeUsers [] []" and s' = alice_store]
  have "occurs (moment {1} None alice_store (?p (Inside CListUsers (RangeUsers [] []))) ?l)"
    by (simp add: body_defs)
  from moment_call [OF this, where t = 2 and c = "CDeleteUser ''alice''"]
  have "occurs (moment {1} None alice_store (?q (Inside CListUsers (RangeUsers [] []))) ?l)" by simp
  from moment_ran [OF this, where t = 1 and c = CListUsers and f' = "RangeUsers [''alice''] [alice]" and s' = alice_store]
  have "occurs (moment {1} None alice_store (?q (Inside CListUsers (RangeUsers [''alice''] [alice]))) ?l)"
    by (simp add: body_defs alice_store_def range_next_def ranged_def good_user_wf fun_upd_twist)
  then show ?thesis by (simp add: demo_moment_def)
qed

section \<open>The properties\<close>

text \<open>
  C18. However calls of the memory store interleave, no goroutine writes one of its maps while
  another reads or writes that map.
\<close>

theorem store_race_free:
  assumes "occurs w"
  shows "\<not> races w"
  using no_race [OF lock_inv_occurs [OF assms]] .

lemma store_race_free_witness: "\<not> races demo_moment"
  by (rule store_race_free [OF demo_moment_occurs])

text \<open>
  C16. However calls of the memory store interleave, step by step, none panics, and the answers of
  the calls that are over are those of the calls made one at a time, in the order in which they
  released the lock; so is the store when no writer is inside.
\<close>

theorem store_calls_atomic:
  assumes "occurs w"
  shows "(\<exists>s. sequential (sh_log w) s \<and> mem_inv s \<and> (mu_writer (sh_mu w) = None \<longrightarrow> sh_mem w = s))
     \<and> (\<forall>t c. sh_pc w t \<noteq> Inside c Panic)"
proof -
  from calls_ok_occurs [OF assms] obtain s where ok: "calls_ok w s" ..
  have "sh_pc w t \<noteq> Inside c Panic" for t c
  proof
    assume "sh_pc w t = Inside c Panic"
    from calls_okD(6) [OF ok this] show False by simp
  qed
  with calls_okD(1,2,3) [OF ok] show ?thesis by (intro conjI exI [of _ s]) simp_all
qed

lemma store_calls_atomic_witness:
  "sequential [(0, CSyncUser (Some alice), AError None)] alice_store"
  using store_calls_atomic [OF demo_moment_occurs] by (simp add: demo_moment_def moment_def)

text \<open>
  C19. Every call returns: without new calls, the steps of the goroutines come to an end, in
  whatever order they are taken, and end only when all calls are over.
\<close>

theorem store_calls_return:
  "wf {(w', w). occurs w \<and> goes w w'}
   \<and> (\<forall>w. occurs w \<longrightarrow> (\<nexists>w'. goes w w') \<longrightarrow> (\<forall>t. sh_pc w t = Outside))"
  using goes_wf stuck_outside by blast

lemma store_calls_return_witness: "\<exists>w'. goes demo_moment w'"
proof (rule ccontr)
  assume "\<nexists>w'. goes demo_moment w'"
  then have "sh_pc demo_moment 2 = Outside"
    using store_calls_return [THEN conjunct2, rule_format, OF demo_moment_occurs] by blast
  then show False by (simp add: demo_moment_def moment_def)
qed

end
