(* ===== verification/Aliasing.thy ===== *)
theory Aliasing
  imports MemoryStore
begin

text \<open>
  Deep copies on a heap: structs, maps and arrays are cells with addresses, and a copy is deep
  when it shares no cell with the original. The other theories take specs as values; this one
  shows that the store's copies make that right, whatever its callers do with the pointers they
  hold.
\<close>

section \<open>The heap\<close>

type_synonym addr = nat

text \<open>A slice is nil or a part of an array: where it starts and how long it is.\<close>

datatype hslice = HNil | HSlice addr nat nat

record huser =
  hu_Id :: string
  hu_Attributes :: "addr option"

record hmodel =
  hm_Id :: string
  hm_Type :: string
  hm_BaseModelId :: string
  hm_UserAttributes :: "addr option"
  hm_KeyWords :: hslice
  hm_Descriptions :: hslice

datatype cell =
    UserCell huser | ModelCell hmodel
  | StringMap "(string \<times> string) list" | SliceMap "(string \<times> hslice) list"
  | StringArray "string list"

record heap =
  hp_cells :: "addr \<rightharpoonup> cell"
  hp_next :: addr

definition new_cell :: "cell \<Rightarrow> heap \<Rightarrow> addr \<times> heap" where
  "new_cell c h = (hp_next h, \<lparr>hp_cells = (hp_cells h)(hp_next h \<mapsto> c), hp_next = Suc (hp_next h)\<rparr>)"

definition put_cell :: "addr \<Rightarrow> cell \<Rightarrow> heap \<Rightarrow> heap" where
  "put_cell a c h = h\<lparr>hp_cells := (hp_cells h)(a \<mapsto> c)\<rparr>"

fun string_map :: "cell option \<Rightarrow> (string \<times> string) list outcome" where
  "string_map (Some (StringMap m)) = Some m"
| "string_map _ = None"

fun slice_map :: "cell option \<Rightarrow> (string \<times> hslice) list outcome" where
  "slice_map (Some (SliceMap m)) = Some m"
| "slice_map _ = None"

fun string_array :: "cell option \<Rightarrow> string list outcome" where
  "string_array (Some (StringArray xs)) = Some xs"
| "string_array _ = None"

fun_cases string_mapE: "string_map c = Some m"
  and string_arrayE: "string_array c = Some xs"

fun user_cell :: "cell \<Rightarrow> huser option" where
  "user_cell (UserCell x) = Some x"
| "user_cell _ = None"

fun model_cell :: "cell \<Rightarrow> hmodel option" where
  "model_cell (ModelCell x) = Some x"
| "model_cell _ = None"

section \<open>The generated copies\<close>

text \<open>The loop that fills the new map from the entries of the old one.\<close>

primrec range_strings :: "(string \<times> string) list \<Rightarrow> addr \<Rightarrow> heap \<Rightarrow> heap outcome" where
  "range_strings [] out h = Some h"
| "range_strings (kv # kvs) out h =
     do { m \<leftarrow> string_map (hp_cells h out);
          range_strings kvs out (put_cell out (StringMap (AList.update (fst kv) (snd kv) m)) h) }"

definition hUserSpec_DeepCopyInto :: "huser \<Rightarrow> heap \<Rightarrow> (huser \<times> heap) outcome" where
  "hUserSpec_DeepCopyInto u h =
     (case hu_Attributes u of
        None \<Rightarrow> Some (u, h)
      | Some a \<Rightarrow>
          do { m \<leftarrow> string_map (hp_cells h a);
               let (out, h1) = new_cell (StringMap []) h;
               h2 \<leftarrow> range_strings m out h1;
               Some (u\<lparr>hu_Attributes := Some out\<rparr>, h2) })"

text \<open>A new array with the elements of a slice that is not nil.\<close>

definition dup_hslice :: "hslice \<Rightarrow> heap \<Rightarrow> (hslice \<times> heap) outcome" where
  "dup_hslice s h =
     (case s of
        HNil \<Rightarrow> Some (HNil, h)
      | HSlice a off n \<Rightarrow>
          do { xs \<leftarrow> string_array (hp_cells h a);
               if length xs < off + n then None
               else (let (out, h1) = new_cell (StringArray (replicate n [])) h in
                     Some (HSlice out 0 n, put_cell out (StringArray (take n (drop off xs))) h1)) })"

primrec range_slices :: "(string \<times> hslice) list \<Rightarrow> addr \<Rightarrow> heap \<Rightarrow> heap outcome" where
  "range_slices [] out h = Some h"
| "range_slices (kv # kvs) out h =
     do { (outVal, h1) \<leftarrow> dup_hslice (snd kv) h;
          m \<leftarrow> slice_map (hp_cells h1 out);
          range_slices kvs out (put_cell out (SliceMap (AList.update (fst kv) outVal m)) h1) }"

definition hModelAccessPolicy_DeepCopyInto :: "addr option \<Rightarrow> heap \<Rightarrow> (addr option \<times> heap) outcome" where
  "hModelAccessPolicy_DeepCopyInto attrs h =
     (case attrs of
        None \<Rightarrow> Some (None, h)
      | Some a \<Rightarrow>
          do { m \<leftarrow> slice_map (hp_cells h a);
               let (out, h1) = new_cell (SliceMap []) h;
               h2 \<leftarrow> range_slices m out h1;
               Some (Some out, h2) })"

definition hModelSpec_DeepCopyInto :: "hmodel \<Rightarrow> heap \<Rightarrow> (hmodel \<times> heap) outcome" where
  "hModelSpec_DeepCopyInto m h =
     do { (attrs, h1) \<leftarrow> hModelAccessPolicy_DeepCopyInto (hm_UserAttributes m) h;
          (kw, h2) \<leftarrow> dup_hslice (hm_KeyWords m) h1;
          (ds, h3) \<leftarrow> dup_hslice (hm_Descriptions m) h2;
          Some (m\<lparr>hm_UserAttributes := attrs, hm_KeyWords := kw, hm_Descriptions := ds\<rparr>, h3) }"

section \<open>What a struct stands for\<close>

definition hslice_val :: "heap \<Rightarrow> hslice \<Rightarrow> string slice option" where
  "hslice_val h s =
     (case s of
        HNil \<Rightarrow> Some NilSlice
      | HSlice a off n \<Rightarrow>
          do { xs \<leftarrow> string_array (hp_cells h a);
               if length xs < off + n then None else Some (Slice (take n (drop off xs))) })"

primrec slices_val :: "heap \<Rightarrow> (string \<times> hslice) list \<Rightarrow> (string \<times> string slice) list option" where
  "slices_val h [] = Some []"
| "slices_val h (kv # kvs) =
     do { v \<leftarrow> hslice_val h (snd kv); vs \<leftarrow> slices_val h kvs; Some ((fst kv, v) # vs) }"

definition user_val :: "heap \<Rightarrow> huser \<Rightarrow> UserSpec option" where
  "user_val h u =
     map_option (\<lambda>m. \<lparr>u_Id = hu_Id u, u_Attributes = m\<rparr>)
       (case hu_Attributes u of None \<Rightarrow> Some NilMap | Some a \<Rightarrow> map_option GoMap (string_map (hp_cells h a)))"

definition attrs_val :: "heap \<Rightarrow> addr option \<Rightarrow> (string, string slice) gomap option" where
  "attrs_val h p =
     (case p of None \<Rightarrow> Some NilMap
      | Some a \<Rightarrow> do { m \<leftarrow> slice_map (hp_cells h a); vs \<leftarrow> slices_val h m; Some (GoMap vs) })"

definition model_val :: "heap \<Rightarrow> hmodel \<Rightarrow> ModelSpec option" where
  "model_val h m =
     do { attrs \<leftarrow> attrs_val h (hm_UserAttributes m);
          kw \<leftarrow> hslice_val h (hm_KeyWords m);
          ds \<leftarrow> hslice_val h (hm_Descriptions m);
          Some \<lparr>m_Id = hm_Id m, m_Type = hm_Type m, m_BaseModelId = hm_BaseModelId m,
                m_AccessPolicy = \<lparr>ap_UserAttributes = attrs\<rparr>,
                m_SelectionPolicy = \<lparr>sp_KeyWords = kw, sp_Descriptions = ds\<rparr>\<rparr> }"

text \<open>The cells it reaches.\<close>

primrec hslice_refs :: "hslice \<Rightarrow> addr set" where
  "hslice_refs HNil = {}"
| "hslice_refs (HSlice a off n) = {a}"

definition slices_refs :: "(string \<times> hslice) list \<Rightarrow> addr set" where
  "slices_refs m = (\<Union>kv \<in> set m. hslice_refs (snd kv))"

definition user_refs :: "heap \<Rightarrow> huser \<Rightarrow> addr set" where
  "user_refs h u = set_option (hu_Attributes u)"

definition attrs_refs :: "heap \<Rightarrow> addr option \<Rightarrow> addr set" where
  "attrs_refs h p =
     (case p of None \<Rightarrow> {}
      | Some a \<Rightarrow> insert a (case slice_map (hp_cells h a) of None \<Rightarrow> {} | Some m \<Rightarrow> slices_refs m))"

definition model_refs :: "heap \<Rightarrow> hmodel \<Rightarrow> addr set" where
  "model_refs h m =
     attrs_refs h (hm_UserAttributes m) \<union> hslice_refs (hm_KeyWords m) \<union> hslice_refs (hm_Descriptions m)"

section \<open>Heaps that agree, and heaps that grow\<close>

definition same_on :: "addr set \<Rightarrow> heap \<Rightarrow> heap \<Rightarrow> bool" where
  "same_on A h h' \<longleftrightarrow> (\<forall>a \<in> A. hp_cells h' a = hp_cells h a)"

definition heap_ok :: "heap \<Rightarrow> bool" where
  "heap_ok h \<longleftrightarrow> (\<forall>a. hp_cells h a \<noteq> None \<longrightarrow> a < hp_next h)"

definition extends :: "heap \<Rightarrow> heap \<Rightarrow> bool" where
  "extends h h' \<longleftrightarrow> hp_next h \<le> hp_next h' \<and> same_on {..<hp_next h} h h'"

definition new_cells :: "heap \<Rightarrow> heap \<Rightarrow> addr set" where
  "new_cells h h' = {hp_next h..<hp_next h'}"

lemma same_on_subset: "same_on B h h' \<Longrightarrow> A \<subseteq> B \<Longrightarrow> same_on A h h'"
  by (auto simp: same_on_def)

lemma extends_refl [simp]: "extends h h"
  by (simp add: extends_def same_on_def)

lemma extends_trans: "extends h h1 \<Longrightarrow> extends h1 h2 \<Longrightarrow> extends h h2"
  by (auto simp: extends_def same_on_def)

lemma new_cells_mono: "extends h h1 \<Longrightarrow> extends h1 h2 \<Longrightarrow> new_cells h h1 \<union> new_cells h1 h2 \<subseteq> new_cells h h2"
  by (auto simp: new_cells_def extends_def)

lemma new_cell_facts:
  assumes "new_cell c h = (a, h1)" and "heap_ok h"
  shows "extends h h1" "heap_ok h1" "a = hp_next h" "hp_next h1 = Suc a" "hp_cells h1 a = Some c"
  using assms by (auto simp: new_cell_def extends_def same_on_def heap_ok_def less_Suc_eq split: if_splits)

lemma put_cell_facts:
  assumes "extends h h1" and "a \<in> new_cells h h1" and "heap_ok h1"
  shows "extends h (put_cell a c h1)" "heap_ok (put_cell a c h1)"
    "hp_next (put_cell a c h1) = hp_next h1" "hp_cells (put_cell a c h1) = (hp_cells h1)(a \<mapsto> c)"
  using assms by (auto simp: put_cell_def extends_def same_on_def heap_ok_def new_cells_def)

lemma same_onD: "same_on A h h' \<Longrightarrow> a \<in> A \<Longrightarrow> hp_cells h' a = hp_cells h a"
  by (simp add: same_on_def)

lemma extends_same: "extends h h' \<Longrightarrow> A \<subseteq> {..<hp_next h} \<Longrightarrow> same_on A h h'"
  unfolding extends_def using same_on_subset by blast

text \<open>What a struct stands for depends only on the cells it reaches, which are cells of the heap.\<close>

lemma hslice_frame: "same_on (hslice_refs s) h h' \<Longrightarrow> hslice_val h' s = hslice_val h s"
  by (cases s) (simp_all add: hslice_val_def same_on_def)

lemma slices_frame: "same_on (slices_refs m) h h' \<Longrightarrow> slices_val h' m = slices_val h m"
proof (induction m)
  case (Cons kv m)
  have "same_on (hslice_refs (snd kv)) h h'" "same_on (slices_refs m) h h'"
    by (rule same_on_subset [OF Cons.prems], simp add: slices_refs_def)+
  then show ?case using Cons.IH hslice_frame by simp
qed simp

lemma user_frame:
  assumes "same_on (user_refs h u) h h'"
  shows "user_val h' u = user_val h u" "user_refs h' u = user_refs h u"
  using assms by (auto simp: user_val_def user_refs_def same_on_def split: option.splits)

lemma attrs_frame:
  assumes "same_on (attrs_refs h p) h h'"
  shows "attrs_val h' p = attrs_val h p" "attrs_refs h' p = attrs_refs h p"
proof -
  show "attrs_refs h' p = attrs_refs h p"
    using assms by (auto simp: attrs_refs_def same_on_def split: option.splits)
  show "attrs_val h' p = attrs_val h p"
  proof (cases p)
    case (Some a)
    with assms have a: "hp_cells h' a = hp_cells h a" by (simp add: attrs_refs_def same_on_def)
    show ?thesis
    proof (cases "slice_map (hp_cells h a)")
      case (Some m)
      then have "same_on (slices_refs m) h h'"
        by (intro same_on_subset [OF assms]) (auto simp: attrs_refs_def \<open>p = Some a\<close>)
      then show ?thesis using a Some \<open>p = Some a\<close> slices_frame by (simp add: attrs_val_def)
    qed (simp add: attrs_val_def a \<open>p = Some a\<close>)
  qed (simp add: attrs_val_def)
qed

lemma model_frame:
  assumes "same_on (model_refs h m) h h'"
  shows "model_val h' m = model_val h m" "model_refs h' m = model_refs h m"
proof -
  have s: "same_on (attrs_refs h (hm_UserAttributes m)) h h'" "same_on (hslice_refs (hm_KeyWords m)) h h'"
    "same_on (hslice_refs (hm_Descriptions m)) h h'"
    by (rule same_on_subset [OF assms], auto simp: model_refs_def)+
  show "model_val h' m = model_val h m" "model_refs h' m = model_refs h m"
    using attrs_frame [OF s(1)] hslice_frame [OF s(2)] hslice_frame [OF s(3)]
    by (simp_all add: model_val_def model_refs_def)
qed

lemma hslice_bounded: "heap_ok h \<Longrightarrow> hslice_val h s = Some v \<Longrightarrow> hslice_refs s \<subseteq> {..<hp_next h}"
  by (cases s) (auto simp: hslice_val_def heap_ok_def split: Option.bind_splits if_splits elim!: string_arrayE)

lemma slices_bounded: "heap_ok h \<Longrightarrow> slices_val h m = Some vs \<Longrightarrow> slices_refs m \<subseteq> {..<hp_next h}"
  by (induction m arbitrary: vs)
     (auto simp: slices_refs_def split: Option.bind_splits dest: hslice_bounded)

lemma user_bounded: "heap_ok h \<Longrightarrow> user_val h u = Some v \<Longrightarrow> user_refs h u \<subseteq> {..<hp_next h}"
  by (auto simp: user_val_def user_refs_def heap_ok_def split: option.splits elim!: string_mapE)

lemma attrs_bounded:
  assumes ok: "heap_ok h" and v: "attrs_val h p = Some v"
  shows "attrs_refs h p \<subseteq> {..<hp_next h}"
proof (cases p)
  case (Some a)
  with v obtain m vs where m: "slice_map (hp_cells h a) = Some m" "slices_val h m = Some vs"
    by (auto simp: attrs_val_def split: Option.bind_splits)
  then have "hp_cells h a \<noteq> None" by (cases "hp_cells h a") simp_all
  then have "a < hp_next h" using ok by (simp add: heap_ok_def)
  then show ?thesis using slices_bounded [OF ok m(2)] m(1) Some by (simp add: attrs_refs_def)
qed (simp add: attrs_refs_def)

lemma model_bounded:
  assumes "heap_ok h" and "model_val h m = Some v"
  shows "model_refs h m \<subseteq> {..<hp_next h}"
proof -
  from assms(2) obtain va vk vd where "attrs_val h (hm_UserAttributes m) = Some va"
      "hslice_val h (hm_KeyWords m) = Some vk" "hslice_val h (hm_Descriptions m) = Some vd"
    by (auto simp: model_val_def split: Option.bind_splits)
  then show ?thesis
    using attrs_bounded hslice_bounded assms(1) unfolding model_refs_def by blast
qed

section \<open>The copies are deep\<close>

text \<open>A new array; the map that is filled with new arrays.\<close>

lemma dup_hslice_deep:
  assumes ok: "heap_ok h" and v: "hslice_val h s = Some v"
  shows "\<exists>s' h'. dup_hslice s h = Some (s', h') \<and> hslice_val h' s' = Some v \<and> extends h h' \<and> heap_ok h'
     \<and> hslice_refs s' \<subseteq> new_cells h h'"
proof (cases s)
  case HNil
  then show ?thesis using assms by (simp add: dup_hslice_def hslice_val_def)
next
  case (HSlice a off n)
  with v obtain xs where xs: "string_array (hp_cells h a) = Some xs" "\<not> length xs < off + n"
      "v = Slice (take n (drop off xs))"
    by (auto simp: hslice_val_def split: Option.bind_splits if_splits)
  obtain out h1 where new: "new_cell (StringArray (replicate n [])) h = (out, h1)" by force
  note n = new_cell_facts [OF new ok]
  have out: "out \<in> new_cells h h1" using n(3,4) by (simp add: new_cells_def)
  note p = put_cell_facts [OF n(1) out n(2), of "StringArray (take n (drop off xs))"]
  show ?thesis
    using xs new p out by (simp add: HSlice dup_hslice_def hslice_val_def new_cells_def)
qed

lemma update_new: "k \<notin> fst ` set al \<Longrightarrow> AList.update k v al = al @ [(k, v)]"
  by (induction al) auto

lemma range_strings_fills:
  "hp_cells h out = Some (StringMap m) \<Longrightarrow> distinct (map fst (m @ kvs)) \<Longrightarrow>
     \<exists>h'. range_strings kvs out h = Some h' \<and> hp_next h' = hp_next h
       \<and> hp_cells h' = (hp_cells h)(out \<mapsto> StringMap (m @ kvs))"
proof (induction kvs arbitrary: m h)
  case Nil
  then show ?case by (simp add: fun_upd_idem)
next
  case (Cons kv kvs)
  obtain k v where [simp]: "kv = (k, v)" by (cases kv)
  let ?h = "put_cell out (StringMap (m @ [(k, v)])) h"
  from Cons.prems(2) have "k \<notin> fst ` set m" by auto
  moreover from Cons.IH [of ?h "m @ [(k, v)]"] Cons.prems(2) obtain h' where
      "range_strings kvs out ?h = Some h'" "hp_next h' = hp_next ?h"
      "hp_cells h' = (hp_cells ?h)(out \<mapsto> StringMap ((m @ [(k, v)]) @ kvs))"
    by (auto simp: put_cell_def fun_eq_iff)
  ultimately show ?case using Cons.prems(1) by (simp add: update_new put_cell_def fun_eq_iff)
qed

lemma user_copy_deep:
  assumes ok: "heap_ok h" and v: "user_val h u = Some v" and w: "wf_user v"
  shows "\<exists>u' h'. hUserSpec_DeepCopyInto u h = Some (u', h') \<and> user_val h' u' = Some v \<and> extends h h'
     \<and> heap_ok h' \<and> user_refs h' u' \<subseteq> new_cells h h'"
proof (cases "hu_Attributes u")
  case None
  then show ?thesis using assms by (simp add: hUserSpec_DeepCopyInto_def user_refs_def)
next
  case (Some a)
  with v obtain m where m: "string_map (hp_cells h a) = Some m"
      and v': "v = \<lparr>u_Id = hu_Id u, u_Attributes = GoMap m\<rparr>" by (auto simp: user_val_def)
  from w have d: "distinct (map fst ([] @ m))" by (simp add: v' wf_user_def gwf_def)
  obtain out h1 where new: "new_cell (StringMap []) h = (out, h1)" by force
  note n = new_cell_facts [OF new ok]
  from range_strings_fills [OF n(5) d] obtain h2 where h2: "range_strings m out h1 = Some h2"
      "hp_next h2 = hp_next h1" "hp_cells h2 = (hp_cells h1)(out \<mapsto> StringMap m)" by auto
  then have eq: "put_cell out (StringMap m) h1 = h2" by (simp add: put_cell_def)
  have out: "out \<in> new_cells h h1" using n(3,4) by (simp add: new_cells_def)
  show ?thesis
    using put_cell_facts [OF n(1) out n(2), of "StringMap m"] m h2 new v' out
    unfolding eq by (simp add: Some hUserSpec_DeepCopyInto_def user_val_def user_refs_def new_cells_def)
qed

lemma slices_val_append:
  "slices_val h (m @ m') = do { vs \<leftarrow> slices_val h m; vs' \<leftarrow> slices_val h m'; Some (vs @ vs') }"
  by (induction m) (auto split: Option.bind_splits)

lemma slices_val_keys: "slices_val h m = Some vs \<Longrightarrow> map fst vs = map fst m"
  by (induction m arbitrary: vs) (auto split: Option.bind_splits)

text \<open>
  The loop over the slices: \<open>h0\<close> is the heap when the copy began, \<open>out\<close> the new map, filled with
  the copies \<open>m\<close> so far.
\<close>

lemma range_slices_fills:
  assumes "extends h0 h" and "heap_ok h" and "heap_ok h0" and "hp_cells h out = Some (SliceMap m)"
    and "out \<in> new_cells h0 h" and "slices_refs m \<subseteq> new_cells h0 h - {out}" and "slices_val h m = Some vm"
    and "slices_val h0 kvs = Some vk" and "distinct (map fst (vm @ vk))"
  shows "\<exists>h' m'. range_slices kvs out h = Some h' \<and> extends h0 h' \<and> heap_ok h'
     \<and> hp_cells h' out = Some (SliceMap m') \<and> slices_val h' m' = Some (vm @ vk)
     \<and> slices_refs m' \<subseteq> new_cells h0 h' \<and> out \<in> new_cells h0 h'"
  using assms
proof (induction kvs arbitrary: m h vm vk)
  case Nil
  then show ?case by auto
next
  case (Cons kv kvs)
  obtain k s where [simp]: "kv = (k, s)" by (cases kv)
  from Cons.prems(8) obtain v vs where v: "hslice_val h0 s = Some v" and vs: "slices_val h0 kvs = Some vs"
      and vk: "vk = (k, v) # vs" by (auto split: Option.bind_splits)
  have "hslice_val h s = Some v"
    using hslice_frame [OF extends_same [OF Cons.prems(1) hslice_bounded [OF Cons.prems(3) v]]] v by simp
  from dup_hslice_deep [OF Cons.prems(2) this] obtain s' h1 where dup: "dup_hslice s h = Some (s', h1)"
      "hslice_val h1 s' = Some v" "extends h h1" "heap_ok h1" "hslice_refs s' \<subseteq> new_cells h h1" by blast
  have ext: "extends h0 h1" by (rule extends_trans [OF Cons.prems(1) dup(3)])
  have out1: "hp_cells h1 out = Some (SliceMap m)" "out \<in> new_cells h0 h1"
    using dup(3) Cons.prems(4,5) by (auto simp: extends_def same_on_def new_cells_def)
  let ?m = "m @ [(k, s')]"
  let ?h = "put_cell out (SliceMap ?m) h1"
  note p = put_cell_facts [OF ext out1(2) dup(4), of "SliceMap ?m"]
  have refs: "slices_refs ?m \<subseteq> new_cells h0 ?h - {out}"
    using Cons.prems(5,6) dup(3,5) Cons.prems(1) by (auto simp: slices_refs_def new_cells_def extends_def p(3))
  have "slices_refs m \<subseteq> {..<hp_next h}" using Cons.prems(6) by (auto simp: new_cells_def)
  then have "slices_val h1 m = Some vm"
    using slices_frame [OF extends_same [OF dup(3)]] Cons.prems(7) by simp
  then have "slices_val h1 ?m = Some (vm @ [(k, v)])" using dup(2) by (simp add: slices_val_append)
  moreover have "same_on (slices_refs ?m) h1 ?h"
    using refs by (auto simp: same_on_def p(4))
  ultimately have val: "slices_val ?h ?m = Some (vm @ [(k, v)])" using slices_frame by metis
  have "k \<notin> fst ` set m"
    using Cons.prems(9) slices_val_keys [OF Cons.prems(7)] vk by (metis disjoint_iff distinct_append image_set list.set_intros(1) list.simps(9) map_append fst_conv)
  moreover have "\<exists>h' m'. range_slices kvs out ?h = Some h' \<and> extends h0 h' \<and> heap_ok h'
     \<and> hp_cells h' out = Some (SliceMap m') \<and> slices_val h' m' = Some ((vm @ [(k, v)]) @ vs)
     \<and> slices_refs m' \<subseteq> new_cells h0 h' \<and> out \<in> new_cells h0 h'"
    by (rule Cons.IH [OF p(1,2) Cons.prems(3) _ _ refs val vs])
       (use out1(2) Cons.prems(9) vk in \<open>simp_all add: p new_cells_def\<close>)
  ultimately show ?case by (simp add: dup(1) out1(1) update_new vk)
qed

lemma attrs_copy_deep:
  assumes ok: "heap_ok h" and v: "attrs_val h p = Some v" and w: "gwf v"
  shows "\<exists>p' h'. hModelAccessPolicy_DeepCopyInto p h = Some (p', h') \<and> attrs_val h' p' = Some v \<and> extends h h'
     \<and> heap_ok h' \<and> attrs_refs h' p' \<subseteq> new_cells h h'"
proof (cases p)
  case None
  then show ?thesis using assms by (simp add: hModelAccessPolicy_DeepCopyInto_def attrs_refs_def attrs_val_def)
next
  case (Some a)
  with v obtain m vs where m: "slice_map (hp_cells h a) = Some m" "slices_val h m = Some vs" and v': "v = GoMap vs"
    by (auto simp: attrs_val_def split: Option.bind_splits)
  from w have d: "distinct (map fst ([] @ vs))" by (simp add: v' gwf_def)
  obtain out h1 where new: "new_cell (SliceMap []) h = (out, h1)" by force
  note n = new_cell_facts [OF new ok]
  have "out \<in> new_cells h h1" using n(3,4) by (simp add: new_cells_def)
  from range_slices_fills [OF n(1,2) ok n(5) this _ _ m(2) d] obtain h' m' where
      h': "range_slices m out h1 = Some h'" "extends h h'" "heap_ok h'" "hp_cells h' out = Some (SliceMap m')"
      "slices_val h' m' = Some vs" "slices_refs m' \<subseteq> new_cells h h'" "out \<in> new_cells h h'"
    by (auto simp: slices_refs_def)
  then show ?thesis
    by (simp add: Some m(1) new hModelAccessPolicy_DeepCopyInto_def attrs_val_def attrs_refs_def v')
qed

lemma model_copy_deep:
  assumes ok: "heap_ok h" and v: "model_val h m = Some v" and w: "wf_model v"
  shows "\<exists>m' h'. hModelSpec_DeepCopyInto m h = Some (m', h') \<and> model_val h' m' = Some v \<and> extends h h'
     \<and> heap_ok h' \<and> model_refs h' m' \<subseteq> new_cells h h'"
proof -
  from v obtain va vk vd where vals: "attrs_val h (hm_UserAttributes m) = Some va"
      "hslice_val h (hm_KeyWords m) = Some vk" "hslice_val h (hm_Descriptions m) = Some vd"
      and v': "v = \<lparr>m_Id = hm_Id m, m_Type = hm_Type m, m_BaseModelId = hm_BaseModelId m,
                m_AccessPolicy = \<lparr>ap_UserAttributes = va\<rparr>,
                m_SelectionPolicy = \<lparr>sp_KeyWords = vk, sp_Descriptions = vd\<rparr>\<rparr>"
    by (auto simp: model_val_def split: Option.bind_splits)
  have "gwf va" using w by (simp add: v' wf_model_def wf_access_def)
  from attrs_copy_deep [OF ok vals(1) this] obtain p h1 where
      1: "hModelAccessPolicy_DeepCopyInto (hm_UserAttributes m) h = Some (p, h1)" "attrs_val h1 p = Some va"
         "extends h h1" "heap_ok h1" "attrs_refs h1 p \<subseteq> new_cells h h1" by blast
  have "hslice_val h1 (hm_KeyWords m) = Some vk"
    using hslice_frame [OF extends_same [OF 1(3) hslice_bounded [OF ok vals(2)]]] vals(2) by simp
  from dup_hslice_deep [OF 1(4) this] obtain kw h2 where
      2: "dup_hslice (hm_KeyWords m) h1 = Some (kw, h2)" "hslice_val h2 kw = Some vk" "extends h1 h2"
         "heap_ok h2" "hslice_refs kw \<subseteq> new_cells h1 h2" by blast
  have e2: "extends h h2" by (rule extends_trans [OF 1(3) 2(3)])
  have "hslice_val h2 (hm_Descriptions m) = Some vd"
    using hslice_frame [OF extends_same [OF e2 hslice_bounded [OF ok vals(3)]]] vals(3) by simp
  from dup_hslice_deep [OF 2(4) this] obtain ds h3 where
      3: "dup_hslice (hm_Descriptions m) h2 = Some (ds, h3)" "hslice_val h3 ds = Some vd" "extends h2 h3"
         "heap_ok h3" "hslice_refs ds \<subseteq> new_cells h2 h3" by blast
  have e3: "extends h h3" "extends h1 h3"
    by (rule extends_trans [OF e2 3(3)], rule extends_trans [OF 2(3) 3(3)])
  note old = attrs_frame [OF extends_same [OF e3(2) attrs_bounded [OF 1(4) 1(2)]]]
    hslice_frame [OF extends_same [OF 3(3) hslice_bounded [OF 2(4) 2(2)]]]
  let ?m = "m\<lparr>hm_UserAttributes := p, hm_KeyWords := kw, hm_Descriptions := ds\<rparr>"
  have "model_val h3 ?m = Some v" by (simp add: model_val_def old 1(2) 2(2) 3(2) v')
  moreover have "model_refs h3 ?m \<subseteq> new_cells h h3"
    using 1(3,5) 2(3,5) 3(3,5) old(2) by (auto simp: model_refs_def new_cells_def extends_def)
  ultimately show ?thesis using 1(1) 2(1) 3(1,4) e3(1) by (simp add: hModelSpec_DeepCopyInto_def)
qed

section \<open>The methods of the store, on pointers\<close>

text \<open>The two kinds of specs: the cell a pointer to one leads to, and the generated copy.\<close>

record 'h kind =
  k_cell :: "'h \<Rightarrow> cell"
  k_of :: "cell \<Rightarrow> 'h option"
  k_zero :: 'h
  k_into :: "'h \<Rightarrow> heap \<Rightarrow> ('h \<times> heap) outcome"
  k_Id :: "'h \<Rightarrow> string"

definition user_kind :: "huser kind" where
  "user_kind = \<lparr>k_cell = UserCell, k_of = user_cell, k_zero = \<lparr>hu_Id = [], hu_Attributes = None\<rparr>,
     k_into = hUserSpec_DeepCopyInto, k_Id = hu_Id\<rparr>"

definition model_kind :: "hmodel kind" where
  "model_kind = \<lparr>k_cell = ModelCell, k_of = model_cell,
     k_zero = \<lparr>hm_Id = [], hm_Type = [], hm_BaseModelId = [], hm_UserAttributes = None,
               hm_KeyWords = HNil, hm_Descriptions = HNil\<rparr>,
     k_into = hModelSpec_DeepCopyInto, k_Id = hm_Id\<rparr>"

type_synonym pointers = "(string, addr option) gomap"

definition deref :: "'h kind \<Rightarrow> heap \<Rightarrow> addr option \<Rightarrow> 'h outcome" where
  "deref K h p = do { a \<leftarrow> p; c \<leftarrow> hp_cells h a; k_of K c }"

definition h_DeepCopy :: "'h kind \<Rightarrow> addr option \<Rightarrow> heap \<Rightarrow> (addr option \<times> heap) outcome" where
  "h_DeepCopy K p h =
     (case p of
        None \<Rightarrow> Some (None, h)
      | Some a \<Rightarrow>
          (let (out, h1) = new_cell (k_cell K (k_zero K)) h in
           do { x \<leftarrow> deref K h1 p;
                (x', h2) \<leftarrow> k_into K x h1;
                Some (Some out, put_cell out (k_cell K x') h2) }))"

definition h_Get :: "'h kind \<Rightarrow> string \<Rightarrow> string \<Rightarrow> pointers \<Rightarrow> heap \<Rightarrow> (addr option result \<times> heap) outcome" where
  "h_Get K what i m h =
     (case glookup m i of
        None \<Rightarrow> Some (Inl (Errorf (what @ '' not found: '' @ i)), h)
      | Some p \<Rightarrow> do { (c, h1) \<leftarrow> h_DeepCopy K p h; Some (Inr c, h1) })"

primrec h_copy_all :: "'h kind \<Rightarrow> ('h \<Rightarrow> bool) \<Rightarrow> addr option list \<Rightarrow> 'h list \<Rightarrow> heap \<Rightarrow> ('h list \<times> heap) outcome"
where
  "h_copy_all K keep [] acc h = Some (acc, h)"
| "h_copy_all K keep (p # ps) acc h =
     do { x \<leftarrow> deref K h p;
          if keep x then do { (c, h1) \<leftarrow> k_into K x h; h_copy_all K keep ps (acc @ [c]) h1 }
          else h_copy_all K keep ps acc h }"

definition h_List ::
    "'h kind \<Rightarrow> addr option order \<Rightarrow> ('h \<Rightarrow> bool) \<Rightarrow> pointers \<Rightarrow> heap \<Rightarrow> ('h list \<times> heap) outcome" where
  "h_List K ord keep m h = h_copy_all K keep (map snd (ord (entries m))) [] h"

definition h_Sync ::
    "'h kind \<Rightarrow> string \<Rightarrow> addr option \<Rightarrow> pointers \<Rightarrow> heap \<Rightarrow> (goerror option \<times> pointers \<times> heap) outcome" where
  "h_Sync K what p m h =
     (case p of
        None \<Rightarrow> Some (Some (Errorf (what @ '' cannot be nil'')), m, h)
      | Some a \<Rightarrow>
          do { x \<leftarrow> deref K h p;
               if k_Id K x = [] then Some (Some (Errorf (what @ '' id cannot be empty'')), m, h)
               else do { (c, h1) \<leftarrow> h_DeepCopy K p h;
                         m1 \<leftarrow> gset (k_Id K x) c m;
                         Some (None, m1, h1) } })"

section \<open>What the pointers of the store lead to\<close>

definition ptr_val :: "'h kind \<Rightarrow> (heap \<Rightarrow> 'h \<Rightarrow> 'a option) \<Rightarrow> heap \<Rightarrow> addr option \<Rightarrow> 'a option" where
  "ptr_val K val h p = do { x \<leftarrow> deref K h p; val h x }"

definition ptr_refs :: "'h kind \<Rightarrow> (heap \<Rightarrow> 'h \<Rightarrow> addr set) \<Rightarrow> heap \<Rightarrow> addr option \<Rightarrow> addr set" where
  "ptr_refs K refs h p =
     (case p of None \<Rightarrow> {} | Some a \<Rightarrow> insert a (case deref K h p of None \<Rightarrow> {} | Some x \<Rightarrow> refs h x))"

definition map_val ::
    "'h kind \<Rightarrow> (heap \<Rightarrow> 'h \<Rightarrow> 'a option) \<Rightarrow> heap \<Rightarrow> pointers \<Rightarrow> (string, 'a option) gomap" where
  "map_val K val h m =
     (case m of NilMap \<Rightarrow> NilMap | GoMap al \<Rightarrow> GoMap (map (\<lambda>(k, p). (k, ptr_val K val h p)) al))"

definition owned :: "'h kind \<Rightarrow> (heap \<Rightarrow> 'h \<Rightarrow> addr set) \<Rightarrow> heap \<Rightarrow> pointers \<Rightarrow> addr set" where
  "owned K refs h m = (\<Union>kp \<in> set (entries m). ptr_refs K refs h (snd kp))"

text \<open>
  The contract of a kind of spec: structs stand for specs, what they stand for depends on the
  cells they reach, and the copy of a struct reaches only new cells.
\<close>

locale deep_copied =
  fixes K :: "'h kind" and val :: "heap \<Rightarrow> 'h \<Rightarrow> 'a option" and refs :: "heap \<Rightarrow> 'h \<Rightarrow> addr set"
    and wf :: "'a \<Rightarrow> bool" and ident :: "'a \<Rightarrow> string"
  assumes of_cell: "k_of K (k_cell K x) = Some x"
    and val_id: "val h x = Some v \<Longrightarrow> ident v = k_Id K x"
    and frame: "same_on (refs h x) h h' \<Longrightarrow> val h' x = val h x"
    and frame_refs: "same_on (refs h x) h h' \<Longrightarrow> refs h' x = refs h x"
    and bounded: "heap_ok h \<Longrightarrow> val h x = Some v \<Longrightarrow> refs h x \<subseteq> {..<hp_next h}"
    and copy: "heap_ok h \<Longrightarrow> val h x = Some v \<Longrightarrow> wf v \<Longrightarrow>
      \<exists>x' h'. k_into K x h = Some (x', h') \<and> val h' x' = Some v \<and> extends h h' \<and> heap_ok h'
        \<and> refs h' x' \<subseteq> new_cells h h'"
begin

lemma deref_same: "same_on (set_option p) h h' \<Longrightarrow> deref K h' p = deref K h p"
  by (cases p) (simp_all add: deref_def same_on_def)

lemma ptr_frame:
  assumes "same_on (ptr_refs K refs h p) h h'"
  shows "ptr_val K val h' p = ptr_val K val h p" "ptr_refs K refs h' p = ptr_refs K refs h p"
proof -
  have d: "deref K h' p = deref K h p"
    by (rule deref_same, rule same_on_subset [OF assms]) (auto simp: ptr_refs_def split: option.splits)
  have s: "same_on (refs h x) h h'" if "deref K h p = Some x" for x
  proof (rule same_on_subset [OF assms])
    show "refs h x \<subseteq> ptr_refs K refs h p" using that by (cases p) (auto simp: ptr_refs_def deref_def)
  qed
  show "ptr_val K val h' p = ptr_val K val h p"
  proof (cases "deref K h p")
    case (Some x)
    then show ?thesis using frame [OF s [OF Some]] by (simp add: ptr_val_def d)
  qed (simp add: ptr_val_def d)
  show "ptr_refs K refs h' p = ptr_refs K refs h p"
  proof (cases "deref K h p")
    case (Some x)
    then show ?thesis using frame_refs [OF s [OF Some]] d by (cases p) (simp_all add: ptr_refs_def)
  qed (use d in \<open>cases p; simp add: ptr_refs_def\<close>)
qed

lemma ptr_bounded:
  assumes ok: "heap_ok h" and v: "ptr_val K val h p = Some v"
  shows "ptr_refs K refs h p \<subseteq> {..<hp_next h}"
proof -
  from v obtain x where x: "deref K h p = Some x" "val h x = Some v"
    by (auto simp: ptr_val_def split: Option.bind_splits)
  then obtain a c where "p = Some a" "hp_cells h a = Some c" by (auto simp: deref_def split: Option.bind_splits)
  then show ?thesis using ok bounded [OF ok x(2)] x(1) by (auto simp: ptr_refs_def heap_ok_def)
qed

lemma entries_map_val: "entries (map_val K val h m) = map (\<lambda>(k, p). (k, ptr_val K val h p)) (entries m)"
  by (cases m) (simp_all add: map_val_def)

lemma glookup_map_val: "glookup (map_val K val h m) i = map_option (ptr_val K val h) (glookup m i)"
  by (simp add: glookup_def entries_map_val map_of_map)

lemma map_frame:
  assumes "same_on (owned K refs h m) h h'"
  shows "map_val K val h' m = map_val K val h m" "owned K refs h' m = owned K refs h m"
proof -
  have "same_on (ptr_refs K refs h p) h h'" if "(k, p) \<in> set (entries m)" for k p
    by (rule same_on_subset [OF assms]) (use that in \<open>auto simp: owned_def\<close>)
  note f = ptr_frame [OF this]
  show "owned K refs h' m = owned K refs h m" using f(2) by (auto simp: owned_def)
  show "map_val K val h' m = map_val K val h m" using f(1) by (cases m) (auto simp: map_val_def)
qed

lemma map_entry:
  assumes "ptr_map ident wf (map_val K val h m)" and "(k, p) \<in> set (entries m)"
  shows "\<exists>v. ptr_val K val h p = Some v \<and> wf v"
proof -
  have "(k, ptr_val K val h p) \<in> set (entries (map_val K val h m))" using assms(2) by (force simp: entries_map_val)
  then have "ptr_entry ident wf (k, ptr_val K val h p)" using assms(1) by (auto simp: ptr_map_def list_all_iff)
  then show ?thesis by (auto simp: ptr_entry_def split: option.splits)
qed

lemma map_bounded: "heap_ok h \<Longrightarrow> ptr_map ident wf (map_val K val h m) \<Longrightarrow> owned K refs h m \<subseteq> {..<hp_next h}"
  using map_entry ptr_bounded unfolding owned_def by (fastforce dest: subsetD)

lemma map_val_gset: "gset i p m = Some m' \<Longrightarrow> gset i (ptr_val K val h p) (map_val K val h m) = Some (map_val K val h m')"
proof -
  have "map (\<lambda>(k, p). (k, ptr_val K val h p)) (AList.update i p al)
      = AList.update i (ptr_val K val h p) (map (\<lambda>(k, p). (k, ptr_val K val h p)) al)" for al :: "(string \<times> addr option) list"
    by (induction al) auto
  then show "gset i p m = Some m' \<Longrightarrow> gset i (ptr_val K val h p) (map_val K val h m) = Some (map_val K val h m')"
    by (cases m) (auto simp: map_val_def)
qed

lemma map_val_gdelete: "map_val K val h (gdelete i m) = gdelete i (map_val K val h m)"
proof -
  have "map (\<lambda>(k, p). (k, ptr_val K val h p)) (AList.delete i al)
      = AList.delete i (map (\<lambda>(k, p). (k, ptr_val K val h p)) al)" for al :: "(string \<times> addr option) list"
    by (induction al) auto
  then show ?thesis by (cases m) (auto simp: map_val_def)
qed

lemma set_update_subset: "set (AList.update k v al) \<subseteq> insert (k, v) (set al)"
  by (induction al) auto

text \<open>The methods against the maps the pointers stand for.\<close>

lemma pointer_copy:
  assumes ok: "heap_ok h" and v: "ptr_val K val h p = Some v" and w: "wf v"
  shows "\<exists>a h'. h_DeepCopy K p h = Some (Some a, h') \<and> ptr_val K val h' (Some a) = Some v
     \<and> extends h h' \<and> heap_ok h' \<and> ptr_refs K refs h' (Some a) \<subseteq> new_cells h h'"
proof -
  from v obtain x where x: "deref K h p = Some x" "val h x = Some v"
    by (auto simp: ptr_val_def split: Option.bind_splits)
  then obtain b where p: "p = Some b" by (auto simp: deref_def split: Option.bind_splits)
  obtain out h1 where new: "new_cell (k_cell K (k_zero K)) h = (out, h1)" by force
  note n = new_cell_facts [OF new ok]
  have f: "same_on (ptr_refs K refs h p) h h1"
    by (rule extends_same [OF n(1) ptr_bounded [OF ok v]])
  then have "ptr_val K val h1 p = Some v" using ptr_frame(1) v by metis
  moreover have d: "deref K h1 p = Some x"
    using deref_same [OF same_on_subset [OF f]] x(1) by (simp add: ptr_refs_def p)
  ultimately have "val h1 x = Some v" by (simp add: ptr_val_def)
  from copy [OF n(2) this w] obtain x' h2 where c: "k_into K x h1 = Some (x', h2)" "val h2 x' = Some v"
      "extends h1 h2" "heap_ok h2" "refs h2 x' \<subseteq> new_cells h1 h2" by blast
  have e: "extends h h2" by (rule extends_trans [OF n(1) c(3)])
  have out: "out \<in> new_cells h h2" using n(3,4) c(3) by (simp add: new_cells_def extends_def)
  let ?h = "put_cell out (k_cell K x') h2"
  note p' = put_cell_facts [OF e out c(4), of "k_cell K x'"]
  have s: "same_on (refs h2 x') h2 ?h"
    unfolding same_on_def p'(4) using c(5) n(3,4) by (auto simp: new_cells_def)
  have d': "deref K ?h (Some out) = Some x'" by (simp add: deref_def p'(4) of_cell)
  have "ptr_val K val ?h (Some out) = Some v" using frame [OF s] c(2) by (simp add: ptr_val_def d')
  moreover have "ptr_refs K refs ?h (Some out) \<subseteq> new_cells h ?h"
  proof -
    have "ptr_refs K refs ?h (Some out) = insert out (refs h2 x')"
      by (simp add: ptr_refs_def d' frame_refs [OF s])
    then show ?thesis using c(5) out n(3,4) p'(3) by (auto simp: new_cells_def)
  qed
  ultimately show ?thesis using new c(1) d p'(1,2) by (simp add: h_DeepCopy_def p)
qed

lemma get_copies:
  assumes ok: "heap_ok h" and m: "ptr_map ident wf (map_val K val h m)"
  shows "case glookup (map_val K val h m) i of
      None \<Rightarrow> h_Get K what i m h = Some (Inl (Errorf (what @ '' not found: '' @ i)), h)
    | Some v \<Rightarrow> \<exists>a h'. h_Get K what i m h = Some (Inr (Some a), h') \<and> ptr_val K val h' (Some a) = v
        \<and> extends h h' \<and> heap_ok h' \<and> ptr_refs K refs h' (Some a) \<subseteq> new_cells h h'"
proof (cases "glookup m i")
  case None
  then show ?thesis by (simp add: glookup_map_val h_Get_def)
next
  case (Some p)
  with map_entry [OF m glookup_in_entries] obtain v where v: "ptr_val K val h p = Some v" "wf v" by blast
  from pointer_copy [OF ok v] show ?thesis by (auto simp: glookup_map_val h_Get_def Some v(1))
qed

lemma copy_all_copies:
  assumes "heap_ok h0" and "extends h0 h" and "heap_ok h"
    and "\<forall>p \<in> set ps. \<exists>v. ptr_val K val h0 p = Some v \<and> wf v"
    and "map (val h) acc = map Some vs" and "(\<Union>x \<in> set acc. refs h x) \<subseteq> new_cells h0 h"
    and "\<forall>x v. val h0 x = Some v \<longrightarrow> keep x = keepv v"
  shows "\<exists>xs h'. h_copy_all K keep ps acc h = Some (xs, h') \<and> extends h0 h' \<and> heap_ok h'
     \<and> map (val h') xs = map Some (vs @ filter keepv (map (\<lambda>p. the (ptr_val K val h0 p)) ps))
     \<and> (\<Union>x \<in> set xs. refs h' x) \<subseteq> new_cells h0 h'"
  using assms(2,3,4,5,6)
proof (induction ps arbitrary: acc h vs)
  case Nil
  then show ?case by auto
next
  case (Cons p ps)
  from Cons.prems(3) obtain v where v: "ptr_val K val h0 p = Some v" "wf v" by auto
  have "same_on (ptr_refs K refs h0 p) h0 h"
    by (rule extends_same [OF Cons.prems(1) ptr_bounded [OF assms(1) v(1)]])
  then have "ptr_val K val h p = Some v" using ptr_frame(1) v(1) by metis
  then obtain x where x: "deref K h p = Some x" "val h x = Some v"
    by (auto simp: ptr_val_def split: Option.bind_splits)
  have kv: "keep x = keepv v"
  proof -
    from v(1) obtain y where y: "deref K h0 p = Some y" "val h0 y = Some v"
      by (auto simp: ptr_val_def split: Option.bind_splits)
    then have "y = x" using x(1) Cons.prems(1) \<open>same_on (ptr_refs K refs h0 p) h0 h\<close>
      by (cases p) (auto simp: deref_def ptr_refs_def same_on_def split: Option.bind_splits)
    then show ?thesis using assms(7) y(2) by blast
  qed
  show ?case
  proof (cases "keepv v")
    case False
    then show ?thesis using Cons.IH [OF Cons.prems(1,2) _ Cons.prems(4,5)] Cons.prems(3) x(1) kv v(1) by simp
  next
    case True
    from copy [OF Cons.prems(2) x(2) v(2)] obtain c h1 where c: "k_into K x h = Some (c, h1)" "val h1 c = Some v"
        "extends h h1" "heap_ok h1" "refs h1 c \<subseteq> new_cells h h1" by blast
    have e: "extends h0 h1" by (rule extends_trans [OF Cons.prems(1) c(3)])
    have "same_on (refs h y) h h1" if "y \<in> set acc" for y
      by (rule extends_same [OF c(3)]) (use Cons.prems(5) that in \<open>auto simp: new_cells_def\<close>)
    then have same: "val h1 y = val h y" "refs h1 y = refs h y" if "y \<in> set acc" for y
      using frame frame_refs that by blast+
    have "map (val h1) (acc @ [c]) = map Some (vs @ [v])"
      using Cons.prems(4) same(1) c(2) by (simp cong: map_cong)
    moreover have "(\<Union>x \<in> set (acc @ [c]). refs h1 x) \<subseteq> new_cells h0 h1"
      using Cons.prems(1,5) same(2) c(3,5) by (fastforce simp: new_cells_def extends_def)
    ultimately show ?thesis
      using Cons.IH [OF e c(4), of "acc @ [c]" "vs @ [v]"] Cons.prems(3) x(1) kv True c(1) v(1) by simp
  qed
qed

lemma sync_copies:
  assumes ok: "heap_ok h" and m: "ptr_map ident wf (map_val K val h m)"
    and v: "ptr_val K val h p = Some v" "wf v" "ident v \<noteq> []"
  shows "\<exists>m' h'. h_Sync K what p m h = Some (None, m', h') \<and> gset (ident v) (Some v) (map_val K val h m) = Some (map_val K val h' m')
     \<and> extends h h' \<and> heap_ok h' \<and> owned K refs h' m' \<subseteq> owned K refs h m \<union> new_cells h h'"
proof -
  from v(1) obtain x where x: "deref K h p = Some x" "val h x = Some v"
    by (auto simp: ptr_val_def split: Option.bind_splits)
  then obtain b where p: "p = Some b" by (auto simp: deref_def split: Option.bind_splits)
  from pointer_copy [OF ok v(1,2)] obtain a h' where c: "h_DeepCopy K p h = Some (Some a, h')"
      "ptr_val K val h' (Some a) = Some v" "extends h h'" "heap_ok h'" "ptr_refs K refs h' (Some a) \<subseteq> new_cells h h'"
    by blast
  have "m \<noteq> NilMap" using m by (auto simp: ptr_map_def map_val_def)
  then obtain m' where m': "gset (k_Id K x) (Some a) m = Some m'" using gset_made by metis
  note f = map_frame [OF extends_same [OF c(3) map_bounded [OF ok m]]]
  have "set (entries m') \<subseteq> insert (k_Id K x, Some a) (set (entries m))"
    using m' set_update_subset by (cases m) force+
  then have "owned K refs h' m' \<subseteq> owned K refs h' m \<union> ptr_refs K refs h' (Some a)"
    by (auto simp: owned_def)
  moreover have "gset (k_Id K x) (Some v) (map_val K val h m) = Some (map_val K val h' m')"
    using map_val_gset [OF m', of h'] c(2) f(1) by simp
  ultimately show ?thesis
    using c m' x val_id [OF x(2)] v(3) f(2) by (simp add: h_Sync_def p) blast
qed

lemma owned_gdelete: "owned K refs h (gdelete i m) \<subseteq> owned K refs h m"
  by (cases m) (auto simp: owned_def AList.delete_eq)

end

lemma user_val_id: "user_val h x = Some v \<Longrightarrow> u_Id v = hu_Id x"
  by (auto simp: user_val_def)

lemma model_val_id: "model_val h x = Some v \<Longrightarrow> m_Id v = hm_Id x"
  by (auto simp: model_val_def split: Option.bind_splits)

interpretation user_copies: deep_copied user_kind user_val user_refs wf_user u_Id
  by unfold_locales (simp_all add: user_kind_def user_val_id user_frame user_bounded user_copy_deep)

interpretation model_copies: deep_copied model_kind model_val model_refs wf_model m_Id
  by unfold_locales (simp_all add: model_kind_def model_val_id model_frame model_bounded model_copy_deep)

section \<open>The store and its callers\<close>

text \<open>
  \<open>hw_known\<close> are the cells the rest of the program has access to: what it made itself, and what
  the store returned. It may overwrite them at any time, and pass pointers to them. The log has the
  calls that change the store, with what their arguments stood for when they were made.
\<close>

record hworld =
  hw_heap :: heap
  hw_users :: pointers
  hw_models :: pointers
  hw_known :: "addr set"
  hw_log :: "store_op list"

definition empty_world :: hworld where
  "empty_world = \<lparr>hw_heap = \<lparr>hp_cells = Map.empty, hp_next = 0\<rparr>, hw_users = gmake, hw_models = gmake,
     hw_known = {}, hw_log = []\<rparr>"

definition typed :: "'h kind \<Rightarrow> (heap \<Rightarrow> 'h \<Rightarrow> 'a option) \<Rightarrow> ('a \<Rightarrow> bool) \<Rightarrow> heap \<Rightarrow> addr option \<Rightarrow> bool" where
  "typed K val good h p \<longleftrightarrow> p = None \<or> (\<exists>v. ptr_val K val h p = Some v \<and> good v)"

text \<open>
  A read, with the cells that its caller gets access to: those that can be reached from what it
  returns, whether they are new or not.
\<close>

definition reached :: "'h kind \<Rightarrow> (heap \<Rightarrow> 'h \<Rightarrow> addr set) \<Rightarrow> heap \<Rightarrow> addr option result \<Rightarrow> addr set" where
  "reached K refs h r = (case r of Inl e \<Rightarrow> {} | Inr p \<Rightarrow> ptr_refs K refs h p)"

definition reached_all :: "(heap \<Rightarrow> 'h \<Rightarrow> addr set) \<Rightarrow> heap \<Rightarrow> 'h list \<Rightarrow> addr set" where
  "reached_all refs h xs = (\<Union>x \<in> set xs. refs h x)"

inductive h_reads :: "hworld \<Rightarrow> addr set \<Rightarrow> heap \<Rightarrow> bool" for w where
  get_user: "h_Get user_kind ''user'' i (hw_users w) (hw_heap w) = Some (r, h) \<Longrightarrow>
     h_reads w (reached user_kind user_refs h r) h"
| list_users: "range_order ord \<Longrightarrow>
     h_List user_kind ord (\<lambda>_. True) (hw_users w) (hw_heap w) = Some (us, h) \<Longrightarrow>
     h_reads w (reached_all user_refs h us) h"
| get_model: "h_Get model_kind ''model'' i (hw_models w) (hw_heap w) = Some (r, h) \<Longrightarrow>
     h_reads w (reached model_kind model_refs h r) h"
| list_models: "range_order ord \<Longrightarrow>
     h_List model_kind ord (\<lambda>_. True) (hw_models w) (hw_heap w) = Some (ms, h) \<Longrightarrow>
     h_reads w (reached_all model_refs h ms) h"
| list_models_by_type: "range_order ord \<Longrightarrow>
     h_List model_kind ord (\<lambda>m. hm_Type m = t) (hw_models w) (hw_heap w) = Some (ms, h) \<Longrightarrow>
     h_reads w (reached_all model_refs h ms) h"

inductive hruns :: "hworld \<Rightarrow> bool" where
  begins: "hruns empty_world"
| makes: "hruns w \<Longrightarrow> new_cell c (hw_heap w) = (a, h) \<Longrightarrow>
     hruns (w\<lparr>hw_heap := h, hw_known := insert a (hw_known w)\<rparr>)"
| writes: "hruns w \<Longrightarrow> a \<in> hw_known w \<Longrightarrow> hruns (w\<lparr>hw_heap := put_cell a c (hw_heap w)\<rparr>)"
| reads: "hruns w \<Longrightarrow> h_reads w A h \<Longrightarrow>
     hruns (w\<lparr>hw_heap := h, hw_known := hw_known w \<union> A\<rparr>)"
| sync_user: "hruns w \<Longrightarrow> typed user_kind user_val wf_user (hw_heap w) p \<Longrightarrow>
     h_Sync user_kind ''user'' p (hw_users w) (hw_heap w) = Some (e, m, h) \<Longrightarrow>
     hruns (w\<lparr>hw_heap := h, hw_users := m,
              hw_log := hw_log w @ [OpSyncUser (ptr_val user_kind user_val (hw_heap w) p)]\<rparr>)"
| delete_user: "hruns w \<Longrightarrow>
     hruns (w\<lparr>hw_users := gdelete i (hw_users w), hw_log := hw_log w @ [OpDeleteUser i]\<rparr>)"
| sync_model: "hruns w \<Longrightarrow> typed model_kind model_val wf_model (hw_heap w) p \<Longrightarrow>
     h_Sync model_kind ''model'' p (hw_models w) (hw_heap w) = Some (e, m, h) \<Longrightarrow>
     hruns (w\<lparr>hw_heap := h, hw_models := m,
              hw_log := hw_log w @ [OpSyncModel (ptr_val model_kind model_val (hw_heap w) p)]\<rparr>)"
| delete_model: "hruns w \<Longrightarrow>
     hruns (w\<lparr>hw_models := gdelete i (hw_models w), hw_log := hw_log w @ [OpDeleteModel i]\<rparr>)"

text \<open>The store as \<open>MemoryStore\<close> has it, and the cells it stands on.\<close>

definition stored :: "hworld \<Rightarrow> memory" where
  "stored w = \<lparr>mem_users = map_val user_kind user_val (hw_heap w) (hw_users w),
               mem_models = map_val model_kind model_val (hw_heap w) (hw_models w)\<rparr>"

definition store_cells :: "hworld \<Rightarrow> addr set" where
  "store_cells w = owned user_kind user_refs (hw_heap w) (hw_users w)
     \<union> owned model_kind model_refs (hw_heap w) (hw_models w)"

definition apart :: "hworld \<Rightarrow> bool" where
  "apart w \<longleftrightarrow> heap_ok (hw_heap w) \<and> hw_known w \<subseteq> {..<hp_next (hw_heap w)} \<and> mem_inv (stored w)
     \<and> hw_known w \<inter> store_cells w = {}"

lemma apartD:
  assumes "apart w"
  shows "heap_ok (hw_heap w)" and "ptr_map u_Id wf_user (map_val user_kind user_val (hw_heap w) (hw_users w))"
    and "ptr_map m_Id wf_model (map_val model_kind model_val (hw_heap w) (hw_models w))"
    and "store_cells w \<subseteq> {..<hp_next (hw_heap w)}"
proof -
  show ok: "heap_ok (hw_heap w)" and
    u: "ptr_map u_Id wf_user (map_val user_kind user_val (hw_heap w) (hw_users w))" and
    m: "ptr_map m_Id wf_model (map_val model_kind model_val (hw_heap w) (hw_models w))"
    using assms by (simp_all add: apart_def mem_inv_def stored_def)
  show "store_cells w \<subseteq> {..<hp_next (hw_heap w)}"
    using user_copies.map_bounded [OF ok u] model_copies.map_bounded [OF ok m] by (simp add: store_cells_def)
qed

text \<open>A heap that agrees on the store's cells has the same store.\<close>

lemma stored_same:
  assumes "same_on (store_cells w) (hw_heap w) h"
  shows "stored (w\<lparr>hw_heap := h, hw_known := A\<rparr>) = stored w"
    and "store_cells (w\<lparr>hw_heap := h, hw_known := A\<rparr>) = store_cells w"
    and "map_val user_kind user_val h (hw_users w) = map_val user_kind user_val (hw_heap w) (hw_users w)"
    and "map_val model_kind model_val h (hw_models w) = map_val model_kind model_val (hw_heap w) (hw_models w)"
    and "owned user_kind user_refs h (hw_users w) = owned user_kind user_refs (hw_heap w) (hw_users w)"
    and "owned model_kind model_refs h (hw_models w) = owned model_kind model_refs (hw_heap w) (hw_models w)"
proof -
  have s: "same_on (owned user_kind user_refs (hw_heap w) (hw_users w)) (hw_heap w) h"
    "same_on (owned model_kind model_refs (hw_heap w) (hw_models w)) (hw_heap w) h"
    by (rule same_on_subset [OF assms], simp add: store_cells_def)+
  note f = user_copies.map_frame [OF s(1)] model_copies.map_frame [OF s(2)]
  show "stored (w\<lparr>hw_heap := h, hw_known := A\<rparr>) = stored w"
    "store_cells (w\<lparr>hw_heap := h, hw_known := A\<rparr>) = store_cells w"
    by (simp_all add: stored_def store_cells_def f)
  show "map_val user_kind user_val h (hw_users w) = map_val user_kind user_val (hw_heap w) (hw_users w)"
    "map_val model_kind model_val h (hw_models w) = map_val model_kind model_val (hw_heap w) (hw_models w)"
    "owned user_kind user_refs h (hw_users w) = owned user_kind user_refs (hw_heap w) (hw_users w)"
    "owned model_kind model_refs h (hw_models w) = owned model_kind model_refs (hw_heap w) (hw_models w)"
    by (rule f)+
qed

lemma new_cells_disjoint:
  assumes "A \<subseteq> {..<n}" and "A \<inter> B = {}" and "B' \<subseteq> B \<union> {n..<k::nat}"
  shows "A \<inter> B' = {}"
  using assms unfolding disjoint_iff subset_iff by (meson UnE atLeastLessThan_iff lessThan_iff not_less)

lemma apart_grows:
  assumes w: "apart w" and h: "extends (hw_heap w) h" "heap_ok h"
    and A: "A \<subseteq> hw_known w \<union> new_cells (hw_heap w) h"
  shows "apart (w\<lparr>hw_heap := h, hw_known := A\<rparr>) \<and> stored (w\<lparr>hw_heap := h, hw_known := A\<rparr>) = stored w"
proof -
  note b = apartD(4) [OF w]
  note s = stored_same(1,2) [OF extends_same [OF h(1) b], of A]
  have "hw_known w \<subseteq> {..<hp_next h}" using w h(1) by (auto simp: apart_def extends_def)
  then have "A \<subseteq> {..<hp_next h}" using A by (auto simp: new_cells_def)
  moreover have "store_cells w \<inter> A = {}"
    using new_cells_disjoint [OF b _ A [unfolded new_cells_def]] w by (simp add: apart_def Int_commute)
  ultimately show ?thesis using w h(2) s(1,2) by (simp add: apart_def Int_commute)
qed

context deep_copied
begin

text \<open>Reads only add to the heap, and only new cells are reached from what they return.\<close>

lemma get_extends:
  assumes "heap_ok h" and "ptr_map ident wf (map_val K val h m)" and "h_Get K what i m h = Some (r, h')"
  shows "extends h h' \<and> heap_ok h' \<and> reached K refs h' r \<subseteq> new_cells h h'"
  using get_copies [OF assms(1,2), where what = what and i = i] assms(1,3)
  by (auto simp: reached_def split: option.splits)

lemma list_copies:
  assumes ok: "heap_ok h" and m: "ptr_map ident wf (map_val K val h m)" and ord: "range_order ord"
    and keep: "\<forall>x v. val h x = Some v \<longrightarrow> keep x = keepv v"
  shows "\<exists>xs h'. h_List K ord keep m h = Some (xs, h') \<and> extends h h' \<and> heap_ok h'
     \<and> map (val h') xs = map Some (filter keepv (map (\<lambda>p. the (ptr_val K val h p)) (map snd (ord (entries m)))))
     \<and> (\<Union>x \<in> set xs. refs h' x) \<subseteq> new_cells h h'"
proof -
  have "\<forall>p \<in> set (map snd (ord (entries m))). \<exists>v. ptr_val K val h p = Some v \<and> wf v"
    using map_entry [OF m] range_order_set [OF ord, of "entries m"] by force
  from copy_all_copies [OF ok extends_refl ok this, of "[]" "[]" keep keepv] keep
  show ?thesis by (simp add: h_List_def)
qed

text \<open>A sync, whatever it returns.\<close>

lemma sync_cases:
  assumes ok: "heap_ok h" and m: "ptr_map ident wf (map_val K val h m)" and t: "typed K val wf h p"
    and s: "h_Sync K what p m h = Some (e, m', h')"
  shows "extends h h' \<and> heap_ok h' \<and> owned K refs h' m' \<subseteq> owned K refs h m \<union> new_cells h h'
     \<and> (case ptr_val K val h p of
          None \<Rightarrow> e = Some (Errorf (what @ '' cannot be nil'')) \<and> map_val K val h' m' = map_val K val h m
        | Some v \<Rightarrow> wf v \<and> (if ident v = []
            then e = Some (Errorf (what @ '' id cannot be empty'')) \<and> map_val K val h' m' = map_val K val h m
            else e = None \<and> gset (ident v) (Some v) (map_val K val h m) = Some (map_val K val h' m')))"
proof (cases "ptr_val K val h p")
  case None
  with t have "p = None" by (auto simp: typed_def)
  with s None ok show ?thesis by (simp add: h_Sync_def)
next
  case (Some v)
  with t have v: "wf v" by (auto simp: typed_def ptr_val_def deref_def)
  show ?thesis
  proof (cases "ident v = []")
    case False
    from sync_copies [OF ok m Some v False, of what] s Some v False show ?thesis by auto
  next
    case True
    from Some obtain x where x: "deref K h p = Some x" "val h x = Some v"
      by (auto simp: ptr_val_def split: Option.bind_splits)
    then obtain a where "p = Some a" by (auto simp: deref_def split: Option.bind_splits)
    then show ?thesis using s x val_id [OF x(2)] True Some v ok by (simp add: h_Sync_def)
  qed
qed

end

lemma model_keep:
  "\<forall>x v. model_val h x = Some v \<longrightarrow> (hm_Type x = t) = (m_Type v = t)"
  by (auto simp: model_val_def split: Option.bind_splits)

lemma h_reads_extends:
  assumes w: "apart w" and r: "h_reads w A h"
  shows "extends (hw_heap w) h \<and> heap_ok h \<and> A \<subseteq> new_cells (hw_heap w) h"
  using r
proof cases
  case (get_user i r)
  then show ?thesis using user_copies.get_extends [OF apartD(1,2) [OF w]] by blast
next
  case (list_users ord us)
  then show ?thesis using user_copies.list_copies [OF apartD(1,2) [OF w], of ord "\<lambda>_. True" "\<lambda>_. True"]
    by (auto simp: reached_all_def)
next
  case (get_model i r)
  then show ?thesis using model_copies.get_extends [OF apartD(1,3) [OF w]] by blast
next
  case (list_models ord ms)
  then show ?thesis using model_copies.list_copies [OF apartD(1,3) [OF w], of ord "\<lambda>_. True" "\<lambda>_. True"]
    by (auto simp: reached_all_def)
next
  case (list_models_by_type ord t ms)
  from model_copies.list_copies [OF apartD(1,3) [OF w] list_models_by_type(2) model_keep [where t = t]] list_models_by_type(1,3)
  show ?thesis by (auto simp: reached_all_def)
qed

lemma apart_sync_user:
  assumes w: "apart w" and t: "typed user_kind user_val wf_user (hw_heap w) p"
    and s: "h_Sync user_kind ''user'' p (hw_users w) (hw_heap w) = Some (e, m, h)"
  shows "apart (w\<lparr>hw_heap := h, hw_users := m, hw_log := l\<rparr>)
     \<and> store_step (Memory id id) (OpSyncUser (ptr_val user_kind user_val (hw_heap w) p)) (stored w)
         = Some (e, stored (w\<lparr>hw_heap := h, hw_users := m, hw_log := l\<rparr>))"
proof -
  let ?w = "w\<lparr>hw_heap := h, hw_users := m, hw_log := l\<rparr>"
  let ?p = "ptr_val user_kind user_val (hw_heap w) p"
  note c = user_copies.sync_cases [OF apartD(1,2) [OF w] t s]
  then have ext: "extends (hw_heap w) h" "heap_ok h" by blast+
  note same = stored_same [OF extends_same [OF ext(1) apartD(4) [OF w]]]
  have step: "store_step (Memory id id) (OpSyncUser ?p) (stored w) = Some (e, stored ?w)"
    using c same(4)
    by (auto simp: Memory_def Memory_SyncUser_def stored_def split: option.splits if_splits)
  have "op_wf (OpSyncUser ?p)" using c by (auto split: option.splits)
  then have inv: "mem_inv (stored ?w)"
    using Memory_step [of "stored w" "OpSyncUser ?p" id id] step w by (auto simp: apart_def)
  have "store_cells ?w \<subseteq> store_cells w \<union> new_cells (hw_heap w) h"
    using c same(6) by (auto simp: store_cells_def)
  then have "hw_known w \<inter> store_cells ?w = {}"
    using w new_cells_disjoint [of "hw_known w" "hp_next (hw_heap w)" "store_cells w"] by (simp add: apart_def new_cells_def)
  then have "apart ?w" using w ext inv by (auto simp: apart_def extends_def)
  with step show ?thesis by blast
qed

lemma apart_sync_model:
  assumes w: "apart w" and t: "typed model_kind model_val wf_model (hw_heap w) p"
    and s: "h_Sync model_kind ''model'' p (hw_models w) (hw_heap w) = Some (e, m, h)"
  shows "apart (w\<lparr>hw_heap := h, hw_models := m, hw_log := l\<rparr>)
     \<and> store_step (Memory id id) (OpSyncModel (ptr_val model_kind model_val (hw_heap w) p)) (stored w)
         = Some (e, stored (w\<lparr>hw_heap := h, hw_models := m, hw_log := l\<rparr>))"
proof -
  let ?w = "w\<lparr>hw_heap := h, hw_models := m, hw_log := l\<rparr>"
  let ?p = "ptr_val model_kind model_val (hw_heap w) p"
  note c = model_copies.sync_cases [OF apartD(1,3) [OF w] t s]
  then have ext: "extends (hw_heap w) h" "heap_ok h" by blast+
  note same = stored_same [OF extends_same [OF ext(1) apartD(4) [OF w]]]
  have step: "store_step (Memory id id) (OpSyncModel ?p) (stored w) = Some (e, stored ?w)"
    using c same(3)
    by (auto simp: Memory_def Memory_SyncModel_def stored_def split: option.splits if_splits)
  have "op_wf (OpSyncModel ?p)" using c by (auto split: option.splits)
  then have inv: "mem_inv (stored ?w)"
    using Memory_step [of "stored w" "OpSyncModel ?p" id id] step w by (auto simp: apart_def)
  have "store_cells ?w \<subseteq> store_cells w \<union> new_cells (hw_heap w) h"
    using c same(5) by (auto simp: store_cells_def)
  then have "hw_known w \<inter> store_cells ?w = {}"
    using w new_cells_disjoint [of "hw_known w" "hp_next (hw_heap w)" "store_cells w"] by (simp add: apart_def new_cells_def)
  then have "apart ?w" using w ext inv by (auto simp: apart_def extends_def)
  with step show ?thesis by blast
qed

lemma apart_write:
  assumes w: "apart w" and a: "a \<in> hw_known w"
  shows "apart (w\<lparr>hw_heap := put_cell a c (hw_heap w)\<rparr>) \<and> stored (w\<lparr>hw_heap := put_cell a c (hw_heap w)\<rparr>) = stored w"
proof -
  have s: "same_on (store_cells w) (hw_heap w) (put_cell a c (hw_heap w))"
    using a w by (auto simp: same_on_def put_cell_def apart_def)
  note st = stored_same(1,2) [OF s, of "hw_known w"]
  have "heap_ok (put_cell a c (hw_heap w))" using w a by (auto simp: apart_def heap_ok_def put_cell_def)
  with w st show ?thesis by (simp add: apart_def put_cell_def)
qed

lemma apart_delete_user:
  fixes w i
  defines "w' \<equiv> w\<lparr>hw_users := gdelete i (hw_users w), hw_log := hw_log w @ [OpDeleteUser i]\<rparr>"
  assumes w: "apart w"
  shows "apart w' \<and> store_step (Memory id id) (OpDeleteUser i) (stored w) = Some (None, stored w')"
proof -
  have step: "store_step (Memory id id) (OpDeleteUser i) (stored w) = Some (None, stored w')"
    by (simp add: w'_def Memory_def Memory_DeleteUser_def stored_def user_copies.map_val_gdelete)
  have "mem_inv (stored w')"
    using Memory_step [of "stored w" "OpDeleteUser i" id id] step w by (auto simp: apart_def)
  moreover have "store_cells w' \<subseteq> store_cells w"
    using user_copies.owned_gdelete by (auto simp: store_cells_def w'_def)
  ultimately have "apart w'" using w by (auto simp: apart_def w'_def)
  with step show ?thesis by blast
qed

lemma apart_delete_model:
  fixes w i
  defines "w' \<equiv> w\<lparr>hw_models := gdelete i (hw_models w), hw_log := hw_log w @ [OpDeleteModel i]\<rparr>"
  assumes w: "apart w"
  shows "apart w' \<and> store_step (Memory id id) (OpDeleteModel i) (stored w) = Some (None, stored w')"
proof -
  have step: "store_step (Memory id id) (OpDeleteModel i) (stored w) = Some (None, stored w')"
    by (simp add: w'_def Memory_def Memory_DeleteModel_def stored_def model_copies.map_val_gdelete)
  have "mem_inv (stored w')"
    using Memory_step [of "stored w" "OpDeleteModel i" id id] step w by (auto simp: apart_def)
  moreover have "store_cells w' \<subseteq> store_cells w"
    using model_copies.owned_gdelete by (auto simp: store_cells_def w'_def)
  ultimately have "apart w'" using w by (auto simp: apart_def w'_def)
  with step show ?thesis by blast
qed

lemma store_run_snoc:
  "store_run S xs s = Some (es, s1) \<Longrightarrow> store_step S x s1 = Some (e, s2) \<Longrightarrow>
     store_run S (xs @ [x]) s = Some (es @ [e], s2)"
proof (induction xs arbitrary: s es)
  case (Cons y ys)
  then show ?case by (auto split: Option.bind_splits)
qed simp

text \<open>However the callers use what they hold, the store is what the calls left.\<close>

definition logged :: "hworld \<Rightarrow> bool" where
  "logged w \<longleftrightarrow> (\<exists>es. store_run (Memory id id) (hw_log w) New = Some (es, stored w))"

lemma logged_more:
  assumes "logged w" and "store_step (Memory id id) x (stored w) = Some (e, stored w')"
    and "hw_log w' = hw_log w @ [x]"
  shows "logged w'"
  using assms store_run_snoc unfolding logged_def by metis

lemma logged_same: "logged w \<Longrightarrow> stored w' = stored w \<Longrightarrow> hw_log w' = hw_log w \<Longrightarrow> logged w'"
  by (simp add: logged_def)

lemma hruns_apart: "hruns w \<Longrightarrow> apart w \<and> logged w"
proof (induction rule: hruns.induct)
  case begins
  have "stored empty_world = New"
    by (simp add: stored_def empty_world_def New_def gmake_def map_val_def)
  then show ?case
    by (simp add: apart_def logged_def mem_inv_New store_cells_def owned_def gmake_def heap_ok_def)
       (simp add: empty_world_def)
next
  case (makes w c a h)
  then have w: "apart w" "logged w" by blast+
  note n = new_cell_facts [OF makes.hyps(2) apartD(1) [OF w(1)]]
  have "insert a (hw_known w) \<subseteq> hw_known w \<union> new_cells (hw_heap w) h" using n(3,4) by (auto simp: new_cells_def)
  from apart_grows [OF w(1) n(1,2) this] show ?case using logged_same [OF w(2)] by simp
next
  case (writes w a c)
  then show ?case using apart_write [of w a c] logged_same [of w] by simp
next
  case (reads w A h)
  then have w: "apart w" "logged w" by blast+
  note e = h_reads_extends [OF w(1) reads.hyps(2)]
  then have "hw_known w \<union> A \<subseteq> hw_known w \<union> new_cells (hw_heap w) h" by blast
  from apart_grows [OF w(1) _ _ this] e show ?case using logged_same [OF w(2)] by simp
next
  case (sync_user w p e m h)
  then have w: "apart w" "logged w" by blast+
  from apart_sync_user [OF w(1) sync_user.hyps(2,3)] logged_more [OF w(2)] show ?case by fastforce
next
  case (sync_model w p e m h)
  then have w: "apart w" "logged w" by blast+
  from apart_sync_model [OF w(1) sync_model.hyps(2,3)] logged_more [OF w(2)] show ?case by fastforce
next
  case (delete_user w i)
  then have w: "apart w" "logged w" by blast+
  from apart_delete_user [OF w(1)] logged_more [OF w(2)] show ?case by fastforce
next
  case (delete_model w i)
  then have w: "apart w" "logged w" by blast+
  from apart_delete_model [OF w(1)] logged_more [OF w(2)] show ?case by fastforce
qed

section \<open>What the callers get\<close>

text \<open>
  A read returns what \<open>MemoryStore\<close> returns, a list in whatever order, and from that no cell is
  reached that is the store's or that a caller already had.
\<close>

definition returns_copy ::
    "'h kind \<Rightarrow> (heap \<Rightarrow> 'h \<Rightarrow> 'a option) \<Rightarrow> (heap \<Rightarrow> 'h \<Rightarrow> addr set) \<Rightarrow> hworld
      \<Rightarrow> (addr option result \<times> heap) outcome \<Rightarrow> 'a ptr result outcome \<Rightarrow> bool" where
  "returns_copy K val refs w res answer \<longleftrightarrow>
     (\<exists>r h. res = Some (r, h) \<and> answer = Some (map_sum (\<lambda>e. e) (ptr_val K val h) r)
        \<and> reached K refs h r \<inter> (hw_known w \<union> store_cells w) = {})"

definition returns_copies ::
    "(heap \<Rightarrow> 'h \<Rightarrow> 'a option) \<Rightarrow> (heap \<Rightarrow> 'h \<Rightarrow> addr set) \<Rightarrow> hworld
      \<Rightarrow> ('h list \<times> heap) outcome \<Rightarrow> 'a list result outcome \<Rightarrow> bool" where
  "returns_copies val refs w res answer \<longleftrightarrow>
     (\<exists>xs h vs ws. res = Some (xs, h) \<and> map (val h) xs = map Some vs
        \<and> answer = Some (Inr ws) \<and> mset ws = mset vs
        \<and> reached_all refs h xs \<inter> (hw_known w \<union> store_cells w) = {})"

lemma new_cells_apart:
  assumes "apart w" and "A \<subseteq> new_cells (hw_heap w) h"
  shows "A \<inter> (hw_known w \<union> store_cells w) = {}"
proof -
  have "hw_known w \<union> store_cells w \<subseteq> {..<hp_next (hw_heap w)}"
    using assms(1) apartD(4) [OF assms(1)] by (simp add: apart_def)
  with assms(2) show ?thesis by (fastforce simp: new_cells_def)
qed

lemma get_user_returns:
  assumes w: "apart w"
  shows "returns_copy user_kind user_val user_refs w
     (h_Get user_kind ''user'' i (hw_users w) (hw_heap w)) (Memory_GetUser (stored w) i)"
proof -
  have "\<exists>r h. h_Get user_kind ''user'' i (hw_users w) (hw_heap w) = Some (r, h)
      \<and> Memory_GetUser (stored w) i = Some (map_sum (\<lambda>e. e) (ptr_val user_kind user_val h) r)"
    using user_copies.get_copies [OF apartD(1,2) [OF w], where i = i and what = "''user''"]
      mem_lookup(1,3) [of "stored w" i] w
    by (cases "users_of (stored w) i")
       (auto simp: Memory_GetUser_def apart_def stored_def pred_option_def split: option.splits)
  then show ?thesis
    using user_copies.get_extends [OF apartD(1,2) [OF w]] new_cells_apart [OF w]
    unfolding returns_copy_def by blast
qed

lemma get_model_returns:
  assumes w: "apart w"
  shows "returns_copy model_kind model_val model_refs w
     (h_Get model_kind ''model'' i (hw_models w) (hw_heap w)) (Memory_GetModel (stored w) i)"
proof -
  have "\<exists>r h. h_Get model_kind ''model'' i (hw_models w) (hw_heap w) = Some (r, h)
      \<and> Memory_GetModel (stored w) i = Some (map_sum (\<lambda>e. e) (ptr_val model_kind model_val h) r)"
    using model_copies.get_copies [OF apartD(1,3) [OF w], where i = i and what = "''model''"]
      mem_lookup(2,4) [of "stored w" i] w
    by (cases "models_of (stored w) i")
       (auto simp: Memory_GetModel_def apart_def stored_def pred_option_def split: option.splits)
  then show ?thesis
    using model_copies.get_extends [OF apartD(1,3) [OF w]] new_cells_apart [OF w]
    unfolding returns_copy_def by blast
qed

context deep_copied
begin

text \<open>A list against the loop over the values.\<close>

lemma list_values:
  assumes ok: "heap_ok h" and m: "ptr_map ident wf (map_val K val h m)" and ord: "range_order ord"
    and keep: "\<forall>x v. val h x = Some v \<longrightarrow> keep x = keepv v" and into: "\<And>v. wf v \<Longrightarrow> into v = Some v"
  shows "\<exists>xs h' vs ws. h_List K ord keep m h = Some (xs, h') \<and> map (val h') xs = map Some vs
     \<and> copy_all into keepv (map snd (entries (map_val K val h m))) [] = Some ws \<and> mset ws = mset vs
     \<and> reached_all refs h' xs \<subseteq> new_cells h h'"
proof -
  let ?v = "\<lambda>kp. the (ptr_val K val h (snd kp))"
  have ent: "ptr_val K val h (snd kp) = Some (?v kp) \<and> wf (?v kp)" if "kp \<in> set (entries m)" for kp
    using map_entry [OF m, of "fst kp" "snd kp"] that by auto
  have "map snd (entries (map_val K val h m)) = map Some (map ?v (entries m))"
    using ent by (auto simp: entries_map_val)
  moreover have "into v = Some v" if "v \<in> set (map ?v (entries m))" for v using that ent into by auto
  ultimately have ws: "copy_all into keepv (map snd (entries (map_val K val h m))) []
      = Some (filter keepv (map ?v (entries m)))"
    using copy_all_total [of "map ?v (entries m)" into keepv "[]"] by simp
  have "mset (map ?v (ord (entries m))) = mset (map ?v (entries m))"
    using range_order_mset [OF ord] by (metis mset_map)
  then have "mset (filter keepv (map ?v (entries m))) = mset (filter keepv (map ?v (ord (entries m))))"
    by (simp only: mset_filter)
  with ws list_copies [OF ok m ord keep] show ?thesis by (auto simp: comp_def reached_all_def)
qed

end

lemma list_users_returns:
  assumes w: "apart w" and ord: "range_order ord"
  shows "returns_copies user_val user_refs w
     (h_List user_kind ord (\<lambda>_. True) (hw_users w) (hw_heap w)) (Memory_ListUsers id (stored w))"
  using user_copies.list_values [OF apartD(1,2) [OF w] ord, of "\<lambda>_. True" "\<lambda>_. True" UserSpec_DeepCopyInto]
    new_cells_apart [OF w]
  by (auto simp: returns_copies_def Memory_ListUsers_def stored_def UserSpec_DeepCopyInto_id)

lemma list_models_returns:
  assumes w: "apart w" and ord: "range_order ord"
  shows "returns_copies model_val model_refs w
     (h_List model_kind ord (\<lambda>_. True) (hw_models w) (hw_heap w)) (Memory_ListModels id (stored w))"
    and "returns_copies model_val model_refs w
     (h_List model_kind ord (\<lambda>m. hm_Type m = t) (hw_models w) (hw_heap w)) (Memory_ListModelsByType id (stored w) t)"
  using model_copies.list_values [OF apartD(1,3) [OF w] ord, of "\<lambda>_. True" "\<lambda>_. True" ModelSpec_DeepCopyInto]
    model_copies.list_values [OF apartD(1,3) [OF w] ord model_keep, of ModelSpec_DeepCopyInto t] new_cells_apart [OF w]
  by (auto simp: returns_copies_def Memory_ListModels_def Memory_ListModelsByType_def stored_def ModelSpec_DeepCopyInto_id)

section \<open>A copy and its original\<close>

text \<open>
  A pointer's deep copy: it stands for the same, no cell of the original is written, and whatever is
  written to a cell that one of the two reaches, the other stands for what it did.
\<close>

definition copied_apart ::
    "'h kind \<Rightarrow> (heap \<Rightarrow> 'h \<Rightarrow> 'a option) \<Rightarrow> (heap \<Rightarrow> 'h \<Rightarrow> addr set) \<Rightarrow> heap \<Rightarrow> addr option \<Rightarrow> 'a \<Rightarrow> bool"
where
  "copied_apart K val refs h p v \<longleftrightarrow>
     (\<exists>q h'. h_DeepCopy K p h = Some (Some q, h') \<and> ptr_val K val h' (Some q) = Some v
        \<and> (\<forall>b. hp_cells h b \<noteq> None \<longrightarrow> hp_cells h' b = hp_cells h b)
        \<and> (\<forall>b \<in> ptr_refs K refs h' (Some q). \<forall>c. ptr_val K val (put_cell b c h') p = Some v)
        \<and> (\<forall>b \<in> ptr_refs K refs h' p. \<forall>c. ptr_val K val (put_cell b c h') (Some q) = Some v))"

context deep_copied
begin

lemma pointer_copied_apart:
  assumes ok: "heap_ok h" and v: "ptr_val K val h p = Some v" and w: "wf v"
  shows "copied_apart K val refs h p v"
proof -
  from pointer_copy [OF assms] obtain q h' where q: "h_DeepCopy K p h = Some (Some q, h')"
      "ptr_val K val h' (Some q) = Some v" "extends h h'" "heap_ok h'"
      "ptr_refs K refs h' (Some q) \<subseteq> new_cells h h'" by blast
  note b = ptr_bounded [OF ok v]
  note f = ptr_frame [OF extends_same [OF q(3) b]]
  have disj: "ptr_refs K refs h' p \<inter> ptr_refs K refs h' (Some q) = {}"
    using b q(5) f(2) by (fastforce simp: new_cells_def)
  have other: "ptr_val K val (put_cell a c h') r = ptr_val K val h' r" if "a \<notin> ptr_refs K refs h' r" for a c r
    by (rule ptr_frame(1)) (use that in \<open>auto simp: same_on_def put_cell_def\<close>)
  have "\<forall>b \<in> ptr_refs K refs h' (Some q). \<forall>c. ptr_val K val (put_cell b c h') p = Some v"
      "\<forall>b \<in> ptr_refs K refs h' p. \<forall>c. ptr_val K val (put_cell b c h') (Some q) = Some v"
    using other [of _ p] other [of _ "Some q"] disj q(2) f(1) v by (metis disjoint_iff)+
  moreover have "\<forall>b. hp_cells h b \<noteq> None \<longrightarrow> hp_cells h' b = hp_cells h b"
    using ok q(3) by (auto simp: heap_ok_def extends_def same_on_def)
  ultimately show ?thesis using q(1,2) unfolding copied_apart_def by blast
qed

end

end
