(* ===== verification/AliasingProperties.thy ===== *)
theory AliasingProperties
  imports Demo Aliasing
begin

text \<open>
  The property of the store among callers that change what they hold, and a run in which one
  does.
\<close>

section \<open>A caller that changes what it passed and what it got\<close>

definition demo_attrs :: "(string \<times> string) list" where
  "demo_attrs = [(''role'', ''admin'')]"

text \<open>The caller makes a map (cell 0) and a user with it (cell 1), and syncs the user.\<close>

definition caller_heap :: heap where
  "caller_heap = \<lparr>hp_cells = [0 \<mapsto> StringMap demo_attrs, 1 \<mapsto> UserCell \<lparr>hu_Id = ''alice'', hu_Attributes = Some 0\<rparr>],
     hp_next = 2\<rparr>"

definition synced_heap :: heap where
  "synced_heap = \<lparr>hp_cells = (hp_cells caller_heap)
        (2 \<mapsto> UserCell \<lparr>hu_Id = ''alice'', hu_Attributes = Some 3\<rparr>, 3 \<mapsto> StringMap demo_attrs),
     hp_next = 4\<rparr>"

definition synced_world :: "heap \<Rightarrow> hworld" where
  "synced_world h = \<lparr>hw_heap = h, hw_users = GoMap [(''alice'', Some 2)], hw_models = gmake,
     hw_known = {0, 1}, hw_log = [OpSyncUser (Some alice)]\<rparr>"

lemma caller_user: "ptr_val user_kind user_val caller_heap (Some 1) = Some alice"
  by (simp add: ptr_val_def deref_def caller_heap_def user_kind_def user_val_def alice_def demo_attrs_def)

lemma caller_sync:
  "h_Sync user_kind ''user'' (Some 1) gmake caller_heap = Some (None, GoMap [(''alice'', Some 2)], synced_heap)"
proof -
  have "(hp_cells caller_heap)(2 \<mapsto> UserCell \<lparr>hu_Id = [], hu_Attributes = None\<rparr>, 3 \<mapsto> StringMap demo_attrs,
       2 \<mapsto> UserCell \<lparr>hu_Id = ''alice'', hu_Attributes = Some 3\<rparr>) = hp_cells synced_heap"
    by (auto simp: synced_heap_def fun_eq_iff)
  then show ?thesis
    by (simp add: h_Sync_def h_DeepCopy_def deref_def caller_heap_def user_kind_def hUserSpec_DeepCopyInto_def
        new_cell_def put_cell_def demo_attrs_def gmake_def synced_heap_def fun_upd_twist)
qed

lemma caller_world: "hruns (synced_world synced_heap)"
proof -
  let ?w = "\<lambda>h A. \<lparr>hw_heap = h, hw_users = gmake, hw_models = gmake, hw_known = A, hw_log = []\<rparr>"
  let ?h1 = "\<lparr>hp_cells = [0 \<mapsto> StringMap demo_attrs], hp_next = 1\<rparr>"
  have "hruns (?w ?h1 {0})"
    using hruns.makes [OF hruns.begins, of "StringMap demo_attrs" 0 ?h1]
    by (simp add: empty_world_def new_cell_def)
  from hruns.makes [OF this, of "UserCell \<lparr>hu_Id = ''alice'', hu_Attributes = Some 0\<rparr>" 1 caller_heap]
  have "hruns (?w caller_heap {0, 1})"
    by (simp add: new_cell_def caller_heap_def insert_commute numeral_2_eq_2)
  from hruns.sync_user [OF this, where p = "Some 1" and e = None and h = synced_heap] show ?thesis
    using caller_sync caller_user by (simp add: typed_def good_user_wf synced_world_def)
qed

text \<open>Then it reads the user back (cell 4, with the map of cell 5), and overwrites all four cells.\<close>

definition read_heap :: heap where
  "read_heap = \<lparr>hp_cells = (hp_cells synced_heap)
        (4 \<mapsto> UserCell \<lparr>hu_Id = ''alice'', hu_Attributes = Some 5\<rparr>, 5 \<mapsto> StringMap demo_attrs),
     hp_next = 6\<rparr>"

lemma caller_reads:
  "h_Get user_kind ''user'' ''alice'' (GoMap [(''alice'', Some 2)]) synced_heap = Some (Inr (Some 4), read_heap)"
proof -
  have "(hp_cells synced_heap)(4 \<mapsto> UserCell \<lparr>hu_Id = [], hu_Attributes = None\<rparr>, 5 \<mapsto> StringMap demo_attrs,
       4 \<mapsto> UserCell \<lparr>hu_Id = ''alice'', hu_Attributes = Some 5\<rparr>) = hp_cells read_heap"
    by (auto simp: read_heap_def fun_eq_iff)
  then show ?thesis
    by (simp add: h_Get_def h_DeepCopy_def deref_def synced_heap_def caller_heap_def user_kind_def
        hUserSpec_DeepCopyInto_def new_cell_def put_cell_def demo_attrs_def glookup_def read_heap_def fun_upd_twist)
qed

definition overwritten_heap :: heap where
  "overwritten_heap = put_cell 4 (UserCell \<lparr>hu_Id = ''mallory'', hu_Attributes = Some 5\<rparr>) (put_cell 5 (StringMap [])
     (put_cell 1 (UserCell \<lparr>hu_Id = ''mallory'', hu_Attributes = None\<rparr>) (put_cell 0 (StringMap []) read_heap)))"

definition reader_world :: "heap \<Rightarrow> hworld" where
  "reader_world h = (synced_world h)\<lparr>hw_known := {0, 1, 4, 5}\<rparr>"

lemma caller_overwrites: "hruns (reader_world overwritten_heap)"
proof -
  have "h_reads (synced_world synced_heap) (reached user_kind user_refs read_heap (Inr (Some 4) :: addr option result)) read_heap"
    by (rule h_reads.get_user [where i = "''alice''"]) (simp add: synced_world_def caller_reads)
  moreover have "reached user_kind user_refs read_heap (Inr (Some 4) :: addr option result) = {4, 5}"
    by (simp add: reached_def ptr_refs_def deref_def user_kind_def user_refs_def read_heap_def)
  ultimately have "hruns (reader_world read_heap)"
    using hruns.reads [OF caller_world, of "{4, 5}" read_heap] by (simp add: synced_world_def reader_world_def insert_commute)
  then have w: "hruns (reader_world h) \<Longrightarrow> a \<in> {0, 1, 4, 5} \<Longrightarrow> hruns (reader_world (put_cell a c h))" for h a c
    using hruns.writes [of "reader_world h" a c] by (simp add: synced_world_def reader_world_def)
  show ?thesis
    unfolding overwritten_heap_def by (intro w \<open>hruns (reader_world read_heap)\<close>) simp_all
qed

section \<open>The properties\<close>

text \<open>
  C17. Whatever its callers write, at any time, to the structs, maps and arrays that they passed to
  the memory store or that can be reached from what it returned to them, the store holds what the
  calls were given when they were made; each read, of one spec or of a list, returns the values it
  holds, in cells that neither the store nor a caller had before.
\<close>

theorem store_isolated:
  assumes "hruns w"
  shows "(\<exists>es. store_run (Memory id id) (hw_log w) New = Some (es, stored w))
     \<and> hw_known w \<inter> store_cells w = {}
     \<and> (\<forall>i. returns_copy user_kind user_val user_refs w
          (h_Get user_kind ''user'' i (hw_users w) (hw_heap w)) (Memory_GetUser (stored w) i))
     \<and> (\<forall>i. returns_copy model_kind model_val model_refs w
          (h_Get model_kind ''model'' i (hw_models w) (hw_heap w)) (Memory_GetModel (stored w) i))
     \<and> (\<forall>ord. range_order ord \<longrightarrow> returns_copies user_val user_refs w
          (h_List user_kind ord (\<lambda>_. True) (hw_users w) (hw_heap w)) (Memory_ListUsers id (stored w)))
     \<and> (\<forall>ord. range_order ord \<longrightarrow> returns_copies model_val model_refs w
          (h_List model_kind ord (\<lambda>_. True) (hw_models w) (hw_heap w)) (Memory_ListModels id (stored w)))
     \<and> (\<forall>ord t. range_order ord \<longrightarrow> returns_copies model_val model_refs w
          (h_List model_kind ord (\<lambda>m. hm_Type m = t) (hw_models w) (hw_heap w))
          (Memory_ListModelsByType id (stored w) t))"
proof -
  from hruns_apart [OF assms] have w: "apart w" "logged w" by blast+
  then have "hw_known w \<inter> store_cells w = {}" by (simp add: apart_def)
  with w(2) get_user_returns [OF w(1)] get_model_returns [OF w(1)] list_users_returns [OF w(1)]
    list_models_returns [OF w(1)]
  show ?thesis unfolding logged_def by blast
qed

lemma store_isolated_witness:
  "store_run (Memory id id) [OpSyncUser (Some alice)] New = Some ([None], stored (reader_world overwritten_heap))
   \<and> ptr_val user_kind user_val overwritten_heap (Some 1) \<noteq> Some alice
   \<and> ptr_val user_kind user_val overwritten_heap (Some 4) \<noteq> Some alice"
proof -
  from store_isolated [OF caller_overwrites] obtain es where
    es: "store_run (Memory id id) [OpSyncUser (Some alice)] New = Some (es, stored (reader_world overwritten_heap))"
    by (auto simp: reader_world_def synced_world_def)
  then have "es = [None]"
    by (auto simp: New_def Memory_def Memory_SyncUser_def gmake_def good_user_wf)
  then show ?thesis
    using es by (simp add: ptr_val_def deref_def overwritten_heap_def put_cell_def user_kind_def user_val_def alice_def)
qed

text \<open>
  C27. The generated copies are deep. On any heap, the copy of a pointer to a user's or a model's spec
  stands for the same spec and leaves the original as it was; from then on, whatever is written to a
  struct, map or array that one of the two reaches, nested maps and arrays included, the other stands
  for the spec that was copied. The copy of nil is nil. Go guarantees that a map has no key twice.
\<close>

theorem generated_copies_deep:
  assumes "heap_ok h"
  shows "(\<forall>p u. ptr_val user_kind user_val h p = Some u \<longrightarrow> wf_user u \<longrightarrow>
            copied_apart user_kind user_val user_refs h p u)
     \<and> (\<forall>p m. ptr_val model_kind model_val h p = Some m \<longrightarrow> wf_model m \<longrightarrow>
            copied_apart model_kind model_val model_refs h p m)
     \<and> h_DeepCopy user_kind None h = Some (None, h) \<and> h_DeepCopy model_kind None h = Some (None, h)"
  using user_copies.pointer_copied_apart [OF assms] model_copies.pointer_copied_apart [OF assms]
  by (simp add: h_DeepCopy_def)

lemma generated_copies_deep_witness:
  "copied_apart user_kind user_val user_refs caller_heap (Some 1) alice"
proof -
  have "heap_ok caller_heap" by (simp add: heap_ok_def caller_heap_def)
  from generated_copies_deep [OF this] caller_user show ?thesis by (simp add: good_user_wf)
qed

end
