(* ===== verification/SidecarProperties.thy ===== *)
theory SidecarProperties
  imports Demo
begin

text \<open>The semantic selector and its sidecar together.\<close>

section \<open>The most similar adapter\<close>

text \<open>
  C22. With the sidecar at the other end, the semantic selector never panics; the adapter it selects
  is one of the offered adapters of the requested base model, and has a description that is at least
  as similar to the prompt as every description of every such adapter, and not below the threshold.
  When it selects none, the prompt is empty or every description is below the threshold or at the
  least similarity, -1. That holds in whatever state the sidecar's cache is.
\<close>

theorem sidecar_best_adapter:
  assumes "embeds M e" and "web_conforms L W S" and "scores_in M e S"
    and "connected H (sel_url s @ pickEndpoint) W M"
    and "distinct (map m_Id ms)" and "\<forall>m \<in> set ms. m_Id m \<noteq> [] \<and> candidate_utf8 (candidate_of m)"
    and "valid_utf8 (PromptText ir)"
  shows "\<exists>p. Semantic_Pick L H s ir (map Some ms) = Some (p, p \<noteq> None)
     \<and> (let es = filter (eligible (ir_ModelID ir)) ms;
            descs = \<lambda>m. set (elems (sp_Descriptions (m_SelectionPolicy m)));
            sim = similarity M e (PromptText ir)
        in (\<forall>m. p = Some m \<longrightarrow> m \<in> set es
              \<and> (\<exists>d \<in> descs m. \<not> sim d < sel_threshold s \<and> (\<forall>m' \<in> set es. \<forall>d' \<in> descs m'. \<not> sim d < sim d')))
           \<and> (p = None \<longrightarrow> PromptText ir = []
              \<or> (\<forall>m \<in> set es. \<forall>d \<in> descs m. sim d < sel_threshold s \<or> \<not> F_Fin (- 1) < sim d)))"
proof -
  obtain p where "Semantic_Pick L H s ir (map Some ms) = Some (p, p \<noteq> None)"
    "\<forall>m. p = Some m \<longrightarrow> m \<in> set (filter (eligible (ir_ModelID ir)) ms)
       \<and> (\<exists>d \<in> set (elems (sp_Descriptions (m_SelectionPolicy m))).
            \<not> similarity M e (PromptText ir) d < sel_threshold s
            \<and> (\<forall>m' \<in> set (filter (eligible (ir_ModelID ir)) ms). \<forall>d' \<in> set (elems (sp_Descriptions (m_SelectionPolicy m'))).
                 \<not> similarity M e (PromptText ir) d < similarity M e (PromptText ir) d'))"
    "p = None \<longrightarrow> PromptText ir = [] \<or> (\<forall>m \<in> set (filter (eligible (ir_ModelID ir)) ms).
       \<forall>d \<in> set (elems (sp_Descriptions (m_SelectionPolicy m))).
         similarity M e (PromptText ir) d < sel_threshold s \<or> \<not> F_Fin (- 1) < similarity M e (PromptText ir) d)"
    by (rule Semantic_Pick_similar [OF assms refl refl]) blast
  then show ?thesis unfolding Let_def by blast
qed

lemma sidecar_best_adapter_witness:
  "Semantic_Pick demo_lib demo_http demo_selector demo_ir (map Some [medlora]) = Some (Some medlora, True)"
proof -
  have "\<forall>m \<in> set [medlora]. m_Id m \<noteq> [] \<and> candidate_utf8 (candidate_of m)" using demo_candidate by simp
  from sidecar_best_adapter [OF demo_embeds demo_web_conforms demo_scores_in demo_connected _ this demo_prompt(3)]
  obtain p where p: "Semantic_Pick demo_lib demo_http demo_selector demo_ir (map Some [medlora]) = Some (p, p \<noteq> None)"
      "\<forall>m. p = Some m \<longrightarrow> m \<in> set (filter (eligible (ir_ModelID demo_ir)) [medlora])"
    and none: "p = None \<longrightarrow> PromptText demo_ir = []
      \<or> (\<forall>m \<in> set (filter (eligible (ir_ModelID demo_ir)) [medlora]). \<forall>d \<in> set (elems (sp_Descriptions (m_SelectionPolicy m))).
           similarity demo_embedder demo_embedding (PromptText demo_ir) d < sel_threshold demo_selector
           \<or> \<not> F_Fin (- 1) < similarity demo_embedder demo_embedding (PromptText demo_ir) d)"
    unfolding Let_def by fastforce
  have "p \<noteq> None" using none by (auto simp: demo_prompt demo_candidate demo_selector_def demo_similarity)
  with p show ?thesis by (auto simp: demo_prompt demo_candidate)
qed

section \<open>The request\<close>

text \<open>
  C29. The body that the selector posts is a JSON document, and the sidecar reads from it the prompt
  and, in their order, the id and the descriptions of every candidate: all of them, or it refuses
  the request when the descriptions of one are a nil slice. The selector offers no such candidate.
\<close>

theorem sidecar_reads_request:
  assumes "valid_utf8 prompt" and "list_all candidate_utf8 cands"
  shows "(parse_json (pick_body prompt cands) \<bind> PickRequest_of_json) =
       (if \<exists>c \<in> set cands. ca_Descriptions c = NilSlice then None else Some (prompt, map sent cands))
     \<and> (\<forall>m. eligible base m \<longrightarrow> ca_Descriptions (candidate_of m) \<noteq> NilSlice)"
proof -
  have "parse_json (pick_body prompt cands) = Some (pickRequest_json prompt cands)"
    unfolding pick_body_def
    by (rule parse_print [OF pickRequest_json_ok [OF assms]]) (simp add: maxNestingDepth_def)
  moreover have "\<forall>c \<in> set cands. candidate_utf8 c" using assms(2) by (simp add: list_all_iff)
  then have "PickRequest_of_json (pickRequest_json prompt cands) =
      (if \<exists>c \<in> set cands. ca_Descriptions c = NilSlice then None else Some (prompt, map sent cands))"
    using request_arrives [OF assms(1), of cands] request_refused [of _ cands] by auto
  ultimately show ?thesis by (auto simp: eligible_def candidate_of_def)
qed

lemma sidecar_reads_request_witness:
  "parse_json (pick_body ''hi'' [candidate_of medlora]) \<bind> PickRequest_of_json
     = Some (''hi'', [\<lparr>model_id = ''med'', descriptions = [''medicine'']\<rparr>])"
proof -
  have "valid_utf8 ''hi''" by (simp add: ascii_literal byte_def)
  from sidecar_reads_request [OF this, of "[candidate_of medlora]" "''llama''"] demo_candidate
  show ?thesis by (auto simp: sent_def candidate_of_def medlora_def)
qed

end
