(* ===== verification/Spec2Isabelle.thy ===== *)
theory Spec2Isabelle
  imports Properties ToolProperties ReplicaProperties CacheProperties LockingProperties
    AliasingProperties SidecarProperties Flags
begin

text \<open>
  A verification library for secure-inference, the external authorization server that an
  Envoy gateway asks before it lets a request reach a language model. Users and models are
  Kubernetes resources; the server copies them into a store, authenticates requests by JWT,
  decides them with an attribute policy, and may rewrite the requested base model to one of its
  LoRA adapters.

  \<^bold>\<open>Go\<close>
  \<^item> \<open>Prelude\<close>: errors as values (\<open>'a result\<close>, with \<open>Wrap\<close> for the \<open>%w\<close> verb), panics as \<open>None\<close> of
    \<open>'a outcome\<close>, pointers as options, the collections and rules the proofs share.
  \<^item> \<open>GoData\<close>: maps with nil, as association lists (a range loop may take any order, see
    \<open>range_order\<close>), and slices with nil. \<open>GoStrings\<close>: strings are bytes; runes, \<open>strings.Fields\<close>.
    \<open>GoConv\<close>: comparisons of \<open>float64\<close>, the \<open>%q\<close> verb, \<open>strings.Join\<close>.
  \<^item> \<open>Json\<close>, \<open>JsonEncode\<close>, \<open>JsonStream\<close>: the scanner of \<open>encoding/json\<close> as a state machine over
    bytes, the encoder, and the decoder of a stream; \<open>parse_print\<close> is their round trip.

  \<^bold>\<open>The program\<close>
  \<^item> \<open>ApiTypes\<close> (\<open>api/v1alpha1\<close>): specs and resources, their deep copies and JSON documents.
  \<^item> \<open>Config\<close> (\<open>pkg/config\<close>): the configuration, its defaults and its validation.
  \<^item> \<open>Store\<close> (\<open>pkg/store\<close>): the interfaces with their laws as locales (\<open>read_store\<close>,
    \<open>good_store\<close>, \<open>rw_store\<close>) over two abstract maps. \<open>MemoryStore\<close> (\<open>pkg/store/memory\<close>): the
    implementation, which refines them; the locale \<open>memory_orders\<close> fixes the range orders.
  \<^item> \<open>Rego\<close> (\<open>access.rego\<close>): the embedded policy over JSON documents and the attribute rule
    \<open>abac\<close> that it decides. \<open>PolicyEngine\<close> (\<open>pkg/policyengine\<close>): the engine around the OPA
    library; \<open>opa_conforms\<close> says that the library evaluates the module by the policy's meaning.
  \<^item> \<open>Request\<close> (\<open>pkg/types\<close>): from Envoy's check request to the parsed request.
  \<^item> \<open>Auth\<close> (\<open>pkg/auth\<close>): key loading, tokens, the authenticator; \<open>gojwt_conforms\<close> is what
    golang-jwt documents, \<open>bearer_identity\<close> the abstract meaning of a header.
  \<^item> \<open>Selector\<close> (\<open>pkg/adapterselection\<close>): the semantic selector and its exchange with the sidecar.
  \<^item> \<open>Server\<close>, \<open>ServerLaws\<close> (\<open>pkg/server\<close>): the check. The store may change between its reads:
    \<open>sigma n\<close> is the store at the n-th read. The locale \<open>ext_authz\<close> derives the laws of the check
    from the contracts of the components.
  \<^item> \<open>Controller\<close>, \<open>Deployment\<close> (\<open>pkg/controller\<close>): the reconcilers, \<open>kube_conforms\<close> for the
    client they use, and \<open>process_among\<close>, the reachable states of a process that reconciles while
    others change the cluster by any relation; \<open>outside\<close> is what the others must respect: a resource
    with the finalizer keeps it, its id and its existence. \<open>Resync\<close>: what a round over all resources
    makes of its store.
  \<^item> \<open>Startup\<close> (\<open>pkg/store/factory.go\<close>, \<open>cmd/secure-inference\<close>): from the configuration to the
    server; \<open>started_deployment\<close> shows that what starts meets \<open>ext_authz\<close>.
  \<^item> \<open>GoOs\<close>: files, with \<open>disk_conforms\<close> for what the operating system documents. \<open>Admin\<close>,
    \<open>AdminLaws\<close> (\<open>pkg/admin\<close>): certificates and tokens; \<open>x509_conforms\<close> and \<open>signing_conforms\<close>
    are what PEM, X.509 and golang-jwt document. \<open>Cli\<close> (\<open>cmd/llmd-admin\<close>): the
    commands and the program; \<open>cobra_conforms\<close> is what its command-line library documents of
    commands and flags. What the library handles itself (help, completion) may print anything.
  \<^item> \<open>Customizer\<close>, \<open>CustomizerLaws\<close> (\<open>cmd/deployment-customizer\<close>): edits of YAML documents, shown
    equal to updates of single keys (\<open>edited_service\<close>); \<open>section_edited\<close> says what may change.
  \<^item> \<open>Runnable\<close> (\<open>pkg/runnable\<close>): the gRPC server and the goroutine that stops it as a state machine, and
    leader election.
    \<open>Replicas\<close>: several processes on one cluster, with and without leader election.
  \<^item> \<open>Caches\<close>: the reconcilers with a client that reads from a cache and may lose the answer of an
    update; \<open>cached_conforms\<close> is what such a client documents, \<open>cached_process\<close> the process with it
    among others that make any changes. What is shown for an id needs that they keep the resources
    with it that carry the finalizer (\<open>user_kept\<close>, \<open>model_kept\<close>).
  \<^item> \<open>Locking\<close> (\<open>pkg/store/memory\<close> again): the store's methods in small steps, by goroutines that
    share its lock; \<open>calls_ok\<close> is the invariant by which every call acts as one step of \<open>MemoryStore\<close>.
  \<^item> \<open>Aliasing\<close> (\<open>pkg/store/memory\<close>, \<open>zz_generated.deepcopy.go\<close> again): the store's methods and the
    generated copies on a heap of structs, maps and arrays; the locale \<open>deep_copied\<close> is the contract of
    a deep copy, \<open>hruns\<close> the runs in which callers write to whatever they passed or were given,
    \<open>apart\<close> the invariant that they reach no cell of the store, \<open>copied_apart\<close> what a deep copy is.
  \<^item> \<open>Flags\<close> (\<open>cmd/secure-inference\<close>, its chart): the \<open>flag\<close> package and \<open>strconv.ParseInt\<close>, the
    command line, and the process from its arguments to its exit code.
  \<^item> \<open>Sidecar\<close> (\<open>sidecar/adapter-selection-fastembed\<close>): the service that scores the candidates, with
    its cache of embeddings; \<open>cache_right\<close> is its invariant, by which no answer depends on what is
    cached, and \<open>connected\<close> the exchange between it and the selector. \<open>SidecarLaws\<close>: which of
    the adapters offered to both is selected.
  \<^item> \<open>Demo\<close>, \<open>ToolDemo\<close>: concrete inputs, on which the hypotheses hold and the definitions run.
    \<open>Properties\<close>, \<open>SidecarProperties\<close>, \<open>ToolProperties\<close>, \<open>ReplicaProperties\<close>,
    \<open>CacheProperties\<close>, \<open>LockingProperties\<close>, \<open>AliasingProperties\<close>: the properties of single
    components, of the selector with its sidecar, of the tools, of the process in its deployment, and
    of the store among goroutines and callers; the present theory: those that span components.

  \<^bold>\<open>Not modelled\<close>
  Logging, metrics, the running of the manager, the registration of the scheme, contexts and their
  cancellation, except for the end of the gRPC server (\<open>Runnable\<close>). Specs are values and store
  calls are single steps, except in \<open>Aliasing\<close> and \<open>Locking\<close>, which justify that; which of the
  goroutines that wait gets the lock is left open, so that a call returns is shown for when no new
  calls keep coming. Replicas (\<open>Replicas\<close>) read from a cache that is up to date and among others that
  respect finalizers, and the sidecar
  takes its requests one at a time. Code outside the repository is an argument: \<open>encoding/pem\<close>,
  \<open>crypto/x509\<close>, golang-jwt, OPA, the YAML library, cobra, \<open>strconv.ParseFloat\<close>, the HTTP client,
  the Kubernetes client, and the embedding model, numpy and the web framework of the sidecar. The
  number of a JSON text that \<open>ParseFloat\<close> rejects as out of range is the argument's to decide; no
  result depends on the digits of a number. No fuel is used: every loop is a structural recursion, or
  ends because the input gets shorter (\<open>runes\<close>, \<open>unquote\<close>).
\<close>

section \<open>Authorization by the started server\<close>

text \<open>
  C1. Whatever configuration the process starts with, and however the store changes between the
  reads of a check: a parsed request for a protected path gets a response, and it is allowed
  exactly when its authorization header carries a bearer token that the configured key signed
  with an RSA method for the admin issuer, within its times, naming a registered user who,
  unless the request only lists models, meets the attribute policy of the requested model.
\<close>

theorem started_server_authorizes:
  assumes "startup V configPath = Inr (srv, s0)" and "load V configPath = Inr cfg"
    and "range_order (env_uord V)" and "range_order (env_mord V)"
    and "opa_conforms scalar (env_prepare V)" and "gojwt_conforms F V"
    and "\<forall>n. mem_good (sigma n)"
    and "ParseCheckRequest (env_golib V) request = Inr ir" and "ir_Type ir \<noteq> RequestTypeUnknown"
  shows "\<exists>k resp. LoadPublicKey V (param (cfg_Auth cfg) ''publicKeyPath'') = Inr k
     \<and> Check (env_golib V) srv sigma request = Some (Inr resp)
     \<and> (is_allowed resp \<longleftrightarrow>
         (\<exists>i. bearer_identity F k (ir_Headers ir) i \<and> users_of (sigma 0) i \<noteq> None
            \<and> (ir_Type ir = RequestTypeListModels \<or>
               (\<exists>u m. users_of (sigma 1) i = Some u \<and> models_of (sigma 2) (ir_ModelID ir) = Some m
                  \<and> abac u m))))"
  by (rule started_server_decides [OF assms]) blast

lemma started_server_authorizes_witness:
  "\<exists>resp. Check demo_lib demo_srv (\<lambda>_. demo_store) demo_request = Some (Inr resp) \<and> is_allowed resp"
proof -
  have "abac alice llama" by (simp add: abac_def demo_specs glookup_def)
  then show ?thesis
    using started_server_authorizes [of demo_env "''/etc/secure-inference/config.yaml''" demo_srv New demo_cfg "\<lambda>_. True" demo_facts
        "\<lambda>_. demo_store" demo_request demo_ir] demo_startup demo_load rego_opa_conforms demo_env_conforms
      demo_store_good demo_parse demo_identity demo_key demo_cfg_key
    by (auto simp: demo_lookup) (auto simp: demo_ir_def)
qed

text \<open>
  C2. No request, however malformed, and no change of the store during the check makes the
  started server panic or return an error to Envoy: there is always a response.
\<close>

theorem started_server_never_panics:
  assumes "startup V configPath = Inr (srv, s0)"
    and "range_order (env_uord V)" and "range_order (env_mord V)"
    and "opa_conforms scalar (env_prepare V)" and "gojwt_conforms F V"
    and "\<forall>n. mem_good (sigma n)"
  shows "\<exists>resp. Check (env_golib V) srv sigma request = Some (Inr resp)"
proof -
  obtain cfg where cfg: "load V configPath = Inr cfg" using startup_server [OF assms(1)] by blast
  show ?thesis
  proof (rule started_deployment [OF assms(1) cfg assms(2-5)])
    fix e k sel
    assume D: "ext_authz (ReadStore.truncate (Memory (env_uord V) (env_mord V))) mem_good users_of
        models_of (OPA_PolicyEngine e) abac (JWT_Authenticator V k) (bearer_identity F k) sel"
      and srv: "srv = NewExtAuthzServer (OPA_PolicyEngine e)
         (ReadStore.truncate (Memory (env_uord V) (env_mord V)))
         (JWT_Authenticator V k) sel (as_AlwaysActive (cfg_AdapterSelection cfg))"
    from ext_authz.Check_total [OF D assms(6)] show ?thesis unfolding srv by blast
  qed
qed

lemma started_server_never_panics_witness:
  "\<exists>resp. Check demo_lib demo_srv (\<lambda>n. if n = 2 then New else demo_store) None = Some (Inr resp)"
  using started_server_never_panics [of demo_env "''/etc/secure-inference/config.yaml''" demo_srv New "\<lambda>_. True" demo_facts
      "\<lambda>n. if n = 2 then New else demo_store" None] demo_startup rego_opa_conforms demo_env_conforms
    demo_store_good mem_good_New
  by simp

text \<open>
  C3. When the started server rewrites the model of a request, the user was authenticated and
  permitted the requested model, that model is a base model, adapter selection is configured and
  active for the request, and the rewrite names a LoRA adapter of that very base model that the
  store holds and whose policy the same user meets.
\<close>

theorem rewrite_only_to_permitted_adapter:
  assumes "startup V configPath = Inr (srv, s0)" and "load V configPath = Inr cfg"
    and "range_order (env_uord V)" and "range_order (env_mord V)"
    and "opa_conforms scalar (env_prepare V)" and "gojwt_conforms F V"
    and "\<forall>n. mem_good (sigma n)"
    and "Check (env_golib V) srv sigma request = Some (Inr resp)" and "rewrite_of resp = Some i"
  shows "\<exists>k ir id u m a. LoadPublicKey V (param (cfg_Auth cfg) ''publicKeyPath'') = Inr k
     \<and> ParseCheckRequest (env_golib V) request = Inr ir
     \<and> bearer_identity F k (ir_Headers ir) id
     \<and> users_of (sigma 1) id = Some u \<and> models_of (sigma 2) (ir_ModelID ir) = Some m
     \<and> abac u m \<and> m_Type m = ModelTypeBase
     \<and> models_of (sigma 3) i = Some a \<and> m_Type a = ModelTypeLora
     \<and> m_BaseModelId a = ir_ModelID ir \<and> abac u a
     \<and> cc_Type (as_ComponentConfig (cfg_AdapterSelection cfg)) = ''semantic''
     \<and> shouldSelect srv ir"
proof (rule started_deployment [OF assms(1-6)])
  fix e k sel
  assume D: "ext_authz (ReadStore.truncate (Memory (env_uord V) (env_mord V))) mem_good users_of
      models_of (OPA_PolicyEngine e) abac (JWT_Authenticator V k) (bearer_identity F k) sel"
    and k: "LoadPublicKey V (param (cfg_Auth cfg) ''publicKeyPath'') = Inr k"
    and sel: "NewAdapterSelectionFromConfig (env_golib V) (env_isprint V) (env_http V)
          (cfg_AdapterSelection cfg) = Inr sel"
    and srv: "srv = NewExtAuthzServer (OPA_PolicyEngine e)
         (ReadStore.truncate (Memory (env_uord V) (env_mord V)))
         (JWT_Authenticator V k) sel (as_AlwaysActive (cfg_AdapterSelection cfg))"
  from ext_authz.Check_rewrite [OF D assms(7) assms(8) [unfolded srv] assms(9)]
  obtain ir id u m a where r: "ParseCheckRequest (env_golib V) request = Inr ir"
      "bearer_identity F k (ir_Headers ir) id" "users_of (sigma 1) id = Some u"
      "models_of (sigma 2) (ir_ModelID ir) = Some m" "abac u m" "m_Type m = ModelTypeBase"
      "m_Id a = i" "ext_authz.permitted_lora models_of abac (sigma 3) u (ir_ModelID ir) a"
      "sel \<noteq> None" "shouldSelect srv ir"
    unfolding srv by blast
  have "cc_Type (as_ComponentConfig (cfg_AdapterSelection cfg)) = ''semantic''"
    using sel r(9) by (auto simp: NewAdapterSelectionFromConfig_def Let_def split: if_splits)
  with r k show ?thesis unfolding ext_authz.permitted_lora_def [OF D] by blast
qed

lemma rewrite_only_to_permitted_adapter_witness:
  "\<exists>u a. users_of demo_store ''alice'' = Some u \<and> models_of demo_store ''med'' = Some a \<and> abac u a"
proof -
  have "rewrite_of (allowWithModelRewrite ''med'') = Some ''med''" by simp
  from rewrite_only_to_permitted_adapter [OF demo_startup demo_load _ _ _ _ _ _ this,
      of "\<lambda>_. True" demo_facts "\<lambda>_. demo_store" demo_request]
  obtain k ir id u a where r: "LoadPublicKey demo_env ''/etc/ssl/certs/llm-d-ca.pem'' = Inr k"
      "ParseCheckRequest demo_lib demo_request = Inr ir" "bearer_identity demo_facts k (ir_Headers ir) id"
      "users_of demo_store id = Some u" "models_of demo_store ''med'' = Some a" "abac u a"
    using rego_opa_conforms demo_env_conforms demo_store_good demo_check demo_cfg_key by auto
  have "id = ''alice''"
    using r(1-3) demo_jwt.identity_unique [of "ir_Headers demo_ir" id "''alice''"] demo_identity
    by (simp add: demo_key demo_parse)
  with r show ?thesis by blast
qed

text \<open>
  C4. When the started server rewrites the model of a request and the semantic sidecar that it is
  configured with is at the other end, the rewrite goes to an adapter with a description that is not
  below the configured threshold, and at least as similar to the prompt as every description of every
  adapter of the requested base model that the store holds and whose policy the same, authenticated,
  user meets. That holds in whatever state the sidecar's cache is.
\<close>

theorem rewrite_to_most_similar_adapter:
  assumes "startup V configPath = Inr (srv, s0)" and "load V configPath = Inr cfg"
    and "range_order (env_uord V)" and "range_order (env_mord V)"
    and "opa_conforms scalar (env_prepare V)" and "gojwt_conforms F V"
    and "\<forall>n. mem_good (sigma n)"
    and "Check (env_golib V) srv sigma request = Some (Inr resp)" and "rewrite_of resp = Some i"
    and "ParseCheckRequest (env_golib V) request = Inr ir" and "valid_utf8 (PromptText ir)"
    and "semantic_New (env_golib V) (env_isprint V) (as_ComponentConfig (cfg_AdapterSelection cfg)) = Inr s"
    and "embeds M e" and "web_conforms (env_golib V) W S" and "scores_in M e S"
    and "connected (env_http V) (sel_url s @ pickEndpoint) W M"
    and "\<forall>j a. models_of (sigma 3) j = Some a \<longrightarrow> candidate_utf8 (candidate_of a)"
  shows "\<exists>k id u a. LoadPublicKey V (param (cfg_Auth cfg) ''publicKeyPath'') = Inr k
     \<and> bearer_identity F k (ir_Headers ir) id \<and> users_of (sigma 1) id = Some u
     \<and> models_of (sigma 3) i = Some a
     \<and> (let permitted = \<lambda>a. models_of (sigma 3) (m_Id a) = Some a \<and> m_Type a = ModelTypeLora
              \<and> m_BaseModelId a = ir_ModelID ir \<and> abac u a;
            descs = \<lambda>a. set (elems (sp_Descriptions (m_SelectionPolicy a)));
            sim = similarity M e (PromptText ir)
        in permitted a \<and> (\<exists>d \<in> descs a. \<not> sim d < sel_threshold s
             \<and> (\<forall>a'. permitted a' \<longrightarrow> (\<forall>d' \<in> descs a'. \<not> sim d < sim d'))))"
proof (rule started_deployment [OF assms(1-6)])
  fix e' k sel
  assume D: "ext_authz (ReadStore.truncate (Memory (env_uord V) (env_mord V))) mem_good users_of
      models_of (OPA_PolicyEngine e') abac (JWT_Authenticator V k) (bearer_identity F k) sel"
    and k: "LoadPublicKey V (param (cfg_Auth cfg) ''publicKeyPath'') = Inr k"
    and sel: "NewAdapterSelectionFromConfig (env_golib V) (env_isprint V) (env_http V)
          (cfg_AdapterSelection cfg) = Inr sel"
    and srv: "srv = NewExtAuthzServer (OPA_PolicyEngine e')
         (ReadStore.truncate (Memory (env_uord V) (env_mord V)))
         (JWT_Authenticator V k) sel (as_AlwaysActive (cfg_AdapterSelection cfg))"
  from ext_authz.Check_rewrite [OF D assms(7) assms(8) [unfolded srv] assms(9)] assms(10)
  obtain id u a where r: "bearer_identity F k (ir_Headers ir) id" "users_of (sigma 1) id = Some u"
      "m_Id a = i" "ext_authz.permitted_lora models_of abac (sigma 3) u (ir_ModelID ir) a"
      "ext_authz.picked models_of abac sel (sigma 3) u ir a" "sel \<noteq> None"
    unfolding srv by auto
  note lora = ext_authz.permitted_lora_def [OF D]
  from r(5) obtain S ms where ms: "sel = Some S" "Pick S ir (map Some ms) = Some (Some a, True)"
      "distinct (map m_Id ms)"
      "\<And>m. m \<in> set ms \<longleftrightarrow> models_of (sigma 3) (m_Id m) = Some m \<and> m_Type m = ModelTypeLora
         \<and> m_BaseModelId m = ir_ModelID ir \<and> abac u m"
    unfolding ext_authz.picked_def [OF D] lora by auto
  have S: "S = Semantic_Selector (env_golib V) (env_http V) s"
    using sel ms(1) assms(12) by (auto simp: NewAdapterSelectionFromConfig_def Let_def split: if_splits)
  have ok: "\<forall>m \<in> set ms. m_Id m \<noteq> [] \<and> candidate_utf8 (candidate_of m)"
    using ms(4) assms(17) mem_lookup(4) [OF mem_good_specs(1) [OF assms(7) [rule_format]]] by blast
  show ?thesis
  proof (rule Semantic_Pick_similar [OF assms(13-16) ms(3) ok assms(11) refl refl])
    fix p
    assume p: "Semantic_Pick (env_golib V) (env_http V) s ir (map Some ms) = Some (p, p \<noteq> None)"
      and best: "\<And>m. p = Some m \<Longrightarrow> m \<in> set (filter (eligible (ir_ModelID ir)) ms)
        \<and> (\<exists>d \<in> set (elems (sp_Descriptions (m_SelectionPolicy m))).
             \<not> similarity M e (PromptText ir) d < sel_threshold s
             \<and> (\<forall>m' \<in> set (filter (eligible (ir_ModelID ir)) ms). \<forall>d' \<in> set (elems (sp_Descriptions (m_SelectionPolicy m'))).
                  \<not> similarity M e (PromptText ir) d < similarity M e (PromptText ir) d'))"
    have "p = Some a" using p ms(2) by (simp add: S Semantic_Selector_def)
    from best [OF this] obtain d where d: "a \<in> set ms" "d \<in> set (elems (sp_Descriptions (m_SelectionPolicy a)))"
        "\<not> similarity M e (PromptText ir) d < sel_threshold s"
        "\<And>m' d'. m' \<in> set ms \<Longrightarrow> eligible (ir_ModelID ir) m' \<Longrightarrow> d' \<in> set (elems (sp_Descriptions (m_SelectionPolicy m')))
           \<Longrightarrow> \<not> similarity M e (PromptText ir) d < similarity M e (PromptText ir) d'" by auto
    have most: "\<not> similarity M e (PromptText ir) d < similarity M e (PromptText ir) d'"
      if "m' \<in> set ms" "d' \<in> set (elems (sp_Descriptions (m_SelectionPolicy m')))" for m' d'
    proof -
      from that ms(4) [of m'] have "eligible (ir_ModelID ir) m'"
        unfolding eligible_def by (metis empty_iff empty_set)
      from d(4) [OF that(1) this that(2)] show ?thesis .
    qed
    with d(1-3) r(1-3) k ms(4) show ?thesis unfolding Let_def by blast
  qed
qed

lemma rewrite_to_most_similar_adapter_witness:
  "\<exists>a. models_of demo_store ''med'' = Some a
     \<and> (\<exists>d \<in> set (elems (sp_Descriptions (m_SelectionPolicy a))).
          \<not> similarity demo_embedder demo_embedding ''hi'' d < F_Fin 0)"
proof -
  have s: "semantic_New demo_lib (\<lambda>_. True) (as_ComponentConfig (cfg_AdapterSelection demo_cfg)) = Inr demo_selector"
    by (simp add: demo_cfg_def semantic_New_def param_def gget_def glookup_def Let_def demo_lib_def demo_selector_def)
  have utf8: "\<forall>j a. models_of demo_store j = Some a \<longrightarrow> candidate_utf8 (candidate_of a)"
    by (auto simp: demo_lookup candidate_utf8_def candidate_of_def demo_specs ascii_literal byte_def split: if_splits)
  have thr: "sel_threshold demo_selector = F_Fin 0" by (simp add: demo_selector_def)
  have "rewrite_of (allowWithModelRewrite ''med'') = Some ''med''" by simp
  from rewrite_to_most_similar_adapter [OF demo_startup demo_load _ _ _ _ _ _ this, of "\<lambda>_. True" demo_facts
      "\<lambda>_. demo_store" demo_request demo_ir demo_selector demo_embedder demo_embedding demo_web demo_scores]
  show ?thesis
    using rego_opa_conforms demo_env_conforms demo_store_good demo_check demo_parse demo_prompt s demo_embeds
      demo_web_conforms demo_scores_in demo_connected utf8
    by (auto simp: Let_def thr)
qed

text \<open>
  C5. A user whose resource is gone from the cluster is denied, although the process reads from a
  cache that may be behind: if at the first read of a check the API server holds no user resource
  with the id that the request's token names, the request is not allowed on any protected path. That
  needs the others, replicas of the process among them, to respect this id: while a resource with the
  id carries the finalizer, they neither remove the finalizer nor change the id nor remove the
  resource. About other ids they may do anything.
\<close>

theorem deleted_user_is_denied:
  assumes "startup V configPath = Inr (srv, s0)" and "load V configPath = Inr cfg"
    and "range_order (env_uord V)" and "range_order (env_mord V)"
    and "opa_conforms scalar (env_prepare V)" and "gojwt_conforms F V"
    and "cached_cluster_conforms c" and "\<forall>n. cached_process c others (kappa n, sigma n, ready n)"
    and "\<forall>k k'. others k k' \<longrightarrow> user_kept c i k k'"
    and "ParseCheckRequest (env_golib V) request = Inr ir" and "ir_Type ir \<noteq> RequestTypeUnknown"
    and "LoadPublicKey V (param (cfg_Auth cfg) ''publicKeyPath'') = Inr k"
    and "bearer_identity F k (ir_Headers ir) i"
    and "\<forall>n x. last (cc_ulog c (kappa 0) n) = Some x \<longrightarrow> u_Id (usr_Spec x) \<noteq> i"
  shows "\<exists>reason. Check (env_golib V) srv sigma request = Some (Inr (deny reason))"
proof (rule started_deployment [OF assms(1-6)])
  fix e k' sel
  assume D: "ext_authz (ReadStore.truncate (Memory (env_uord V) (env_mord V))) mem_good users_of
      models_of (OPA_PolicyEngine e) abac (JWT_Authenticator V k') (bearer_identity F k') sel"
    and k': "LoadPublicKey V (param (cfg_Auth cfg) ''publicKeyPath'') = Inr k'"
    and srv: "srv = NewExtAuthzServer (OPA_PolicyEngine e)
         (ReadStore.truncate (Memory (env_uord V) (env_mord V)))
         (JWT_Authenticator V k') sel (as_AlwaysActive (cfg_AdapterSelection cfg))"
  have k: "k' = k" using k' assms(12) by simp
  have good: "\<forall>n. mem_good (sigma n)" using cached_process_revoked(1) [OF assms(7)] assms(8) by blast
  have "users_of (sigma 0) i = None" by (rule cached_process_revoked(2) [OF assms(7) assms(8) [rule_format] assms(9,14)])
  moreover have "Authenticate (JWT_Authenticator V k) ir = Inr \<lparr>ar_UserID = i\<rparr>"
    using assms(13) by (simp add: JWT_Authenticator_def JWT_Authenticate_iff [OF assms(6)])
  ultimately show ?thesis
    using ext_authz.Check_authenticated [OF D _ assms(10,11), of sigma "\<lparr>ar_UserID = i\<rparr>"] good
    unfolding srv k by auto
qed

text \<open>The cache still shows the resource that is gone.\<close>

lemma deleted_user_is_denied_witness:
  "\<exists>reason. Check demo_lib demo_srv (\<lambda>_. New) demo_request = Some (Inr (deny reason))"
proof -
  let ?k = "alice_log [Some (alice_at 1 []), None]"
  have "cached_process demo_cached deletes_alice (?k, New, False)"
    by (rule cached_process.change [OF demo_cached_start]) (simp add: deletes_alice_def)
  then have p: "\<forall>n::nat. cached_process demo_cached deletes_alice (?k, New, False)" by blast
  have kept: "\<forall>k k'. deletes_alice k k' \<longrightarrow> user_kept demo_cached ''alice'' k k'"
    using demo_log_gone(1) by blast
  have none: "\<forall>n x. last (cc_ulog demo_cached ?k n) = Some x \<longrightarrow> u_Id (usr_Spec x) \<noteq> ''alice''"
    by (simp add: demo_cached_def demo_log_def alice_log_def)
  have opa: "opa_conforms (\<lambda>_. True) (env_prepare demo_env)" by (simp add: rego_opa_conforms)
  have t: "ir_Type demo_ir \<noteq> RequestTypeUnknown" by (simp add: demo_ir_def)
  have "\<exists>reason. Check (env_golib demo_env) demo_srv (\<lambda>_. New) demo_request = Some (Inr (deny reason))"
    by (rule deleted_user_is_denied [OF demo_startup demo_load _ _ opa demo_env_conforms
          demo_cached_conforms p kept _ t _ demo_identity none])
       (simp_all add: demo_parse demo_key demo_cfg_key)
  then show ?thesis by simp
qed

section \<open>From the chart to the process\<close>

text \<open>
  C7. The arguments that the Helm chart gives the container configure the process as the chart's
  values say: it starts with the mounted configuration file, serves authorization on the given port
  and takes part in leader election if told to, or exits with 1 if the start fails; it never
  stops on its command line.
\<close>

theorem chart_configures_process:
  assumes "authPort < 2 ^ 16"
  shows "main_process V others z (chart_args authPort healthPort metricsPort leaderElection) =
     (case startup V ''/etc/secure-inference/config.yaml'' of
        Inl err \<Rightarrow> Exits 1
      | Inr (srv, s0) \<Rightarrow>
          Serves \<lparr>opt_configPath = ''/etc/secure-inference/config.yaml'', opt_authPort = int authPort,
                   opt_metricsAddr = '':'' @ nat_lit metricsPort, opt_healthAddr = '':'' @ nat_lit healthPort,
                   opt_enableLeaderElection = leaderElection, opt_others = z\<rparr> srv s0)"
proof -
  have p: "authPort < 2 ^ 63" using assms by simp
  show ?thesis
    by (simp add: main_process_def chart_args_parse [OF p] chart_options_def split: sum.split)
qed

lemma chart_configures_process_witness:
  "\<exists>opts. main_process demo_env (\<lambda>_. None) () (chart_args 9000 8081 8080 True) = Serves opts demo_srv New
     \<and> opt_authPort opts = 9000 \<and> opt_enableLeaderElection opts"
  using chart_configures_process [of 9000 demo_env "\<lambda>_. None" "()" 8081 8080 True] demo_startup by simp

section \<open>From the admin tool to the server\<close>

text \<open>
  C6. A token that \<open>llmd-admin create\<close> prints with whatever flags, after \<open>llmd-admin init\<close> went well,
  is what the server with the admin's certificate accepts: until a second before the token is 24 hours
  old, a request for a protected path that carries it is allowed exactly when the user is registered
  whom the last \<open>--name\<close> names, or \<open>user1\<close> without that flag, and, unless the request only lists
  models, meets the attribute policy of the requested model.
\<close>

theorem cli_token_authorizes:
  assumes "x509_conforms signed A" and "disk_conforms (ad_os A) {LlmDCAFile, LlmDKeyFile}"
    and "signing_conforms F A" and "gojwt_conforms F V" and "times_documented F now"
    and "admin_main cobra A [''init''] d
           = \<lparr>cli_stdout = [''Creating LLM-D Admin CA Cert.''], cli_stderr = [], cli_exit = 0, cli_disk = d1\<rparr>"
    and "admin_main cobra (A\<lparr>Now := clock\<rparr>) (''create'' # map flag_arg kvs) d1
           = \<lparr>cli_stdout = [tok], cli_stderr = [], cli_exit = 0, cli_disk = d2\<rparr>"
    and "\<forall>kv \<in> set kvs. fst kv \<in> {''name'', ''role'', ''org''} \<and> valid_utf8 (snd kv)"
    and "now + 10 ^ 9 \<le> clock 0 + 24 * Hour"
    and "startup V configPath = Inr (srv, s0)" and "load V configPath = Inr cfg"
    and "LoadPublicKey V (param (cfg_Auth cfg) ''publicKeyPath'') = LoadPublicKey (on_disk A d1) LlmDCAFile"
    and "range_order (env_uord V)" and "range_order (env_mord V)" and "opa_conforms scalar (env_prepare V)"
    and "\<forall>n. mem_good (sigma n)"
    and "ParseCheckRequest (env_golib V) request = Inr ir" and "ir_Type ir \<noteq> RequestTypeUnknown"
    and "glookup (ir_Headers ir) ''authorization'' = Some (''Bearer '' @ tok)"
    and "cobra_conforms cobra" and "name = given kvs ''name'' ''user1''"
  shows "\<exists>resp. Check (env_golib V) srv sigma request = Some (Inr resp)
     \<and> (is_allowed resp \<longleftrightarrow> users_of (sigma 0) name \<noteq> None
          \<and> (ir_Type ir = RequestTypeListModels \<or>
             (\<exists>u m. users_of (sigma 1) name = Some u \<and> models_of (sigma 2) (ir_ModelID ir) = Some m
                \<and> abac u m)))"
proof -
  let ?A = "A\<lparr>Now := clock\<rparr>"
  let ?role = "given kvs ''role'' ''role1''" and ?org = "given kvs ''org'' ''org1''"
  from CreateAdminCerts_keys [OF assms(1,2) main_init_done [OF assms(20,6)]] obtain p where p: "LoadPrivateKey A d1 LlmDKeyFile = Inr p"
      "LoadPublicKey (on_disk A d1) LlmDCAFile = Inr (rsa_Public A p)" .
  have "fst ` set kvs \<subseteq> {''name'', ''role'', ''org''}" using assms(8) by blast
  then have gen: "GenerateJWT ?A d1 name ?role ?org LlmDKeyFile = Inr tok"
    unfolding assms(21) by (rule main_create_done [OF assms(20) _ assms(7)])
  have "valid_utf8 (given kvs x v)" if "valid_utf8 v" for x v
    using given_values [of kvs valid_utf8 v x] assms(8) that by blast
  then have utf8: "valid_utf8 name" "valid_utf8 ?role" "valid_utf8 ?org"
    by (simp_all add: assms(21) ascii_literal byte_def)
  have sign: "signing_conforms F ?A" using assms(3) by simp
  from GenerateJWT_admin_token [OF sign gen, of now] assms(5,9) utf8 p(1) have w: "word_ascii tok"
      and t: "admin_token F (rsa_Public A p) tok (token_claims_of ?A name ?role ?org)" by auto
  from started_server_decides [OF assms(10,11,13-15,4,16-18)] obtain k resp where
      k: "LoadPublicKey V (param (cfg_Auth cfg) ''publicKeyPath'') = Inr k"
      and resp: "Check (env_golib V) srv sigma request = Some (Inr resp)"
      and dec: "is_allowed resp \<longleftrightarrow>
       (\<exists>i. bearer_identity F k (ir_Headers ir) i \<and> users_of (sigma 0) i \<noteq> None
          \<and> (ir_Type ir = RequestTypeListModels \<or>
             (\<exists>u m. users_of (sigma 1) i = Some u \<and> models_of (sigma 2) (ir_ModelID ir) = Some m
                \<and> abac u m)))" .
  have "bearer_identity F k (ir_Headers ir) i \<longleftrightarrow> i = name" for i
    using bearer_header [OF w assms(19) t] k p(2) assms(12) by (simp add: token_claims_of_def)
  with resp dec show ?thesis by simp
qed

lemma cli_token_authorizes_witness:
  "\<exists>resp. Check demo_lib demo_srv (\<lambda>_. demo_store) demo_request = Some (Inr resp) \<and> is_allowed resp"
proof -
  have same: "demo_admin\<lparr>Now := \<lambda>_. 0\<rparr> = demo_admin" by (simp add: demo_admin_def crypto.defs)
  let ?kvs = "[(''name'', ''bob''), (''role'', ''user''), (''org'', []), (''name'', ''alice'')]"
  have flags: "\<forall>kv \<in> set ?kvs. fst kv \<in> {''name'', ''role'', ''org''} \<and> valid_utf8 (snd kv)"
    by (simp add: ascii_literal byte_def)
  then have "fst ` set ?kvs \<subseteq> {''name'', ''role'', ''org''}" by simp
  from main_create [OF demo_cobra_conforms this, of "demo_admin\<lparr>Now := \<lambda>_. 0\<rparr>" demo_disk]
  have run: "admin_main demo_cobra (demo_admin\<lparr>Now := \<lambda>_. 0\<rparr>) (''create'' # map flag_arg ?kvs) demo_disk
      = \<lparr>cli_stdout = [''salice''], cli_stderr = [], cli_exit = 0, cli_disk = demo_disk\<rparr>"
    by (simp add: given_def same createCmd_Run_def demo_token)
  have init: "admin_main demo_cobra demo_admin [''init''] Map.empty
      = \<lparr>cli_stdout = [''Creating LLM-D Admin CA Cert.''], cli_stderr = [], cli_exit = 0, cli_disk = demo_disk\<rparr>"
    by (simp add: main_init [OF demo_cobra_conforms] initCmd_Run_def demo_init)
  have disk: "disk_conforms (ad_os demo_admin) {LlmDCAFile, LlmDKeyFile}" by (simp add: map_os_conforms)
  have key: "LoadPublicKey demo_env (param (cfg_Auth demo_cfg) ''publicKeyPath'')
      = LoadPublicKey (on_disk demo_admin demo_disk) LlmDCAFile"
    by (simp add: demo_key demo_cfg_key demo_ca_key)
  have opa: "opa_conforms (\<lambda>_. True) (env_prepare demo_env)" by (simp add: rego_opa_conforms)
  have early: "(5::int) + 10 ^ 9 \<le> 0 + 24 * Hour" by (simp add: Hour_def)
  have good: "\<forall>n::nat. mem_good demo_store" using demo_store_good by simp
  have "\<exists>resp. Check (env_golib demo_env) demo_srv (\<lambda>_. demo_store) demo_request = Some (Inr resp)
     \<and> (is_allowed resp \<longleftrightarrow> users_of demo_store ''alice'' \<noteq> None
          \<and> (ir_Type demo_ir = RequestTypeListModels \<or>
             (\<exists>u m. users_of demo_store ''alice'' = Some u \<and> models_of demo_store (ir_ModelID demo_ir) = Some m
                \<and> abac u m)))"
    by (rule cli_token_authorizes [OF demo_x509_conforms disk demo_signing_conforms demo_env_conforms
          demo_times init run flags early demo_startup demo_load key _ _ opa good _ _ _ demo_cobra_conforms])
       (simp_all add: demo_parse given_def, simp_all add: demo_ir_def glookup_def)
  then show ?thesis by (auto simp: demo_lookup) (auto simp: demo_ir_def)
qed

section \<open>Several replicas of the server\<close>

text \<open>
  C8. With leader election on, a replica that is not the leader answers requests like every
  replica, but its store stays empty: it allows no request for a protected path, whoever sends it,
  and it never becomes ready.
\<close>

theorem follower_allows_nothing:
  assumes "startup V configPath = Inr (srv, s0)" and "load V configPath = Inr cfg"
    and "range_order (env_uord V)" and "range_order (env_mord V)"
    and "opa_conforms scalar (env_prepare V)" and "gojwt_conforms F V"
    and "\<forall>n. replicas True c (w n) \<and> rp_leader (w n) \<noteq> Some r"
    and "ParseCheckRequest (env_golib V) request = Inr ir" and "ir_Type ir \<noteq> RequestTypeUnknown"
  shows "(\<exists>resp. Check (env_golib V) srv (\<lambda>n. store_of (w n) r) request = Some (Inr resp) \<and> \<not> is_allowed resp)
     \<and> (\<forall>n. serves True (w n) r \<and> \<not> reconciles True (w n) r \<and> readyz (world_of (w n) r) \<noteq> None)"
proof -
  have fresh: "rp_state (w n) r = (New, False)" for n
    using leader_only [of c "w n"] assms(7) by (simp add: one_store_def fresh_def)
  then have empty: "store_of (w n) r = New" for n by (simp add: store_of_def)
  have good: "\<forall>n. mem_good (store_of (w n) r)" by (simp add: empty mem_good_New)
  from started_server_decides [OF assms(1-6) good assms(8,9)] obtain resp where
      "Check (env_golib V) srv (\<lambda>n. store_of (w n) r) request = Some (Inr resp)" "\<not> is_allowed resp"
    by (auto simp: empty mem_inv_New)
  moreover have "serves True (w n) r \<and> \<not> reconciles True (w n) r \<and> readyz (world_of (w n) r) \<noteq> None" for n
    using assms(7) fresh [of n] every_replica_serves by (simp add: reconciles_def readyz_def world_of_def)
  ultimately show ?thesis by blast
qed

lemma follower_allows_nothing_witness:
  "\<exists>resp. Check demo_lib demo_srv (\<lambda>_. New) demo_request = Some (Inr resp) \<and> \<not> is_allowed resp"
proof -
  let ?w = "\<lparr>rp_cluster = with_alice [] None, rp_leader = None, rp_state = (\<lambda>_. fresh)\<rparr>"
  have r: "\<forall>n::nat. replicas True demo_kube ?w \<and> rp_leader ?w \<noteq> Some 1" by (simp add: replicas.start)
  have opa: "opa_conforms (\<lambda>_. True) (env_prepare demo_env)" by (simp add: rego_opa_conforms)
  have t: "ir_Type demo_ir \<noteq> RequestTypeUnknown" by (simp add: demo_ir_def)
  have "(\<exists>resp. Check (env_golib demo_env) demo_srv (\<lambda>n. store_of ?w 1) demo_request = Some (Inr resp)
        \<and> \<not> is_allowed resp)
     \<and> (\<forall>n::nat. serves True ?w 1 \<and> \<not> reconciles True ?w 1 \<and> readyz (world_of ?w 1) \<noteq> None)"
    by (rule follower_allows_nothing [OF demo_startup demo_load _ _ opa demo_env_conforms r _ t])
       (simp_all add: demo_parse)
  then show ?thesis by (simp add: store_of_def fresh_def)
qed

end
